(* ===== verification/Gacha_Prelude.thy ===== *)
theory Gacha_Prelude
  imports Complex_Main "HOL-Library.AList"
begin

text \<open>
  The vocabulary every component shares.

  \<^item> \<open>exn\<close> has one constructor per exception the program raises or catches; a Python call
    that may raise is a value of type \<open>'a result\<close>, with \<open>Inl\<close> for the exception.
  \<^item> \<open>dict\<close> is a Python dict: an association list in insertion order. A lookup is
    \<open>map_of\<close>, \<open>d[k] = v\<close> is \<open>AList.update\<close> (which replaces in place or appends, as
    Python does), a dict comprehension is \<open>dict_comp\<close>, and \<open>sorted(d.items())\<close> is
    \<open>dict_sorted\<close>.
  \<^item> \<open>gacha_simps\<close> collects the unfolding equations the component proofs share.
\<close>

named_theorems gacha_simps

section \<open>Exceptions and results\<close>

datatype exn =
    HTTPException int string string
  | GachaStateStoreError string
  | PityVersionConflict int
  | PullOperationOwnershipLost
  | AssetServiceError int string string
  | BackpackReceiptError int string string
  | EventPublishError string
  | CatalogLoadError string
  | ValueError string
  | ValidationError
  | KeyError
  | IndexError
  | TypeError
  | RuntimeError string
  | OtherException string

type_synonym 'a result = "exn + 'a"

text \<open>Python's \<open>d[k]\<close>: a missing key raises \<open>KeyError\<close>.\<close>

definition dict_index :: "('k \<times> 'v) list \<Rightarrow> 'k \<Rightarrow> 'v result" where
  "dict_index d k = (case map_of d k of None \<Rightarrow> Inl KeyError | Some v \<Rightarrow> Inr v)"

lemma dict_index_Some [simp]: "map_of d k = Some v \<Longrightarrow> dict_index d k = Inr v"
  by (simp add: dict_index_def)

lemma dict_index_Inr_iff: "dict_index d k = Inr v \<longleftrightarrow> map_of d k = Some v"
  by (simp add: dict_index_def split: option.splits)

text \<open>A list comprehension whose element expression may raise: the first exception wins.\<close>

fun map_result :: "('a \<Rightarrow> 'b result) \<Rightarrow> 'a list \<Rightarrow> 'b list result" where
  "map_result f [] = Inr []"
| "map_result f (x # xs) =
     (case f x of Inl e \<Rightarrow> Inl e
      | Inr y \<Rightarrow> (case map_result f xs of Inl e \<Rightarrow> Inl e | Inr ys \<Rightarrow> Inr (y # ys)))"

lemma map_result_total:
  "(\<And>x. x \<in> set xs \<Longrightarrow> f x = Inr (g x)) \<Longrightarrow> map_result f xs = Inr (map g xs)"
  by (induction xs) auto

lemma map_result_InrD:
  "map_result f xs = Inr ys \<Longrightarrow> length ys = length xs \<and> (\<forall>y\<in>set ys. \<exists>x\<in>set xs. f x = Inr y)"
  by (induction xs arbitrary: ys) (auto split: sum.splits)

text \<open>Sequencing of computations that may raise, and a loop that threads a state.\<close>

definition res_bind :: "'a result \<Rightarrow> ('a \<Rightarrow> 'b result) \<Rightarrow> 'b result" where
  "res_bind r f = (case r of Inl e \<Rightarrow> Inl e | Inr x \<Rightarrow> f x)"

lemma res_bind_simps [simp]:
  "res_bind (Inl e) f = Inl e" "res_bind (Inr x) f = f x"
  by (simp_all add: res_bind_def)

lemma res_bind_Inr_iff: "res_bind r f = Inr y \<longleftrightarrow> (\<exists>x. r = Inr x \<and> f x = Inr y)"
  by (simp add: res_bind_def split: sum.splits)

fun fold_result :: "('a \<Rightarrow> 's \<Rightarrow> 's result) \<Rightarrow> 'a list \<Rightarrow> 's \<Rightarrow> 's result" where
  "fold_result f [] s = Inr s"
| "fold_result f (x # xs) s = res_bind (f x s) (fold_result f xs)"

lemma fold_result_invariant:
  assumes "fold_result f xs s = Inr s'" "P s" "\<And>x s t. x \<in> set xs \<Longrightarrow> P s \<Longrightarrow> f x s = Inr t \<Longrightarrow> P t"
  shows "P s'"
  using assms by (induction xs arbitrary: s) (auto simp: res_bind_Inr_iff)

section \<open>Dictionaries\<close>

type_synonym ('k, 'v) dict = "('k \<times> 'v) list"

definition dict_comp :: "('k \<times> 'v) list \<Rightarrow> ('k, 'v) dict" where
  "dict_comp kvs = fold (\<lambda>(k, v). AList.update k v) kvs []"

definition dict_sorted :: "('k::linorder, 'v) dict \<Rightarrow> ('k \<times> 'v) list" where
  "dict_sorted d = sort_key fst d"

text \<open>\<open>d.setdefault(k, []).append(v)\<close>.\<close>

definition dict_append :: "'k \<Rightarrow> 'v \<Rightarrow> ('k, 'v list) dict \<Rightarrow> ('k, 'v list) dict" where
  "dict_append k v d =
     AList.update k ((case map_of d k of None \<Rightarrow> [] | Some vs \<Rightarrow> vs) @ [v]) d"

text \<open>Python's \<open>==\<close> on dicts ignores the order of insertion.\<close>

definition dict_eq :: "('k, 'v) dict \<Rightarrow> ('k, 'v) dict \<Rightarrow> bool" where
  "dict_eq d1 d2 \<longleftrightarrow> (\<forall>k \<in> set (map fst d1 @ map fst d2). map_of d1 k = map_of d2 k)"

lemma dict_eq_iff: "dict_eq d1 d2 \<longleftrightarrow> map_of d1 = map_of d2"
proof
  assume eq: "dict_eq d1 d2"
  show "map_of d1 = map_of d2"
  proof
    fix k
    show "map_of d1 k = map_of d2 k"
    proof (cases "k \<in> set (map fst d1 @ map fst d2)")
      case True
      with eq show ?thesis by (simp add: dict_eq_def)
    next
      case False
      then show ?thesis by (metis map_of_eq_None_iff set_append set_map Un_iff)
    qed
  qed
qed (simp add: dict_eq_def)

lemma dict_eq_refl [simp]: "dict_eq d d"
  by (simp add: dict_eq_iff)

lemma fold_update_map_of:
  "map_of (fold (\<lambda>(k, v). AList.update k v) kvs d) = map_of d ++ map_of (rev kvs)"
proof (induction kvs arbitrary: d)
  case Nil
  then show ?case by simp
next
  case (Cons kv kvs)
  obtain k v where kv: "kv = (k, v)" by force
  have "map_of (fold (\<lambda>(k, v). AList.update k v) (kv # kvs) d)
      = map_of (AList.update k v d) ++ map_of (rev kvs)"
    by (simp add: kv Cons.IH)
  also have "\<dots> = map_of d ++ map_of (rev (kv # kvs))"
    by (simp add: kv update_conv' fun_eq_iff map_add_def split: option.splits)
  finally show ?case .
qed

lemma map_of_dict_comp: "map_of (dict_comp kvs) = map_of (rev kvs)"
  by (simp add: dict_comp_def fold_update_map_of)

lemma distinct_fold_update:
  "distinct (map fst d) \<Longrightarrow> distinct (map fst (fold (\<lambda>(k, v). AList.update k v) kvs d))"
  by (induction kvs arbitrary: d) (auto simp: distinct_update)

lemma distinct_dict_comp [simp]: "distinct (map fst (dict_comp kvs))"
  by (simp add: dict_comp_def distinct_fold_update)

lemma in_set_updateD: "x \<in> set (AList.update k v d) \<Longrightarrow> x = (k, v) \<or> x \<in> set d"
  by (induction d) (auto split: if_splits)

lemma in_set_dict_compD: "x \<in> set (dict_comp kvs) \<Longrightarrow> x \<in> set kvs"
proof -
  have "x \<in> set (fold (\<lambda>(k, v). AList.update k v) kvs d) \<Longrightarrow> x \<in> set kvs \<union> set d" for d
    by (induction kvs arbitrary: d) (auto dest!: in_set_updateD)
  from this[of "[]"] show "x \<in> set (dict_comp kvs) \<Longrightarrow> x \<in> set kvs"
    by (simp add: dict_comp_def)
qed

lemma map_of_rev_distinct:
  "distinct (map fst kvs) \<Longrightarrow> map_of (rev kvs) = map_of kvs"
  by (intro map_of_inject_set[THEN iffD2]) (auto simp: rev_map[symmetric])

lemma map_of_dict_comp_distinct:
  "distinct (map fst kvs) \<Longrightarrow> map_of (dict_comp kvs) = map_of kvs"
  by (simp add: map_of_dict_comp map_of_rev_distinct)

lemma map_of_dict_sorted:
  assumes "distinct (map fst d)"
  shows "map_of (dict_sorted d) = map_of d"
proof -
  have "distinct (map fst (dict_sorted d))"
    using assms unfolding dict_sorted_def by (simp add: distinct_map)
  with assms show ?thesis
    by (subst map_of_inject_set) (auto simp: dict_sorted_def)
qed

lemma distinct_dict_sorted: "distinct (map fst d) \<Longrightarrow> distinct (map fst (dict_sorted d))"
  unfolding dict_sorted_def by (simp add: distinct_map)

lemma set_dict_sorted [simp]: "set (dict_sorted d) = set d"
  by (simp add: dict_sorted_def)

text \<open>Equal dicts list the same items once sorted, so a sorted listing is canonical.\<close>

lemma list_of_map_of:
  assumes "distinct (map fst xs)"
  shows "xs = map (\<lambda>k. (k, the (map_of xs k))) (map fst xs)"
proof (rule nth_equalityI)
  fix i assume i: "i < length xs"
  obtain k v where kv: "xs ! i = (k, v)" by force
  with i have "(k, v) \<in> set xs" by (metis nth_mem)
  with assms have "map_of xs k = Some v" by simp
  with i kv show "xs ! i = map (\<lambda>k. (k, the (map_of xs k))) (map fst xs) ! i" by simp
qed simp

lemma dict_sorted_cong:
  assumes d: "distinct (map fst d1)" "distinct (map fst d2)" and eq: "map_of d1 = map_of d2"
  shows "dict_sorted d1 = dict_sorted d2"
proof -
  have "set (map fst d1) = set (map fst d2)"
    using eq by (metis dom_map_of_conv_image_fst set_map)
  then have keys: "map fst (dict_sorted d1) = map fst (dict_sorted d2)"
    using d by (intro sorted_distinct_set_unique)
      (simp_all add: distinct_dict_sorted, simp_all add: dict_sorted_def)
  have "dict_sorted d1 = map (\<lambda>k. (k, the (map_of d1 k))) (map fst (dict_sorted d1))"
    using list_of_map_of[OF distinct_dict_sorted[OF d(1)]] map_of_dict_sorted[OF d(1)] by simp
  also have "\<dots> = map (\<lambda>k. (k, the (map_of d2 k))) (map fst (dict_sorted d2))"
    by (simp only: keys eq)
  also have "\<dots> = dict_sorted d2"
    using list_of_map_of[OF distinct_dict_sorted[OF d(2)]] map_of_dict_sorted[OF d(2)] by simp
  finally show ?thesis .
qed

lemma map_of_dict_append:
  "map_of (dict_append k v d) =
     (map_of d)(k \<mapsto> (case map_of d k of None \<Rightarrow> [] | Some vs \<Rightarrow> vs) @ [v])"
  by (simp add: dict_append_def update_conv')

lemma distinct_dict_append:
  "distinct (map fst d) \<Longrightarrow> distinct (map fst (dict_append k v d))"
  by (simp add: dict_append_def distinct_update)

section \<open>Options, truth values and lists\<close>

text \<open>Python's \<open>a or b\<close> on optional strings: \<open>None\<close> and the empty string are falsy.\<close>

definition str_or :: "string option \<Rightarrow> string \<Rightarrow> string" where
  "str_or a b = (case a of None \<Rightarrow> b | Some s \<Rightarrow> (if s = [] then b else s))"

definition truthy_str :: "string option \<Rightarrow> bool" where
  "truthy_str a = (case a of None \<Rightarrow> False | Some s \<Rightarrow> s \<noteq> [])"

lemma str_or_simps [simp]:
  "str_or None b = b" "str_or (Some []) b = b" "s \<noteq> [] \<Longrightarrow> str_or (Some s) b = s"
  by (simp_all add: str_or_def)

lemma truthy_str_simps [simp]:
  "truthy_str None = False" "truthy_str (Some s) = (s \<noteq> [])"
  by (simp_all add: truthy_str_def)

lemma filter_eq_single_distinct:
  assumes "distinct (map k xs)" "x \<in> set xs"
  shows "filter (\<lambda>y. k y = k x) xs = [x]"
  using assms
proof (induction xs)
  case Nil
  then show ?case by simp
next
  case (Cons a xs)
  show ?case
  proof (cases "x = a")
    case True
    with Cons.prems have "k a \<notin> k ` set xs" by simp
    then have "filter (\<lambda>y. k y = k a) xs = []" by (metis (mono_tags, lifting) filter_False image_eqI)
    with True show ?thesis by simp
  next
    case False
    with Cons.prems have "k a \<noteq> k x" by auto
    with Cons False show ?thesis by simp
  qed
qed

lemma find_append_list:
  "find P (xs @ ys) = (case find P xs of None \<Rightarrow> find P ys | Some x \<Rightarrow> Some x)"
  by (induction xs) auto

lemma find_key_Some:
  "distinct (map f xs) \<Longrightarrow> find (\<lambda>x. f x = k) xs = Some r \<longleftrightarrow> r \<in> set xs \<and> f r = k"
  by (induction xs) auto

end
