(* ===== verification/Py_Float.thy ===== *)
theory Py_Float
  imports Gacha_Prelude "HOL-Library.Log_Nat"
begin

text \<open>
  Python floats as the engine uses them: IEEE binary64 values, read as the rationals they
  denote. \<open>fl\<close> rounds a rational to the nearest number with a 53 bit significand, ties
  to the even significand; the arithmetic of the probability code is exact rational
  arithmetic followed by \<open>fl\<close>. The exponent is not bounded, which is exact for every
  magnitude between \<open>2 powi -1022\<close> and \<open>2 powi 1023\<close>: probabilities in parts per million and
  their multiples stay far inside. The lemmas show that rounding is monotone, exact at 0 and 1, and
  off by at most half a unit in the last place; \<open>near\<close> counts the roundings of a computation.
\<close>

definition round_half_even :: "rat \<Rightarrow> int" where
  "round_half_even x =
     (let n = \<lfloor>x\<rfloor>; d = x - of_int n in
      if d < 1 / 2 then n else if d > 1 / 2 then n + 1 else if even n then n else n + 1)"

definition ilog2 :: "rat \<Rightarrow> int" where
  "ilog2 x =
     (let e = bitlen (fst (quotient_of x)) - bitlen (snd (quotient_of x)) in
      if x < 2 powi e then e - 1 else e)"

definition fl_pos :: "rat \<Rightarrow> rat" where
  "fl_pos x = (let e = ilog2 x - 52 in of_int (round_half_even (x / 2 powi e)) * 2 powi e)"

definition fl :: "rat \<Rightarrow> rat" where
  "fl x = (if x = 0 then 0 else if 0 < x then fl_pos x else - fl_pos (- x))"

text \<open>\<open>int / int\<close>, \<open>int * float\<close>, \<open>float + float\<close>.\<close>

definition float_of_int :: "int \<Rightarrow> rat" where
  "float_of_int n = fl (of_int n)"

definition int_truediv :: "int \<Rightarrow> int \<Rightarrow> rat" where
  "int_truediv a b = fl (of_int a / of_int b)"

definition float_mul :: "rat \<Rightarrow> rat \<Rightarrow> rat" where
  "float_mul x y = fl (x * y)"

definition float_add :: "rat \<Rightarrow> rat \<Rightarrow> rat" where
  "float_add x y = fl (x + y)"

section \<open>Rounding to an integer\<close>

lemma round_half_even_of_int [simp]: "round_half_even (of_int n) = n"
  by (simp add: round_half_even_def)

lemma round_half_even_bounds:
  "\<lfloor>x\<rfloor> \<le> round_half_even x" "round_half_even x \<le> \<lfloor>x\<rfloor> + 1"
  by (simp_all add: round_half_even_def Let_def)

lemma round_half_even_mono:
  assumes "x \<le> y"
  shows "round_half_even x \<le> round_half_even y"
proof (cases "\<lfloor>x\<rfloor> = \<lfloor>y\<rfloor>")
  case True
  then show ?thesis
    using assms by (auto simp: round_half_even_def Let_def)
next
  case False
  with assms have "\<lfloor>x\<rfloor> + 1 \<le> \<lfloor>y\<rfloor>"
    by (meson floor_mono less_le zless_imp_add1_zle)
  then show ?thesis
    using round_half_even_bounds(2)[of x] round_half_even_bounds(1)[of y] by linarith
qed

lemma round_half_even_le: "x \<le> of_int n \<Longrightarrow> round_half_even x \<le> n"
  using round_half_even_mono[of x "of_int n"] by simp

lemma round_half_even_ge: "of_int n \<le> x \<Longrightarrow> n \<le> round_half_even x"
  using round_half_even_mono[of "of_int n" x] by simp

section \<open>The binary exponent\<close>

lemma powi_add_rat: "(2::rat) powi (a + b) = 2 powi a * 2 powi b"
  by (simp add: power_int_add)

lemma powi_mono_rat: "a \<le> b \<Longrightarrow> (2::rat) powi a \<le> 2 powi b"
  by (intro power_int_increasing) auto

lemma powi_pos_rat: "0 < (2::rat) powi a"
  by (simp add: zero_less_power_int)

lemma powi_less_rat_iff: "(2::rat) powi a < 2 powi b \<longleftrightarrow> a < b"
  by (meson linorder_not_less powi_mono_rat power_int_strict_increasing one_less_numeral_iff
      semiring_norm(76) order_le_less_trans order_less_irrefl)

lemma bitlen_powi_bounds:
  assumes "0 < n"
  shows "(2::rat) powi (bitlen n - 1) \<le> of_int n" "(of_int n :: rat) < 2 powi (bitlen n)"
proof -
  have "0 < bitlen n" using assms by (metis bitlen_eq_zero_iff bitlen_nonneg leD le_less)
  then have b: "2 ^ nat (bitlen n - 1) \<le> n" "n < 2 ^ nat (bitlen n)"
    using bitlen_bounds[OF assms] by auto
  have "(2::rat) powi (bitlen n - 1) = of_int (2 ^ nat (bitlen n - 1))"
    using \<open>0 < bitlen n\<close> by (simp add: power_int_def)
  with b(1) show "(2::rat) powi (bitlen n - 1) \<le> of_int n"
    by (metis of_int_le_iff)
  have "(2::rat) powi (bitlen n) = of_int (2 ^ nat (bitlen n))"
    using \<open>0 < bitlen n\<close> by (simp add: power_int_def)
  with b(2) show "(of_int n :: rat) < 2 powi (bitlen n)"
    by (metis of_int_less_iff)
qed

lemma ilog2_bounds:
  assumes x: "0 < x"
  shows "2 powi (ilog2 x) \<le> x" "x < 2 powi (ilog2 x + 1)"
proof -
  obtain p q where pq: "quotient_of x = (p, q)" by force
  have q: "0 < q" using pq quotient_of_denom_pos by blast
  have xe: "x = of_int p / of_int q" using pq quotient_of_div by blast
  with x q have p: "0 < p" by (simp add: zero_less_divide_iff)
  let ?e = "bitlen p - bitlen q"
  note bp = bitlen_powi_bounds[OF p] and bq = bitlen_powi_bounds[OF q]
  have "(2::rat) powi (?e + 1) * of_int q \<ge> 2 powi (?e + 1) * 2 powi (bitlen q - 1)"
    using bq(1) by (intro mult_left_mono) auto
  also have "2 powi (?e + 1) * 2 powi (bitlen q - 1) = (2::rat) powi (bitlen p)"
    by (simp flip: powi_add_rat)
  finally have up: "x < 2 powi (?e + 1)"
    using bp(2) q by (simp add: xe pos_divide_less_eq)
  have "(2::rat) powi (?e - 1) * of_int q \<le> 2 powi (?e - 1) * 2 powi (bitlen q)"
    using bq(2) by (intro mult_left_mono) auto
  also have "2 powi (?e - 1) * 2 powi (bitlen q) = (2::rat) powi (bitlen p - 1)"
    by (simp flip: powi_add_rat)
  finally have lo: "2 powi (?e - 1) \<le> x"
    using bp(1) q by (simp add: xe pos_le_divide_eq)
  show "2 powi (ilog2 x) \<le> x" "x < 2 powi (ilog2 x + 1)"
    using up lo by (auto simp: ilog2_def pq Let_def not_less)
qed

lemma ilog2_mono: "0 < x \<Longrightarrow> x \<le> y \<Longrightarrow> ilog2 x \<le> ilog2 y"
proof -
  assume "0 < x" "x \<le> y"
  then have "2 powi (ilog2 x) < (2::rat) powi (ilog2 y + 1)"
    using ilog2_bounds(1)[of x] ilog2_bounds(2)[of y] by linarith
  then show ?thesis by (simp add: powi_less_rat_iff)
qed

lemma ilog2_unique:
  assumes "2 powi e \<le> x" "x < 2 powi (e + 1)"
  shows "ilog2 x = e"
proof -
  have x: "0 < x" using assms(1) by (meson less_le_trans powi_pos_rat)
  from assms(1) ilog2_bounds(2)[OF x] have "2 powi e < (2::rat) powi (ilog2 x + 1)" by linarith
  moreover from assms(2) ilog2_bounds(1)[OF x] have "2 powi (ilog2 x) < (2::rat) powi (e + 1)"
    by linarith
  ultimately show ?thesis by (simp add: powi_less_rat_iff)
qed

section \<open>Rounding to 53 bits\<close>

lemma fl_pos_bounds:
  assumes x: "0 < x"
  shows "2 powi (ilog2 x) \<le> fl_pos x" "fl_pos x \<le> 2 powi (ilog2 x + 1)"
proof -
  let ?e = "ilog2 x - 52"
  let ?r = "round_half_even (x / 2 powi ?e)"
  have n52: "(2::rat) powi (ilog2 x) = of_int (2 ^ 52) * 2 powi ?e"
    using powi_add_rat[of 52 ?e] by simp
  have n53: "(2::rat) powi (ilog2 x + 1) = of_int (2 ^ 53) * 2 powi ?e"
    using powi_add_rat[of 53 ?e] by (simp add: add.commute)
  have "of_int (2 ^ 52) \<le> x / 2 powi ?e"
    using ilog2_bounds(1)[OF x] unfolding n52 by (simp add: pos_le_divide_eq)
  then have lo: "2 ^ 52 \<le> ?r" by (rule round_half_even_ge)
  have "x / 2 powi ?e \<le> of_int (2 ^ 53)"
    using ilog2_bounds(2)[OF x] unfolding n53 by (simp add: pos_divide_le_eq)
  then have up: "?r \<le> 2 ^ 53" by (rule round_half_even_le)
  have fl: "fl_pos x = of_int ?r * 2 powi ?e" by (simp add: fl_pos_def Let_def)
  show "2 powi (ilog2 x) \<le> fl_pos x"
    unfolding fl n52 by (intro mult_right_mono of_int_le_iff[THEN iffD2] lo) simp
  show "fl_pos x \<le> 2 powi (ilog2 x + 1)"
    unfolding fl n53 by (intro mult_right_mono of_int_le_iff[THEN iffD2] up) simp
qed

lemma fl_pos_pos: "0 < x \<Longrightarrow> 0 < fl_pos x"
  using fl_pos_bounds(1)[of x] by (meson less_le_trans powi_pos_rat)

lemma fl_pos_mono:
  assumes x: "0 < x" and le: "x \<le> y"
  shows "fl_pos x \<le> fl_pos y"
proof (cases "ilog2 x = ilog2 y")
  case True
  let ?u = "(2::rat) powi (ilog2 y - 52)"
  have "round_half_even (x / ?u) \<le> round_half_even (y / ?u)"
    using le by (intro round_half_even_mono divide_right_mono) auto
  then show ?thesis
    unfolding fl_pos_def Let_def True by (intro mult_right_mono of_int_le_iff[THEN iffD2]) auto
next
  case False
  with ilog2_mono[OF x le] have "ilog2 x + 1 \<le> ilog2 y" by simp
  then have "(2::rat) powi (ilog2 x + 1) \<le> 2 powi (ilog2 y)" by (rule powi_mono_rat)
  then show ?thesis
    using fl_pos_bounds(2)[OF x] fl_pos_bounds(1)[of y] x le by linarith
qed

lemma fl_mono: "x \<le> y \<Longrightarrow> fl x \<le> fl y"
  using fl_pos_mono[of x y] fl_pos_mono[of "- y" "- x"] fl_pos_pos[of y] fl_pos_pos[of "- x"]
  by (auto simp: fl_def)

lemma fl_0 [simp]: "fl 0 = 0"
  by (simp add: fl_def)

lemma fl_1 [simp]: "fl 1 = 1"
proof -
  have "ilog2 1 = 0" by (rule ilog2_unique) simp_all
  moreover have "round_half_even (1 / 2 powi (- 52)) = 2 ^ 52"
    using round_half_even_of_int[of "2 ^ 52"] by (simp add: power_int_minus)
  ultimately show ?thesis by (simp add: fl_def fl_pos_def power_int_minus)
qed

lemma fl_nonneg: "0 \<le> x \<Longrightarrow> 0 \<le> fl x"
  using fl_mono[of 0 x] by simp

lemma fl_le_1: "x \<le> 1 \<Longrightarrow> fl x \<le> 1"
  using fl_mono[of x 1] by simp

lemma int_truediv_nonneg: "0 \<le> a \<Longrightarrow> 0 < b \<Longrightarrow> 0 \<le> int_truediv a b"
  by (simp add: int_truediv_def fl_nonneg)

lemma int_truediv_le_1: "a \<le> b \<Longrightarrow> 0 < b \<Longrightarrow> int_truediv a b \<le> 1"
  by (simp add: int_truediv_def fl_le_1)

text \<open>A power of two and every rounded number are binary64 numbers already.\<close>

lemma fl_powi [simp]: "fl (2 powi k) = 2 powi k"
proof -
  have log: "ilog2 (2 powi k) = k" by (rule ilog2_unique) (simp_all add: powi_less_rat_iff)
  have "(2::rat) powi k = of_int (2 ^ 52) * 2 powi (k - 52)"
    using powi_add_rat[of 52 "k - 52"] by simp
  then have "(2::rat) powi k / 2 powi (k - 52) = of_int (2 ^ 52)"
    using powi_pos_rat[of "k - 52"] by (simp add: divide_eq_eq)
  then have "fl_pos (2 powi k) = of_int (2 ^ 52) * 2 powi (k - 52)"
    unfolding fl_pos_def log Let_def by (simp only: round_half_even_of_int)
  also have "\<dots> = 2 powi k" using powi_add_rat[of 52 "k - 52"] by simp
  finally show ?thesis using powi_pos_rat[of k] by (simp add: fl_def)
qed

lemma fl_idem_pos:
  assumes x: "0 < x"
  shows "fl (fl x) = fl x"
proof (cases "fl x < 2 powi (ilog2 x + 1)")
  case True
  let ?e = "ilog2 x"
  let ?r = "round_half_even (x / 2 powi (?e - 52))"
  have flx: "fl x = of_int ?r * 2 powi (?e - 52)"
    using x by (simp add: fl_def fl_pos_def Let_def)
  have b: "2 powi ?e \<le> fl x" using fl_pos_bounds(1)[OF x] x by (simp add: fl_def)
  then have pos: "0 < fl x" by (meson less_le_trans powi_pos_rat)
  from True b have "ilog2 (fl x) = ?e" by (intro ilog2_unique)
  then have "fl (fl x) = of_int (round_half_even (fl x / 2 powi (?e - 52))) * 2 powi (?e - 52)"
    using pos by (simp add: fl_def[of "fl x"] fl_pos_def Let_def)
  then show ?thesis using powi_pos_rat[of "?e - 52"] by (simp add: flx)
next
  case False
  then have "fl x = 2 powi (ilog2 x + 1)"
    using fl_pos_bounds(2)[OF x] x by (simp add: fl_def)
  then show ?thesis by simp
qed

lemma fl_idem: "0 \<le> x \<Longrightarrow> fl (fl x) = fl x"
  by (cases "x = 0") (simp_all add: fl_idem_pos)

section \<open>Rounding errors\<close>

lemma round_half_even_error: "\<bar>of_int (round_half_even x) - x\<bar> \<le> 1 / 2"
proof -
  have "of_int \<lfloor>x\<rfloor> \<le> x" "x < of_int \<lfloor>x\<rfloor> + 1" by (simp_all add: floor_less_cancel)
  then show ?thesis unfolding round_half_even_def Let_def by (simp add: abs_le_iff)
qed

text \<open>\<open>y\<close> is \<open>x\<close> after at most \<open>n\<close> roundings of intermediate results.\<close>

definition unit_roundoff :: rat where
  "unit_roundoff = 2 powi (- 53)"

definition near :: "nat \<Rightarrow> rat \<Rightarrow> rat \<Rightarrow> bool" where
  "near n x y \<longleftrightarrow> x * (1 - unit_roundoff) ^ n \<le> y \<and> y \<le> x * (1 + unit_roundoff) ^ n"

lemma unit_roundoff_bounds: "0 < unit_roundoff" "unit_roundoff \<le> 1 / 2"
  by (simp_all add: unit_roundoff_def power_int_minus)

lemma fl_near_once:
  assumes "0 \<le> x"
  shows "x * (1 - unit_roundoff) \<le> fl x" "fl x \<le> x * (1 + unit_roundoff)"
proof -
  have "\<bar>fl x - x\<bar> \<le> x * unit_roundoff"
  proof (cases "x = 0")
    case False
    with assms have x: "0 < x" by simp
    let ?u = "(2 :: rat) powi (ilog2 x - 52)"
    have u: "0 < ?u" by (rule powi_pos_rat)
    have "fl x - x = (of_int (round_half_even (x / ?u)) - x / ?u) * ?u"
      using x u by (simp add: fl_def fl_pos_def Let_def left_diff_distrib)
    then have "\<bar>fl x - x\<bar> = \<bar>of_int (round_half_even (x / ?u)) - x / ?u\<bar> * ?u"
      using u by (simp add: abs_mult)
    also have "\<dots> \<le> 1 / 2 * ?u" using round_half_even_error u by (intro mult_right_mono) auto
    also have "\<dots> = 2 powi (ilog2 x) * unit_roundoff"
      using powi_add_rat[of "ilog2 x" "- 52"] by (simp add: unit_roundoff_def power_int_minus)
    also have "\<dots> \<le> x * unit_roundoff"
      using ilog2_bounds(1)[OF x] unit_roundoff_bounds by (intro mult_right_mono) auto
    finally show ?thesis .
  qed simp
  then show "x * (1 - unit_roundoff) \<le> fl x" "fl x \<le> x * (1 + unit_roundoff)"
    by (auto simp: abs_le_iff algebra_simps)
qed

lemma near_refl: "near 0 x x"
  by (simp add: near_def)

lemma near_nonneg: "near n x y \<Longrightarrow> 0 \<le> x \<Longrightarrow> 0 \<le> y"
proof -
  assume "near n x y" "0 \<le> x"
  moreover from this(2) have "0 \<le> x * (1 - unit_roundoff) ^ n"
    using unit_roundoff_bounds by (intro mult_nonneg_nonneg zero_le_power) auto
  ultimately show ?thesis by (simp add: near_def)
qed

lemma near_fl: 
  assumes "near n x y" "0 \<le> x"
  shows "near (Suc n) x (fl y)"
proof -
  let ?u = unit_roundoff
  have y: "0 \<le> y" by (rule near_nonneg[OF assms])
  have "x * (1 - ?u) ^ n * (1 - ?u) \<le> y * (1 - ?u)" "y * (1 + ?u) \<le> x * (1 + ?u) ^ n * (1 + ?u)"
    using assms(1) unit_roundoff_bounds unfolding near_def by (auto intro!: mult_right_mono)
  with fl_near_once[OF y] show ?thesis by (simp add: near_def mult_ac)
qed

lemma near_weaken: "near n x y \<Longrightarrow> n \<le> m \<Longrightarrow> 0 \<le> x \<Longrightarrow> near m x y"
proof -
  assume n: "near n x y" "n \<le> m" and x: "0 \<le> x"
  have "(1 - unit_roundoff) ^ m \<le> (1 - unit_roundoff) ^ n" "(1 + unit_roundoff) ^ n \<le> (1 + unit_roundoff) ^ m"
    using n(2) unit_roundoff_bounds by (auto intro: power_decreasing power_increasing)
  from this[THEN mult_left_mono, OF x] n(1) show ?thesis by (auto simp: near_def)
qed

lemma near_add: "near n x y \<Longrightarrow> near n a b \<Longrightarrow> near n (x + a) (y + b)"
  by (simp add: near_def distrib_right)

lemma near_mult:
  assumes "near n x y" "near m a b" "0 \<le> x" "0 \<le> a"
  shows "near (n + m) (x * a) (y * b)"
proof -
  let ?u = unit_roundoff
  have pos: "0 \<le> y" "0 \<le> b" using near_nonneg assms by blast+
  have "x * (1 - ?u) ^ n * (a * (1 - ?u) ^ m) \<le> y * b" "y * b \<le> x * (1 + ?u) ^ n * (a * (1 + ?u) ^ m)"
    using assms pos unit_roundoff_bounds unfolding near_def by (auto intro!: mult_mono)
  then show ?thesis by (simp add: near_def power_add mult_ac)
qed

lemma near_min: 
  assumes "near n x y" "0 \<le> x"
  shows "near n (min 1 x) (min 1 y)"
proof -
  let ?u = unit_roundoff
  have "(1 - ?u) ^ n \<le> 1" "1 \<le> (1 + ?u) ^ n"
    using unit_roundoff_bounds by (auto intro: power_le_one one_le_power)
  moreover from this(1) have "x * (1 - ?u) ^ n \<le> x" using assms(2) by (rule mult_left_le)
  moreover have "1 * (1 - ?u) ^ n \<le> x * (1 - ?u) ^ n" if "1 \<le> x"
    using that unit_roundoff_bounds by (intro mult_right_mono) auto
  ultimately show ?thesis using assms unfolding near_def min_def by auto
qed

text \<open>Five roundings lose less than fifty bits.\<close>

lemma near_error:
  assumes "near 5 x y" "0 \<le> x"
  shows "\<bar>y - x\<bar> \<le> x * 2 powi (- 50)"
proof -
  have "(1 + unit_roundoff) ^ 5 - 1 \<le> 2 powi (- 50)" "1 - (1 - unit_roundoff) ^ 5 \<le> 2 powi (- 50)"
    by (simp_all add: unit_roundoff_def power_int_minus field_simps)
  from this[THEN mult_left_mono, OF assms(2)] have "x * ((1 + unit_roundoff) ^ 5 - 1) \<le> x * 2 powi (- 50)" "x * (1 - (1 - unit_roundoff) ^ 5) \<le> x * 2 powi (- 50)"
    by simp_all
  moreover have "y - x \<le> x * ((1 + unit_roundoff) ^ 5 - 1)" "x - y \<le> x * (1 - (1 - unit_roundoff) ^ 5)"
    using assms(1) by (simp_all add: near_def right_diff_distrib)
  ultimately show ?thesis by (simp only: abs_le_iff minus_diff_eq) linarith
qed

end
