(* ===== verification/Gacha_Schemas.thy ===== *)
theory Gacha_Schemas
  imports Gacha_Prelude "HOL-Library.Word"
begin

text \<open>
  The data of \<open>schemas.py\<close>: one record per model, one field per field, in the source's
  order; a short prefix keeps the field names of different models apart. Strings are
  the UTF-8 encodings of the Python strings, UUIDs are 128 bit words, and an aware
  \<open>datetime\<close> is the instant it denotes, in microseconds. \<open>Literal\<close> types become datatypes
  where they name alternatives; rarities stay integers, as the engine computes with them.
\<close>

type_synonym uuid = "128 word"
type_synonym instant = int

text \<open>A \<open>datetime\<close>: \<open>Aware\<close> when its \<open>tzinfo\<close> is set.\<close>

datatype py_datetime = Naive int | Aware instant

datatype gacha_item_type = Character | Weapon
datatype banner_type = Limited_Character | Standard

record gacha_item =
  gi_id :: string
  gi_name :: string
  gi_subtitle :: string
  gi_rarity :: int
  gi_type :: gacha_item_type
  gi_element :: string
  gi_role :: string
  gi_faction :: string
  gi_accent :: string
  gi_quote :: string

record banner_theme =
  bt_primary :: string
  bt_secondary :: string
  bt_glow :: string

record banner =
  b_id :: string
  b_name :: string
  b_short_name :: string
  b_type :: banner_type
  b_description :: string
  b_featured_five_id :: "string option"
  b_featured_four_ids :: "string list"
  b_item_pool :: "string list"
  b_theme :: banner_theme

record pity_state =
  since_five :: int
  since_four :: int
  guaranteed_featured_five :: bool

text \<open>
  \<open>PitySnapshot\<close> extends \<open>PityState\<close> by the version, as the subclass does;
  \<open>pity_state.truncate\<close> is the model of \<open>without_version\<close>.
\<close>

record pity_snapshot = pity_state +
  version :: int

definition without_version :: "pity_snapshot \<Rightarrow> pity_state" where
  "without_version s =
     \<lparr>since_five = since_five s, since_four = since_four s,
      guaranteed_featured_five = guaranteed_featured_five s\<rparr>"

text \<open>\<open>PitySnapshot(**state.model_dump(), version=v)\<close>.\<close>

definition with_version :: "pity_state \<Rightarrow> int \<Rightarrow> pity_snapshot" where
  "with_version p v =
     \<lparr>since_five = since_five p, since_four = since_four p,
      guaranteed_featured_five = guaranteed_featured_five p, version = v\<rparr>"

lemma without_with_version [simp]: "without_version (with_version p v) = p"
  by (simp add: without_version_def with_version_def)

lemma with_without_version [simp]: "with_version (without_version s) (version s) = s"
  by (simp add: without_version_def with_version_def)

lemma version_with_version [simp]:
  "version (with_version p v) = v"
  "since_five (with_version p v) = since_five p"
  "since_four (with_version p v) = since_four p"
  "guaranteed_featured_five (with_version p v) = guaranteed_featured_five p"
  by (simp_all add: with_version_def)

text \<open>The field constraints \<open>ge=0\<close>, which pydantic checks when a model is built.\<close>

definition pity_state_valid :: "pity_state \<Rightarrow> bool" where
  "pity_state_valid p \<longleftrightarrow> 0 \<le> since_five p \<and> 0 \<le> since_four p"

definition pity_snapshot_valid :: "pity_snapshot \<Rightarrow> bool" where
  "pity_snapshot_valid s \<longleftrightarrow> 0 \<le> since_five s \<and> 0 \<le> since_four s \<and> 0 \<le> version s"

record pull_request =
  pq_banner_id :: string
  pq_count :: int
  pq_seed :: "string option"

record pull_record =
  pr_id :: string
  pr_index :: int
  pr_item_id :: string
  pr_item_name :: string
  pr_item_type :: gacha_item_type
  pr_rarity :: int
  pr_banner_id :: string
  pr_banner_name :: string
  pr_pity_at_five :: int
  pr_pity_at_four :: int
  pr_is_featured :: bool

record pull_audit_metadata =
  am_schema_version :: int
  am_release_id :: "string option"
  am_release_number :: "int option"
  am_release_snapshot_sha256 :: "string option"
  am_banner_version_id :: "string option"
  am_banner_config_sha256 :: string
  am_rng_algorithm_version :: string
  am_engine_version :: string
  am_engine_build_sha :: string

record pull_response =
  re_event_id :: string
  re_accepted_at :: "py_datetime option"
  re_pity_group_id :: "string option"
  re_banner_version_id :: "string option"
  re_seed :: string
  re_records :: "pull_record list"
  re_previous_pity :: pity_snapshot
  re_next_pity :: pity_snapshot
  re_state_version :: int
  re_audit :: "pull_audit_metadata option"

record pull_completed_event =
  ev_event_id :: string
  ev_event_type :: string
  ev_accepted_at :: "py_datetime option"
  ev_user_id :: string
  ev_banner_id :: string
  ev_pity_group_id :: "string option"
  ev_banner_version_id :: "string option"
  ev_seed :: string
  ev_records :: "pull_record list"
  ev_previous_pity :: pity_snapshot
  ev_next_pity :: pity_snapshot
  ev_state_version :: int
  ev_audit :: "pull_audit_metadata option"

datatype audit_status = Verified | Mismatch | Unverifiable

text \<open>The status literal that the operation models share.\<close>

datatype pull_operation_status =
  Processing | Event_Pending | Event_Published | Succeeded | Refund_Pending | Failed

record api_error =
  ae_code :: string
  ae_message :: string

end
