(* ===== verification/Py_Text.thy ===== *)
theory Py_Text
  imports Gacha_Schemas
begin

text \<open>
  The string operations of Python the program uses. A Python string is represented by its
  UTF-8 encoding, so equality, concatenation, prefix tests and the order of code points are
  those of the byte lists, \<open>.encode("utf-8")\<close> is the identity, and \<open>len\<close> counts the bytes
  that are not continuation bytes. \<open>str.strip\<close> removes the Unicode white space sequences.
  The second half is the text form of UUIDs: \<open>str(u)\<close> and \<open>UUID(s)\<close> with everything that
  CPython's \<open>int(hex, 16)\<close> accepts in ASCII, and the proof that they are inverse.
\<close>

section \<open>Length, strip, replace, split\<close>

definition py_len :: "string \<Rightarrow> int" where
  "py_len s = int (length (filter (\<lambda>c. \<not> (128 \<le> (of_char c :: nat) \<and> (of_char c :: nat) < 192)) s))"

definition utf8 :: "nat list \<Rightarrow> string" where
  "utf8 bs = map char_of bs"

definition white_space :: "string list" where
  "white_space = map utf8
     ([[b]. b \<leftarrow> [9, 10, 11, 12, 13, 28, 29, 30, 31, 32]] @
      [[194, 133], [194, 160], [225, 154, 128]] @
      [[226, 128, b]. b \<leftarrow> [128..<139]] @
      [[226, 128, 168], [226, 128, 169], [226, 128, 175], [226, 129, 159], [227, 128, 128]])"

lemma find_Some_nonempty:
  "find (\<lambda>t. t \<noteq> [] \<and> take (length t) s = t) ts = Some t \<Longrightarrow> t \<noteq> [] \<and> s \<noteq> []"
  by (induction ts) (auto split: if_splits)

function strip_tokens :: "string list \<Rightarrow> string \<Rightarrow> string" where
  "strip_tokens ts s =
     (case find (\<lambda>t. t \<noteq> [] \<and> take (length t) s = t) ts of
        None \<Rightarrow> s
      | Some t \<Rightarrow> strip_tokens ts (drop (length t) s))"
  by pat_completeness auto
termination
  by (relation "measure (\<lambda>(ts, s). length s)") (auto dest!: find_Some_nonempty)

declare strip_tokens.simps [simp del]

definition py_strip :: "string \<Rightarrow> string" where
  "py_strip s = rev (strip_tokens (map rev white_space) (rev (strip_tokens white_space s)))"

definition py_strip_chars :: "string \<Rightarrow> string \<Rightarrow> string" where
  "py_strip_chars cs s = rev (dropWhile (\<lambda>c. c \<in> set cs) (rev (dropWhile (\<lambda>c. c \<in> set cs) s)))"

definition starts_with :: "string \<Rightarrow> string \<Rightarrow> bool" where
  "starts_with p s \<longleftrightarrow> take (length p) s = p"

text \<open>\<open>s.replace(old, "")\<close> and \<open>s.replace("Z", new)\<close>.\<close>

function py_remove :: "string \<Rightarrow> string \<Rightarrow> string" where
  "py_remove old s =
     (case s of
        [] \<Rightarrow> []
      | c # cs \<Rightarrow>
          (if old \<noteq> [] \<and> starts_with old s then py_remove old (drop (length old) s)
           else c # py_remove old cs))"
  by pat_completeness auto
termination
  by (relation "measure (\<lambda>(old, s). length s)") auto

declare py_remove.simps [simp del]

definition py_replace_char :: "char \<Rightarrow> string \<Rightarrow> string \<Rightarrow> string" where
  "py_replace_char c new s = concat (map (\<lambda>d. if d = c then new else [d]) s)"

text \<open>\<open>s.split(c)\<close> and \<open>s.split(c, 1)\<close>.\<close>

fun py_split :: "char \<Rightarrow> string \<Rightarrow> string list" where
  "py_split c [] = [[]]"
| "py_split c (d # ds) =
     (if d = c then [] # py_split c ds
      else case py_split c ds of [] \<Rightarrow> [[d]] | w # ws \<Rightarrow> (d # w) # ws)"

definition py_split1 :: "char \<Rightarrow> string \<Rightarrow> string list" where
  "py_split1 c s =
     (case dropWhile (\<lambda>d. d \<noteq> c) s of
        [] \<Rightarrow> [s]
      | _ # rest \<Rightarrow> [takeWhile (\<lambda>d. d \<noteq> c) s, rest])"

text \<open>\<open>s.lower()\<close> on ASCII letters; other code points are left alone.\<close>

definition ascii_lower :: "string \<Rightarrow> string" where
  "ascii_lower s =
     map (\<lambda>c. if 65 \<le> (of_char c :: nat) \<and> (of_char c :: nat) \<le> 90 then char_of ((of_char c :: nat) + 32) else c) s"

definition show_digit :: "nat \<Rightarrow> char" where
  "show_digit n = char_of (48 + n)"

fun show_nat :: "nat \<Rightarrow> string" where
  "show_nat n = (if n < 10 then [show_digit n] else show_nat (n div 10) @ [show_digit (n mod 10)])"

declare show_nat.simps [simp del]

definition show_int :: "int \<Rightarrow> string" where
  "show_int i = (if i < 0 then CHR ''-'' # show_nat (nat (- i)) else show_nat (nat i))"

lemma strip_tokens_fix:
  assumes "\<And>t. t \<in> set ts \<Longrightarrow> t \<noteq> [] \<Longrightarrow> hd t \<notin> set s"
  shows "strip_tokens ts s = s"
proof -
  have "find (\<lambda>t. t \<noteq> [] \<and> take (length t) s = t) ts = None"
    unfolding find_None_iff
  proof clarsimp
    fix t assume t: "t \<in> set ts" "t \<noteq> []" "take (length t) s = t"
    then have "hd t \<in> set s" by (metis hd_in_set in_set_takeD)
    with assms t show False by blast
  qed
  then show ?thesis by (subst strip_tokens.simps) simp
qed

lemma py_remove_fix: "old = [] \<or> hd old \<notin> set s \<Longrightarrow> py_remove old s = s"
proof (induction s)
  case Nil
  show ?case by (simp add: py_remove.simps)
next
  case (Cons c cs)
  have "\<not> (old \<noteq> [] \<and> starts_with old (c # cs))"
    using Cons.prems by (cases old) (auto simp: starts_with_def)
  with Cons show ?case by (subst py_remove.simps) auto
qed

lemma py_strip_chars_fix: "set cs \<inter> set s = {} \<Longrightarrow> py_strip_chars cs s = s"
  unfolding py_strip_chars_def by (subst (1 2) dropWhile_id) auto

lemma show_nat_digits: "set (show_nat n) \<subseteq> show_digit ` {0..<10}"
  by (induction n rule: show_nat.induct) (subst show_nat.simps, auto)

lemma show_nat_nonempty [simp]: "show_nat n \<noteq> []"
  by (subst show_nat.simps) simp

lemma show_digit_val: "n < 10 \<Longrightarrow> of_char (show_digit n) - 48 = n"
  by (simp add: show_digit_def)

lemma show_nat_read: "foldl (\<lambda>a c. 10 * a + (of_char c - 48)) 0 (show_nat n) = n"
proof (induction n rule: show_nat.induct)
  case (1 n)
  show ?case
  proof (cases "n < 10")
    case True
    then show ?thesis by (subst show_nat.simps) (simp add: show_digit_val)
  next
    case False
    then show ?thesis using 1 by (subst show_nat.simps) (simp add: show_digit_val)
  qed
qed

lemma show_nat_inj: "show_nat m = show_nat n \<Longrightarrow> m = n"
  by (metis show_nat_read)

text \<open>\<open>int(s)\<close> for ASCII digits, which single underscores may separate.\<close>

definition dec_val :: "char \<Rightarrow> nat option" where
  "dec_val = map_of (zip ''0123456789'' [0, 1, 2, 3, 4, 5, 6, 7, 8, 9])"

fun dec_loop :: "bool \<Rightarrow> nat \<Rightarrow> string \<Rightarrow> nat option" where
  "dec_loop after_digit acc [] = (if after_digit then Some acc else None)"
| "dec_loop after_digit acc (c # cs) =
     (if c = CHR ''_'' then (if after_digit then dec_loop False acc cs else None)
      else case dec_val c of None \<Rightarrow> None | Some d \<Rightarrow> dec_loop True (10 * acc + d) cs)"

definition py_int :: "string \<Rightarrow> int option" where
  "py_int s =
     (case py_strip s of
        [] \<Rightarrow> None
      | c # cs \<Rightarrow>
          (if c = CHR ''-'' then map_option (\<lambda>n. - int n) (dec_loop False 0 cs)
           else if c = CHR ''+'' then map_option int (dec_loop False 0 cs)
           else map_option int (dec_loop False 0 (c # cs))))"

section \<open>Fixed width hexadecimal\<close>

fun hex_digits :: "nat \<Rightarrow> nat \<Rightarrow> nat list" where
  "hex_digits 0 n = []"
| "hex_digits (Suc k) n = hex_digits k (n div 16) @ [n mod 16]"

definition hex_char :: "nat \<Rightarrow> char" where
  "hex_char n = ''0123456789abcdef'' ! n"

definition hex_val :: "char \<Rightarrow> nat option" where
  "hex_val = map_of (zip ''0123456789abcdef'' [0, 1, 2, 3, 4, 5, 6, 7, 8, 9, 10, 11, 12, 13, 14, 15] @
     zip ''ABCDEF'' [10, 11, 12, 13, 14, 15])"

text \<open>The digit loop of \<open>int(s, 16)\<close>: single underscores may separate digits.\<close>

fun hex_loop :: "bool \<Rightarrow> nat \<Rightarrow> string \<Rightarrow> nat option" where
  "hex_loop after_digit acc [] = (if after_digit then Some acc else None)"
| "hex_loop after_digit acc (c # cs) =
     (if c = CHR ''_'' then (if after_digit then hex_loop False acc cs else None)
      else case hex_val c of None \<Rightarrow> None | Some d \<Rightarrow> hex_loop True (16 * acc + d) cs)"

definition hex_prefix :: "string \<Rightarrow> string" where
  "hex_prefix s =
     (case s of
        z # x # rest \<Rightarrow>
          (if z = CHR ''0'' \<and> (x = CHR ''x'' \<or> x = CHR ''X'')
           then (case rest of u # rest' \<Rightarrow> (if u = CHR ''_'' then rest' else rest) | [] \<Rightarrow> rest)
           else s)
      | _ \<Rightarrow> s)"

definition py_int16 :: "string \<Rightarrow> int option" where
  "py_int16 s =
     (case py_strip s of
        [] \<Rightarrow> None
      | c # cs \<Rightarrow>
          (if c = CHR ''-'' then map_option (\<lambda>n. - int n) (hex_loop False 0 (hex_prefix cs))
           else if c = CHR ''+'' then map_option int (hex_loop False 0 (hex_prefix cs))
           else map_option int (hex_loop False 0 (hex_prefix (c # cs)))))"

section \<open>UUIDs as text\<close>

definition uuid_str :: "uuid \<Rightarrow> string" where
  "uuid_str u =
     (let h = map hex_char (hex_digits 32 (unat u)) in
      take 8 h @ ''-'' @ take 4 (drop 8 h) @ ''-'' @ take 4 (drop 12 h) @ ''-'' @
      take 4 (drop 16 h) @ ''-'' @ drop 20 h)"

definition uuid_parse :: "string \<Rightarrow> uuid option" where
  "uuid_parse s =
     (let h = filter (\<lambda>c. c \<noteq> CHR ''-'')
                (py_strip_chars ''{}'' (py_remove ''uuid:'' (py_remove ''urn:'' s))) in
      if py_len h \<noteq> 32 then None
      else case py_int16 h of
             None \<Rightarrow> None
           | Some i \<Rightarrow> (if 0 \<le> i \<and> i < 2 ^ 128 then Some (word_of_int i) else None))"

lemma length_hex_digits [simp]: "length (hex_digits k n) = k"
  by (induction k arbitrary: n) auto

lemma hex_digits_less: "d \<in> set (hex_digits k n) \<Longrightarrow> d < 16"
  by (induction k arbitrary: n) auto

definition hex_text :: "string \<Rightarrow> bool" where
  "hex_text s \<longleftrightarrow> set s \<subseteq> set ''0123456789abcdef''"

lemma hex_cases:
  assumes "(d::nat) < 16"
  obtains "d = 0" | "d = 1" | "d = 2" | "d = 3" | "d = 4" | "d = 5" | "d = 6" | "d = 7"
    | "d = 8" | "d = 9" | "d = 10" | "d = 11" | "d = 12" | "d = 13" | "d = 14" | "d = 15"
proof -
  have "d = 0 \<or> d = 1 \<or> d = 2 \<or> d = 3 \<or> d = 4 \<or> d = 5 \<or> d = 6 \<or> d = 7 \<or>
      d = 8 \<or> d = 9 \<or> d = 10 \<or> d = 11 \<or> d = 12 \<or> d = 13 \<or> d = 14 \<or> d = 15"
    using assms by presburger
  then show ?thesis using that by blast
qed

lemma hex_char_facts:
  assumes "d < 16"
  shows "hex_val (hex_char d) = Some d \<and> hex_char d \<noteq> CHR ''_'' \<and>
    hex_char d \<in> set ''0123456789abcdef''"
  using assms by (rule hex_cases) (simp_all add: hex_char_def hex_val_def)

lemmas hex_val_char = hex_char_facts [THEN conjunct1]
lemmas hex_char_not_underscore = hex_char_facts [THEN conjunct2, THEN conjunct1]
lemmas hex_char_text = hex_char_facts [THEN conjunct2, THEN conjunct2]

lemma hex_loop_append_digits:
  "(\<And>d. d \<in> set ds \<Longrightarrow> d < 16) \<Longrightarrow> ds \<noteq> [] \<or> b \<Longrightarrow>
   hex_loop b acc (map hex_char ds) = Some (foldl (\<lambda>a d. 16 * a + d) acc ds)"
  by (induction ds arbitrary: b acc) (auto simp: hex_val_char hex_char_not_underscore)

lemma foldl_hex_digits: "foldl (\<lambda>a d. 16 * a + d) 0 (hex_digits k n) = n mod 16 ^ k"
proof (induction k arbitrary: n)
  case 0
  then show ?case by simp
next
  case (Suc k)
  have "n mod 16 ^ Suc k = 16 * (n div 16 mod 16 ^ k) + n mod 16"
    by (metis mod_mult2_eq power_Suc)
  with Suc show ?case by simp
qed

lemma hex_text_prefix: "hex_text s \<Longrightarrow> hex_prefix s = s"
  by (auto simp: hex_prefix_def hex_text_def split: list.splits)

lemma hex_text_strip: "hex_text s \<Longrightarrow> py_strip s = s"
proof -
  assume s: "hex_text s"
  have "list_all (\<lambda>t. t \<noteq> [] \<and> hd t \<notin> set ''0123456789abcdef'' \<and>
      last t \<notin> set ''0123456789abcdef'') white_space"
    by (simp add: white_space_def utf8_def upt_rec char_of_eq_iff take_bit_eq_mod)
  then have ws: "\<And>t. t \<in> set white_space \<Longrightarrow> t \<noteq> [] \<and> hd t \<notin> set s \<and> last t \<notin> set s"
    using s by (auto simp: list_all_iff hex_text_def)
  have 1: "strip_tokens white_space s = s"
    by (rule strip_tokens_fix) (use ws in blast)
  have 2: "strip_tokens (map rev white_space) (rev s) = rev s"
    by (rule strip_tokens_fix) (use ws in \<open>auto simp: hd_rev\<close>)
  show ?thesis by (simp add: py_strip_def 1 2)
qed

lemma hex_text_len: "hex_text s \<Longrightarrow> py_len s = int (length s)"
proof -
  assume s: "hex_text s"
  have "list_all (\<lambda>c. \<not> (128 \<le> (of_char c :: nat) \<and> (of_char c :: nat) < 192)) ''0123456789abcdef''"
    by simp
  then have "\<forall>c\<in>set s. \<not> (128 \<le> (of_char c :: nat) \<and> (of_char c :: nat) < 192)"
    using s unfolding list_all_iff hex_text_def by blast
  then show ?thesis by (simp add: py_len_def filter_id_conv)
qed

lemma py_int16_hex:
  assumes s: "s = map hex_char ds" and ds: "\<And>d. d \<in> set ds \<Longrightarrow> d < 16" "ds \<noteq> []"
  shows "py_int16 s = Some (int (foldl (\<lambda>a d. 16 * a + d) 0 ds))"
proof -
  have t: "hex_text s"
    unfolding hex_text_def s using ds(1) hex_char_text by fastforce
  obtain c cs where c: "s = c # cs" using s ds(2) by (cases s) auto
  with t have "c \<noteq> CHR ''-''" "c \<noteq> CHR ''+''" by (auto simp: hex_text_def)
  moreover have "hex_prefix (c # cs) = c # cs"
    using t hex_text_prefix[of "c # cs"] by (simp add: c)
  moreover have "hex_loop False 0 (c # cs) = Some (foldl (\<lambda>a d. 16 * a + d) 0 ds)"
    using hex_loop_append_digits[of ds False 0] ds by (simp only: s[symmetric] c) simp
  moreover have "py_strip s = c # cs" using hex_text_strip[OF t] by (simp add: c)
  ultimately show ?thesis by (simp add: py_int16_def del: hex_loop.simps)
qed

lemma unat_lt2p_128: "unat (u :: uuid) < 2 ^ 128"
proof -
  have "unat u < 2 ^ LENGTH(128)" by (rule unsigned_less)
  then show ?thesis by simp
qed

lemma uuid_chunks_subset:
  "set (take 8 h @ ''-'' @ take 4 (drop 8 h) @ ''-'' @ take 4 (drop 12 h) @ ''-'' @
    take 4 (drop 16 h) @ ''-'' @ drop 20 h) \<subseteq> insert (CHR ''-'') (set h)"
  by (auto dest: in_set_takeD in_set_dropD)

lemma uuid_chunks_filter:
  assumes h: "CHR ''-'' \<notin> set h"
  shows "filter (\<lambda>c. c \<noteq> CHR ''-'') (take 8 h @ ''-'' @ take 4 (drop 8 h) @ ''-'' @
    take 4 (drop 12 h) @ ''-'' @ take 4 (drop 16 h) @ ''-'' @ drop 20 h) = h"
proof -
  have f: "filter (\<lambda>c. c \<noteq> CHR ''-'') (take n (drop m h)) = take n (drop m h)"
    "filter (\<lambda>c. c \<noteq> CHR ''-'') (drop m h) = drop m h"
    "filter (\<lambda>c. c \<noteq> CHR ''-'') (take n h) = take n h" for n m
    using h by (auto simp: filter_id_conv dest: in_set_takeD in_set_dropD)
  have "take 4 (drop 16 h) @ drop 20 h = drop 16 h"
    using append_take_drop_id[of 4 "drop 16 h"] by simp
  moreover have "take 4 (drop 12 h) @ drop 16 h = drop 12 h"
    using append_take_drop_id[of 4 "drop 12 h"] by simp
  moreover have "take 4 (drop 8 h) @ drop 12 h = drop 8 h"
    using append_take_drop_id[of 4 "drop 8 h"] by simp
  ultimately show ?thesis by (simp add: f)
qed

text \<open>Python's guarantee \<open>UUID(str(u)) == u\<close>.\<close>

lemma uuid_parse_str: "uuid_parse (uuid_str u) = Some u"
proof -
  let ?ds = "hex_digits 32 (unat u)"
  let ?h = "map hex_char ?ds"
  have th: "hex_text ?h"
    unfolding hex_text_def using hex_char_text hex_digits_less by fastforce
  have len: "length ?h = 32" by simp
  have sub: "set (uuid_str u) \<subseteq> insert (CHR ''-'') (set ?h)"
    unfolding uuid_str_def Let_def by (rule uuid_chunks_subset)
  then have sub': "set (uuid_str u) \<subseteq> set ''-0123456789abcdef''"
    using th unfolding hex_text_def by auto
  have "CHR ''-'' \<notin> set ?h" using th unfolding hex_text_def by auto
  then have filt: "filter (\<lambda>c. c \<noteq> CHR ''-'') (uuid_str u) = ?h"
    unfolding uuid_str_def Let_def by (rule uuid_chunks_filter)
  have rm: "py_remove ''uuid:'' (py_remove ''urn:'' (uuid_str u)) = uuid_str u"
    using sub' by (subst (1 2) py_remove_fix) auto
  have br: "py_strip_chars ''{}'' (uuid_str u) = uuid_str u"
    using sub' by (intro py_strip_chars_fix) auto
  have lt: "unat u < 2 ^ 128" by (rule unat_lt2p_128)
  have "?ds \<noteq> []" by (metis length_hex_digits list.size(3) zero_neq_numeral)
  then have "py_int16 ?h = Some (int (foldl (\<lambda>a d. 16 * a + d) 0 ?ds))"
    by (intro py_int16_hex) (auto dest: hex_digits_less)
  also have "foldl (\<lambda>a d. 16 * a + d) 0 ?ds = unat u"
    using foldl_hex_digits[of 32 "unat u"] lt by simp
  finally have val: "py_int16 ?h = Some (int (unat u))" .
  show ?thesis
    using val lt unsigned_less[of u, where 'a = int]
    by (simp add: uuid_parse_def rm br filt hex_text_len[OF th] Let_def)
qed

lemma py_len_le: "py_len s \<le> int (length s)"
  by (simp add: py_len_def)

lemma length_py_remove: "length (py_remove old s) \<le> length s"
proof (induction old s rule: py_remove.induct)
  case (1 old s) then show ?case by (subst py_remove.simps) (fastforce split: list.splits)
qed

lemma length_py_strip_chars: "length (py_strip_chars cs s) \<le> length s"
  by (metis py_strip_chars_def length_dropWhile_le length_rev le_trans)

lemma uuid_parse_short [simp]:
  assumes "length s < 32"
  shows "uuid_parse s = None"
proof -
  let ?h = "filter (\<lambda>c. c \<noteq> CHR ''-'') (py_strip_chars ''{}'' (py_remove ''uuid:'' (py_remove ''urn:'' s)))"
  have "length ?h \<le> length s"
    by (meson length_py_remove length_py_strip_chars length_filter_le le_trans)
  with py_len_le[of ?h] assms have "py_len ?h < 32" by linarith
  then show ?thesis by (simp add: uuid_parse_def Let_def)
qed

lemma hex_digits_0: "hex_digits k 0 = replicate k 0"
  by (induction k) (simp_all add: replicate_append_same)

lemma hex_digits_32: "n < 16 \<Longrightarrow> hex_digits 32 n = replicate 31 0 @ [n]"
  using hex_digits.simps(2)[of 31 n] by (simp add: hex_digits_0 del: hex_digits.simps)

lemma uuid_str_two: "uuid_str 2 = ''00000000-0000-0000-0000-000000000002''"
proof -
  have "unat (2 :: uuid) = 2" by simp
  moreover have "hex_char 0 = CHR ''0''" "hex_char 2 = CHR ''2''" by (simp_all add: hex_char_def)
  ultimately have "uuid_str 2 = (let h = replicate 31 (CHR ''0'') @ [CHR ''2''] in
      take 8 h @ ''-'' @ take 4 (drop 8 h) @ ''-'' @ take 4 (drop 12 h) @ ''-'' @ take 4 (drop 16 h) @ ''-'' @ drop 20 h)"
    by (simp add: uuid_str_def hex_digits_32)
  then show ?thesis by (simp add: Let_def numeral_eq_Suc)
qed

lemma uuid_str_inject [simp]: "uuid_str u = uuid_str v \<longleftrightarrow> u = v"
  by (metis uuid_parse_str option.inject)

end
