(* ===== verification/Py_Library.thy ===== *)
theory Py_Library
  imports Py_Float Py_Text "HOL-Library.List_Lexorder" "HOL-Library.Char_ord"
begin

text \<open>
  What the program takes from outside its own sources. JSON values and \<open>json.dumps\<close> are
  defined here. The rest is a parameter: the record \<open>lib\<close> holds the generator behind
  \<open>random.Random\<close> (its state is the type \<open>'g\<close>), \<open>uuid.uuid5\<close>, SHA-256,
  \<open>datetime.fromisoformat\<close>, \<open>json.loads\<close>, the printing of floats, and the truth value that \<open>getattr\<close> gives
  for attributes a pydantic model inherits. Every definition that uses one takes the record as
  its first argument. \<open>rng_lawful\<close> is the documented behaviour of the generator that some
  theorems name as a hypothesis.
\<close>

section \<open>JSON\<close>

datatype json =
    JNull
  | JBool bool
  | JInt int
  | JFloat rat
  | JStr string
  | JArr "json list"
  | JObj "(string \<times> json) list"

text \<open>\<open>value.get(key)\<close> on a decoded object; anything but an object has no keys.\<close>

definition json_get :: "json \<Rightarrow> string \<Rightarrow> json" where
  "json_get j k =
     (case j of JObj kvs \<Rightarrow> (case map_of (rev kvs) k of None \<Rightarrow> JNull | Some v \<Rightarrow> v) | _ \<Rightarrow> JNull)"

text \<open>The truth value of a decoded value.\<close>

definition json_truthy :: "json \<Rightarrow> bool" where
  "json_truthy j =
     (case j of JNull \<Rightarrow> False | JBool b \<Rightarrow> b | JInt i \<Rightarrow> i \<noteq> 0 | JFloat r \<Rightarrow> r \<noteq> 0
      | JStr s \<Rightarrow> s \<noteq> [] | JArr xs \<Rightarrow> xs \<noteq> [] | JObj kvs \<Rightarrow> kvs \<noteq> [])"

text \<open>Code points of a UTF-8 byte list; a byte that starts no sequence stands for itself.\<close>

fun code_points :: "nat list \<Rightarrow> nat list" where
  "code_points (a # b # c # d # rest) =
     (if 240 \<le> a then ((a - 240) * 262144 + (b - 128) * 4096 + (c - 128) * 64 + (d - 128)) # code_points rest
      else if 224 \<le> a then ((a - 224) * 4096 + (b - 128) * 64 + (c - 128)) # code_points (d # rest)
      else if 192 \<le> a then ((a - 192) * 64 + (b - 128)) # code_points (c # d # rest)
      else a # code_points (b # c # d # rest))"
| "code_points (a # b # c # []) =
     (if 224 \<le> a then [(a - 224) * 4096 + (b - 128) * 64 + (c - 128)]
      else if 192 \<le> a then ((a - 192) * 64 + (b - 128)) # code_points [c]
      else a # code_points [b, c])"
| "code_points (a # b # []) =
     (if 192 \<le> a then [(a - 192) * 64 + (b - 128)] else a # code_points [b])"
| "code_points [a] = [a]"
| "code_points [] = []"

definition u_escape :: "nat \<Rightarrow> string" where
  "u_escape n = CHR 0x5C # CHR ''u'' # map hex_char (hex_digits 4 n)"

definition escape_short :: "nat \<Rightarrow> string option" where
  "escape_short n =
     map_of [(34, [CHR 0x5C, CHR 0x22]), (92, [CHR 0x5C, CHR 0x5C]), (10, [CHR 0x5C, CHR ''n'']),
       (13, [CHR 0x5C, CHR ''r'']), (9, [CHR 0x5C, CHR ''t'']), (12, [CHR 0x5C, CHR ''f'']),
       (8, [CHR 0x5C, CHR ''b''])] n"

definition escape_ascii :: "nat \<Rightarrow> string" where
  "escape_ascii n =
     (case escape_short n of
        Some s \<Rightarrow> s
      | None \<Rightarrow>
          (if 32 \<le> n \<and> n \<le> 126 then [char_of n]
           else if n < 65536 then u_escape n
           else u_escape (55296 + (n - 65536) div 1024) @ u_escape (56320 + (n - 65536) mod 1024)))"

definition escape_utf8 :: "char \<Rightarrow> string" where
  "escape_utf8 c =
     (case escape_short (of_char c) of
        Some s \<Rightarrow> s
      | None \<Rightarrow> (if (of_char c :: nat) < 32 then u_escape (of_char c) else [c]))"

definition json_string :: "bool \<Rightarrow> string \<Rightarrow> string" where
  "json_string ensure_ascii s =
     CHR 0x22 # (if ensure_ascii then concat (map escape_ascii (code_points (map of_char s)))
                 else concat (map escape_utf8 s)) @ [CHR 0x22]"

definition comma_sep :: "string list \<Rightarrow> string" where
  "comma_sep ws =
     (case ws of [] \<Rightarrow> [] | w # rest \<Rightarrow> w @ concat (map (\<lambda>v. CHR '','' # v) rest))"

text \<open>\<open>json.dumps(value, ensure_ascii=..., sort_keys=True, separators=(",", ":"))\<close>.\<close>

fun json_dumps :: "(rat \<Rightarrow> string) \<Rightarrow> bool \<Rightarrow> json \<Rightarrow> string" where
  "json_dumps fr ea JNull = ''null''"
| "json_dumps fr ea (JBool b) = (if b then ''true'' else ''false'')"
| "json_dumps fr ea (JInt i) = show_int i"
| "json_dumps fr ea (JFloat r) = fr r"
| "json_dumps fr ea (JStr s) = json_string ea s"
| "json_dumps fr ea (JArr xs) = ''['' @ comma_sep (map (json_dumps fr ea) xs) @ '']''"
| "json_dumps fr ea (JObj kvs) =
     ''{'' @ comma_sep (map (\<lambda>(k, v). json_string ea k @ '':'' @ v)
       (sort_key fst (map (\<lambda>kv. (fst kv, json_dumps fr ea (snd kv))) kvs))) @ ''}''"

definition json_opt :: "('a \<Rightarrow> json) \<Rightarrow> 'a option \<Rightarrow> json" where
  "json_opt f a = (case a of None \<Rightarrow> JNull | Some x \<Rightarrow> f x)"

lemma json_opt_inject:
  "(\<And>x y. f x = f y \<longleftrightarrow> x = y) \<Longrightarrow> (\<And>x. f x \<noteq> JNull) \<Longrightarrow> json_opt f a = json_opt f b \<longleftrightarrow> a = b"
  by (cases a; cases b) (auto simp: json_opt_def dest: sym)

section \<open>Library parameters\<close>

text \<open>The pattern \<open>^[0-9a-f]{64}$\<close> of a SHA-256 in hexadecimal.\<close>

definition sha256_text :: "string \<Rightarrow> bool" where
  "sha256_text s \<longleftrightarrow> length s = 64 \<and> (\<forall>c \<in> set s. c \<in> set ''0123456789abcdef'')"

record 'g lib =
  lib_Random :: "string \<Rightarrow> 'g"
  lib_random :: "'g \<Rightarrow> rat \<times> 'g"
  lib_randrange :: "int \<Rightarrow> 'g \<Rightarrow> int \<times> 'g"
  lib_model_attr :: "string \<Rightarrow> bool"
  lib_uuid5 :: "uuid \<Rightarrow> string \<Rightarrow> uuid"
  lib_sha256 :: "string \<Rightarrow> string"
  lib_fromisoformat :: "string \<Rightarrow> py_datetime option"
  lib_float_repr :: "rat \<Rightarrow> string"
  lib_str :: "json \<Rightarrow> string"
  lib_json_loads :: "string \<Rightarrow> json option"

text \<open>\<open>str(value)\<close> of a JSON value; \<open>lib_str\<close> prints the values that are not strings.\<close>

definition json_str :: "'g lib \<Rightarrow> json \<Rightarrow> string" where
  "json_str L j = (case j of JStr s \<Rightarrow> s | _ \<Rightarrow> lib_str L j)"

text \<open>
  The documentation of the \<open>random\<close> module: \<open>random()\<close> lies in the half open unit interval and
  \<open>randrange(n)\<close> below \<open>n\<close>.
\<close>

definition rng_lawful :: "'g lib \<Rightarrow> bool" where
  "rng_lawful L \<longleftrightarrow>
     (\<forall>g. 0 \<le> fst (lib_random L g) \<and> fst (lib_random L g) < 1) \<and>
     (\<forall>n g. 0 < n \<longrightarrow> 0 \<le> fst (lib_randrange L n g) \<and> fst (lib_randrange L n g) < n)"

lemma rng_lawful_randrange:
  "rng_lawful L \<Longrightarrow> 0 < n \<Longrightarrow> lib_randrange L n g = (i, g') \<Longrightarrow> 0 \<le> i \<and> i < n"
  by (metis rng_lawful_def fst_conv)

lemma rng_lawful_random:
  "rng_lawful L \<Longrightarrow> lib_random L g = (r, g') \<Longrightarrow> 0 \<le> r \<and> r < 1"
  by (metis rng_lawful_def fst_conv)

text \<open>The documentation of \<open>hexdigest\<close>: 64 lower case hexadecimal digits.\<close>

definition sha_lawful :: "'g lib \<Rightarrow> bool" where
  "sha_lawful L \<longleftrightarrow> (\<forall>s. sha256_text (lib_sha256 L s))"

text \<open>
  A concrete library for the worked examples: the generator walks through a list of draws
  that the seed selects, and the hash functions are simple stand-ins.
\<close>

definition sample_lib :: "nat lib" where
  "sample_lib =
     \<lparr>lib_Random = (\<lambda>s. length s),
      lib_random = (\<lambda>g. (of_nat (g mod 7) / 8, g + 3)),
      lib_randrange = (\<lambda>n g. (int g mod n, g + 1)),
      lib_model_attr = (\<lambda>_. False),
      lib_uuid5 = (\<lambda>ns s. ns + of_nat (length s)),
      lib_sha256 = (\<lambda>s. CHR ''0'' # map hex_char (hex_digits 63 (length s))),
      lib_fromisoformat = (\<lambda>s. None),
      lib_float_repr = (\<lambda>_. ''0.5''),
      lib_str = (\<lambda>_. []),
      lib_json_loads = (\<lambda>s. Some (JObj []))\<rparr>"

lemma sample_sha_lawful: "sha_lawful sample_lib"
proof -
  have "hex_char d \<in> set ''0123456789abcdef''" if "d < 16" for d
    unfolding hex_char_def by (rule nth_mem) (use that in simp)
  then have digits: "c \<in> set ''0123456789abcdef''" if "c \<in> set (map hex_char (hex_digits 63 n))" for c n
    using that by (auto simp del: set_simps dest!: hex_digits_less)
  have "c \<in> set ''0123456789abcdef''" if "c \<in> set (lib_sha256 sample_lib s)" for c s
  proof (cases "c = CHR ''0''")
    case False
    with that show ?thesis by (intro digits[of c "length s"]) (simp add: sample_lib_def)
  qed simp
  moreover have "length (lib_sha256 sample_lib s) = 64" for s by (simp add: sample_lib_def)
  ultimately show ?thesis unfolding sha_lawful_def sha256_text_def by blast
qed

lemma sample_lib_lawful: "rng_lawful sample_lib"
proof -
  have "(of_nat (g mod 7) :: rat) / 8 < 1" for g :: nat
  proof -
    have "g mod 7 < 8" by (rule less_trans[of _ 7]) simp_all
    then have "(of_nat (g mod 7) :: rat) < of_nat 8" by (simp only: of_nat_less_iff)
    then show ?thesis by simp
  qed
  then show ?thesis by (simp add: rng_lawful_def sample_lib_def)
qed

end
