(* ===== verification/Catalog_Config.thy ===== *)
theory Catalog_Config
  imports Py_Library
begin

text \<open>
  \<open>catalog_config.py\<close>: the rule models of a banner, the item pools, the schedules and the
  catalog snapshot with its time dependent lookups. \<open>wf_banner_config\<close> is what a config must
  satisfy for the engine to run on it without an exception; the last section shows the lookups
  \<open>banner_config_at\<close> and \<open>banners_at\<close> against their specifications.
\<close>

section \<open>Rules\<close>

record rarity_rate =
  rr_rarity :: int
  rr_base_rate_ppm :: int
  rr_roll_order :: int

definition base_rate :: "rarity_rate \<Rightarrow> rat" where
  "base_rate r = int_truediv (rr_base_rate_ppm r) 1000000"

record featured_rule =
  fr_rarity :: int
  fr_featured_group :: string
  fr_featured_rate_ppm :: int
  fr_guarantee_after_miss :: bool
  fr_miss_sets_guarantee :: bool
  fr_guarantee_state_key :: "string option"

definition featured_rate :: "featured_rule \<Rightarrow> rat" where
  "featured_rate r = int_truediv (fr_featured_rate_ppm r) 1000000"

record pity_rule =
  pu_rarity :: int
  pu_counter_key :: string
  pu_hard_pity :: int
  pu_soft_pity_start :: "int option"
  pu_soft_pity_increment_ppm :: int
  pu_resets_lower_rarity :: bool

definition soft_pity_increment :: "pity_rule \<Rightarrow> rat" where
  "soft_pity_increment r = int_truediv (pu_soft_pity_increment_ppm r) 1000000"

section \<open>Banner configurations and pools\<close>

record banner_config =
  bc_banner :: banner
  bc_pity_group_id :: string
  bc_banner_version_id :: "string option"
  bc_version :: int
  bc_all_items :: "gacha_item list"
  bc_item_by_id :: "(string, gacha_item) dict"
  bc_rarity_rates :: "(int, rarity_rate) dict"
  bc_featured_rules :: "(int, featured_rule) dict"
  bc_pity_rules :: "(int, pity_rule) dict"
  bc_featured_item_ids_by_rarity :: "(int, string list) dict"

definition pool_for_rarity :: "banner_config \<Rightarrow> int \<Rightarrow> string list \<Rightarrow> gacha_item list" where
  "pool_for_rarity c rarity exclude_ids =
     (let pool = List.map_filter
            (\<lambda>item_id. case map_of (bc_item_by_id c) item_id of
               None \<Rightarrow> None
             | Some item \<Rightarrow>
                 (if gi_rarity item = rarity \<and> item_id \<notin> set exclude_ids then Some item else None))
            (b_item_pool (bc_banner c))
      in if pool \<noteq> [] then pool
         else filter (\<lambda>item. gi_rarity item = rarity \<and> gi_id item \<notin> set exclude_ids) (bc_all_items c))"

record scheduled_banner_config =
  sc_config :: banner_config
  sc_effective_from :: "instant option"
  sc_effective_to :: "instant option"

definition in_window :: "scheduled_banner_config \<Rightarrow> instant \<Rightarrow> bool" where
  "in_window s t \<longleftrightarrow>
     (case sc_effective_from s of None \<Rightarrow> True | Some f \<Rightarrow> f \<le> t) \<and>
     (case sc_effective_to s of None \<Rightarrow> True | Some u \<Rightarrow> t < u)"

definition is_effective_at :: "scheduled_banner_config \<Rightarrow> py_datetime \<Rightarrow> bool result" where
  "is_effective_at s effective_at =
     (case effective_at of
        Naive _ \<Rightarrow> Inl (ValueError ''effective_at must include a timezone'')
      | Aware t \<Rightarrow> Inr (in_window s t))"

section \<open>Snapshots\<close>

record catalog_snapshot =
  cs_source :: string
  cs_loaded_at :: instant
  cs_items :: "gacha_item list"
  cs_banners :: "banner list"
  cs_banner_configs_by_id :: "(string, banner_config) dict"
  cs_banner_schedules_by_id :: "(string, scheduled_banner_config list) dict"
  cs_release_id :: "string option"
  cs_release_number :: "int option"
  cs_snapshot_sha256 :: "string option"

fun effective_configs ::
    "scheduled_banner_config list \<Rightarrow> py_datetime \<Rightarrow> banner_config list result" where
  "effective_configs [] effective_at = Inr []"
| "effective_configs (s # ss) effective_at =
     (case is_effective_at s effective_at of
        Inl e \<Rightarrow> Inl e
      | Inr eff \<Rightarrow>
          (case effective_configs ss effective_at of
             Inl e \<Rightarrow> Inl e
           | Inr cs \<Rightarrow> Inr (if eff then sc_config s # cs else cs)))"

definition banner_config_at ::
    "catalog_snapshot \<Rightarrow> string \<Rightarrow> py_datetime \<Rightarrow> banner_config option result" where
  "banner_config_at s banner_id effective_at =
     (case map_of (cs_banner_schedules_by_id s) banner_id of
        None \<Rightarrow> Inr (map_of (cs_banner_configs_by_id s) banner_id)
      | Some schedules \<Rightarrow>
          (if schedules = [] then Inr (map_of (cs_banner_configs_by_id s) banner_id)
           else case effective_configs schedules effective_at of
                  Inl e \<Rightarrow> Inl e
                | Inr effective \<Rightarrow>
                    (if length effective > 1
                     then Inl (ValueError
                            (''banner '' @ banner_id @ '' has overlapping effective schedules''))
                     else Inr (case effective of [] \<Rightarrow> None | c # _ \<Rightarrow> Some c))))"

fun banners_at_loop :: "catalog_snapshot \<Rightarrow> py_datetime \<Rightarrow> string list \<Rightarrow> banner list result" where
  "banners_at_loop s effective_at [] = Inr []"
| "banners_at_loop s effective_at (i # ids) =
     (case banner_config_at s i effective_at of
        Inl e \<Rightarrow> Inl e
      | Inr found \<Rightarrow>
          (case banners_at_loop s effective_at ids of
             Inl e \<Rightarrow> Inl e
           | Inr bs \<Rightarrow> Inr (case found of None \<Rightarrow> bs | Some c \<Rightarrow> bc_banner c # bs)))"

definition snapshot_banner_ids :: "catalog_snapshot \<Rightarrow> string list" where
  "snapshot_banner_ids s =
     sort (remdups (map fst (cs_banner_configs_by_id s) @ map fst (cs_banner_schedules_by_id s)))"

definition banners_at :: "catalog_snapshot \<Rightarrow> py_datetime \<Rightarrow> banner list result" where
  "banners_at s effective_at = banners_at_loop s effective_at (snapshot_banner_ids s)"

section \<open>Well-formed configurations\<close>

text \<open>
  A config the engine can run on: rates and pity rules for the two rolled rarities, a
  consistent item index, and for each rarity a non-empty pool, also after the featured items
  are excluded where a missed feature sends the roll to the rest of the pool.
\<close>

definition wf_items :: "banner_config \<Rightarrow> bool" where
  "wf_items c \<longleftrightarrow>
     (\<forall>(i, item) \<in> set (bc_item_by_id c). gi_id item = i \<and> item \<in> set (bc_all_items c))"

definition wf_featured :: "banner_config \<Rightarrow> bool" where
  "wf_featured c \<longleftrightarrow>
     (\<forall>(r, ids) \<in> set (bc_featured_item_ids_by_rarity c). \<forall>i \<in> set ids.
        (case map_of (bc_item_by_id c) i of None \<Rightarrow> False | Some item \<Rightarrow> gi_rarity item = r))"

definition wf_pools :: "banner_config \<Rightarrow> bool" where
  "wf_pools c \<longleftrightarrow>
     (\<forall>r \<in> {3, 4, 5}. pool_for_rarity c r [] \<noteq> []) \<and>
     (\<forall>r \<in> {3, 4, 5}. case (map_of (bc_featured_item_ids_by_rarity c) r, map_of (bc_featured_rules c) r) of
        (Some ids, Some rule) \<Rightarrow>
          ids \<noteq> [] \<and> fr_miss_sets_guarantee rule \<longrightarrow> pool_for_rarity c r ids \<noteq> []
      | _ \<Rightarrow> True)"

definition wf_rules :: "banner_config \<Rightarrow> bool" where
  "wf_rules c \<longleftrightarrow>
     map_of (bc_rarity_rates c) 5 \<noteq> None \<and> map_of (bc_rarity_rates c) 4 \<noteq> None \<and>
     map_of (bc_pity_rules c) 5 \<noteq> None \<and> map_of (bc_pity_rules c) 4 \<noteq> None"

definition wf_banner_config :: "banner_config \<Rightarrow> bool" where
  "wf_banner_config c \<longleftrightarrow> wf_items c \<and> wf_featured c \<and> wf_pools c \<and> wf_rules c"

lemma wf_rulesE:
  assumes "wf_banner_config c"
  obtains r5 r4 p5 p4 where
    "map_of (bc_rarity_rates c) 5 = Some r5" "map_of (bc_rarity_rates c) 4 = Some r4"
    "map_of (bc_pity_rules c) 5 = Some p5" "map_of (bc_pity_rules c) 4 = Some p4"
  using assms by (auto simp: wf_banner_config_def wf_rules_def)

text \<open>Every item of a pool has the rarity asked for and is a configured, not excluded item.\<close>

lemma pool_for_rarity_member:
  assumes "wf_items c" "item \<in> set (pool_for_rarity c r ex)"
  shows "gi_rarity item = r" "item \<in> set (bc_all_items c)" "gi_id item \<notin> set ex"
proof -
  have "gi_rarity item = r \<and> item \<in> set (bc_all_items c) \<and> gi_id item \<notin> set ex"
  proof (cases "List.map_filter
      (\<lambda>item_id. case map_of (bc_item_by_id c) item_id of None \<Rightarrow> None
        | Some item \<Rightarrow> if gi_rarity item = r \<and> item_id \<notin> set ex then Some item else None)
      (b_item_pool (bc_banner c)) = []")
    case True
    with assms(2) show ?thesis by (simp add: pool_for_rarity_def Let_def)
  next
    case False
    with assms(2) obtain i where i: "map_of (bc_item_by_id c) i = Some item"
      "gi_rarity item = r" "i \<notin> set ex"
      by (auto simp: pool_for_rarity_def Let_def map_filter_def split: option.splits if_splits)
    from i(1) assms(1) have "gi_id item = i" "item \<in> set (bc_all_items c)"
      by (auto simp: wf_items_def dest: map_of_SomeD)
    with i show ?thesis by simp
  qed
  then show "gi_rarity item = r" "item \<in> set (bc_all_items c)" "gi_id item \<notin> set ex" by auto
qed

section \<open>Lookups by time\<close>

lemma effective_configs_aware:
  "effective_configs ss (Aware t) = Inr (map sc_config (filter (\<lambda>s. in_window s t) ss))"
  by (induction ss) (auto simp: is_effective_at_def)

text \<open>
  Two half open windows share an instant if and only if every start lies before every end
  (an absent bound is infinite). The schedules of a banner are disjoint when no two overlap.
\<close>

definition windows_overlap :: "scheduled_banner_config \<Rightarrow> scheduled_banner_config \<Rightarrow> bool" where
  "windows_overlap a b \<longleftrightarrow>
     (\<forall>f \<in> set_option (sc_effective_from a) \<union> set_option (sc_effective_from b).
      \<forall>u \<in> set_option (sc_effective_to a) \<union> set_option (sc_effective_to b). f < u)"

definition disjoint_schedules :: "scheduled_banner_config list \<Rightarrow> bool" where
  "disjoint_schedules ss \<longleftrightarrow> sorted_wrt (\<lambda>a b. \<not> windows_overlap a b) ss"

lemma in_window_overlap: "in_window a t \<Longrightarrow> in_window b t \<Longrightarrow> windows_overlap a b"
  by (force simp: in_window_def windows_overlap_def split: option.splits)

lemma disjoint_schedules_filter:
  "disjoint_schedules ss \<Longrightarrow> length (filter (\<lambda>s. in_window s t) ss) \<le> 1"
proof (induction ss)
  case Nil
  then show ?case by simp
next
  case (Cons s ss)
  show ?case
  proof (cases "in_window s t")
    case True
    with Cons.prems have "filter (\<lambda>s. in_window s t) ss = []"
      using in_window_overlap[OF True] by (auto simp: disjoint_schedules_def filter_empty_conv)
    then show ?thesis by simp
  next
    case False
    with Cons show ?thesis by (simp add: disjoint_schedules_def)
  qed
qed

lemma banner_config_at_disjoint:
  assumes "map_of (cs_banner_schedules_by_id s) i = Some ss" "ss \<noteq> []" "disjoint_schedules ss"
  shows "banner_config_at s i (Aware t) =
    Inr (map_option sc_config (find (\<lambda>x. in_window x t) ss))"
proof -
  let ?f = "filter (\<lambda>x. in_window x t) ss"
  have "length ?f \<le> 1" by (rule disjoint_schedules_filter[OF assms(3)])
  moreover have "find (\<lambda>x. in_window x t) ss = (case ?f of [] \<Rightarrow> None | x # _ \<Rightarrow> Some x)"
    by (induction ss) auto
  ultimately show ?thesis
    using assms(1,2) by (auto simp: banner_config_at_def effective_configs_aware split: list.splits)
qed

lemma banner_config_at_Some_source:
  assumes "banner_config_at s i (Aware t) = Inr (Some c)"
  shows "(\<exists>ss x. map_of (cs_banner_schedules_by_id s) i = Some ss \<and> x \<in> set ss \<and>
            in_window x t \<and> c = sc_config x) \<or>
         map_of (cs_banner_configs_by_id s) i = Some c"
proof (cases "map_of (cs_banner_schedules_by_id s) i")
  case None
  with assms show ?thesis by (simp add: banner_config_at_def)
next
  case (Some ss)
  show ?thesis
  proof (cases "ss = []")
    case True
    with Some assms show ?thesis by (simp add: banner_config_at_def)
  next
    case False
    with Some assms obtain x where "filter (\<lambda>x. in_window x t) ss = [x]" "c = sc_config x"
      by (auto simp: banner_config_at_def effective_configs_aware length_Suc_conv
          split: if_splits list.splits)
    then have "x \<in> set (filter (\<lambda>x. in_window x t) ss)" "c = sc_config x" by simp_all
    with Some show ?thesis by auto
  qed
qed

lemma banners_at_loop_Inr:
  assumes "banners_at_loop s effective_at ids = Inr bs"
  shows "bs = map bc_banner (List.map_filter
    (\<lambda>i. case banner_config_at s i effective_at of Inr r \<Rightarrow> r | Inl _ \<Rightarrow> None) ids)"
  using assms
proof (induction ids arbitrary: bs)
  case Nil
  then show ?case by simp
next
  case (Cons i ids)
  then show ?case
    by (auto split: sum.splits option.splits)
qed

end
