(* ===== verification/Engine.thy ===== *)
theory Engine
  imports Catalog_Config
begin

text \<open>
  \<open>engine.py\<close>: the pull calculation. The random generator is threaded explicitly through
  \<open>roll_rarity\<close>, \<open>roll_item\<close> and \<open>_pick_random\<close>, in the order in which the source draws;
  every missing key and the empty pool are \<open>Inl\<close> results. \<open>pull_step\<close> is the body of the loop
  of \<open>perform_pulls\<close>, \<open>pulls_from\<close> the loop.
\<close>

section \<open>The model\<close>

definition create_initial_pity :: pity_state where
  "create_initial_pity =
     \<lparr>since_five = 0, since_four = 0, guaranteed_featured_five = False\<rparr>"

definition rng_algorithm_version :: string where
  "rng_algorithm_version = ''wuwa-gacha-rng-v1''"

definition pull_record_namespace :: uuid where
  "pull_record_namespace = 0x526b8ca68e434c6ea1a61373927f45f4"

definition get_rarity_rate :: "banner_config \<Rightarrow> int \<Rightarrow> int \<Rightarrow> rat result" where
  "get_rarity_rate c rarity pity_count =
     (case dict_index (bc_rarity_rates c) rarity of
        Inl e \<Rightarrow> Inl e
      | Inr r \<Rightarrow>
          (case map_of (bc_pity_rules c) rarity of
             None \<Rightarrow> Inr (base_rate r)
           | Some rule \<Rightarrow>
               (case pu_soft_pity_start rule of
                  None \<Rightarrow> Inr (base_rate r)
                | Some start \<Rightarrow>
                    (if pity_count < start then Inr (base_rate r)
                     else let soft_step = pity_count - start + 1
                          in Inr (min 1 (float_add (base_rate r)
                               (float_mul (float_of_int soft_step) (soft_pity_increment rule))))))))"

definition roll_rarity :: "'g lib \<Rightarrow> banner_config \<Rightarrow> pity_state \<Rightarrow> 'g \<Rightarrow> (int \<times> 'g) result" where
  "roll_rarity L c pity g =
     (let pity_at_five = since_five pity + 1; pity_at_four = since_four pity + 1 in
      case dict_index (bc_pity_rules c) 5 of Inl e \<Rightarrow> Inl e
      | Inr five_rule \<Rightarrow>
     (case dict_index (bc_pity_rules c) 4 of Inl e \<Rightarrow> Inl e
      | Inr four_rule \<Rightarrow>
        (if pity_at_five \<ge> pu_hard_pity five_rule then Inr (5, g)
         else let (x, g1) = lib_random L g in
         case get_rarity_rate c 5 pity_at_five of Inl e \<Rightarrow> Inl e
         | Inr rate5 \<Rightarrow>
           (if x < rate5 then Inr (5, g1)
            else if pity_at_four \<ge> pu_hard_pity four_rule then Inr (4, g1)
            else let (y, g2) = lib_random L g1 in
            case get_rarity_rate c 4 pity_at_four of Inl e \<Rightarrow> Inl e
            | Inr rate4 \<Rightarrow> (if y < rate4 then Inr (4, g2) else Inr (3, g2))))))"

definition pick_random :: "'g lib \<Rightarrow> gacha_item list \<Rightarrow> 'g \<Rightarrow> (gacha_item \<times> 'g) result" where
  "pick_random L items g =
     (if items = [] then Inl (ValueError ''cannot pick from an empty gacha pool'')
      else let (i, g') = lib_randrange L (int (length items)) g in
           if i < 0 \<or> int (length items) \<le> i then Inl IndexError
           else Inr (items ! nat i, g'))"

text \<open>
  \<open>getattr(pity, state_key, False)\<close> under \<open>bool\<close>: the three fields, else what the attribute
  of that name on a pydantic model is worth.
\<close>

definition pity_attr :: "'g lib \<Rightarrow> pity_state \<Rightarrow> string \<Rightarrow> bool" where
  "pity_attr L pity key =
     (if key = ''since_five'' then since_five pity \<noteq> 0
      else if key = ''since_four'' then since_four pity \<noteq> 0
      else if key = ''guaranteed_featured_five'' then guaranteed_featured_five pity
      else lib_model_attr L key)"

definition has_featured_guarantee :: "'g lib \<Rightarrow> pity_state \<Rightarrow> featured_rule \<Rightarrow> bool" where
  "has_featured_guarantee L pity rule =
     (case fr_guarantee_state_key rule of
        None \<Rightarrow> False
      | Some key \<Rightarrow> key \<noteq> [] \<and> pity_attr L pity key)"

definition roll_item ::
    "'g lib \<Rightarrow> banner_config \<Rightarrow> int \<Rightarrow> pity_state \<Rightarrow> 'g \<Rightarrow> (gacha_item \<times> 'g) result" where
  "roll_item L c rarity pity g =
     (let featured_item_ids =
            (case map_of (bc_featured_item_ids_by_rarity c) rarity of None \<Rightarrow> [] | Some ids \<Rightarrow> ids);
          pick_featured = (\<lambda>g.
            case map_result (dict_index (bc_item_by_id c)) featured_item_ids of
              Inl e \<Rightarrow> Inl e
            | Inr items \<Rightarrow> pick_random L items g)
      in
      case map_of (bc_featured_rules c) rarity of
        None \<Rightarrow> pick_random L (pool_for_rarity c rarity []) g
      | Some rule \<Rightarrow>
          (if featured_item_ids = [] then pick_random L (pool_for_rarity c rarity []) g
           else if has_featured_guarantee L pity rule then pick_featured g
           else let (x, g1) = lib_random L g in
                if x < featured_rate rule then pick_featured g1
                else if fr_miss_sets_guarantee rule
                     then pick_random L (pool_for_rarity c rarity featured_item_ids) g1
                     else pick_random L (pool_for_rarity c rarity []) g1))"

definition is_featured_item :: "banner_config \<Rightarrow> gacha_item \<Rightarrow> bool" where
  "is_featured_item c item =
     (case map_of (bc_featured_item_ids_by_rarity c) (gi_rarity item) of
        None \<Rightarrow> False
      | Some ids \<Rightarrow> gi_id item \<in> set ids)"

definition next_featured_guarantee :: "banner_config \<Rightarrow> int \<Rightarrow> bool \<Rightarrow> bool" where
  "next_featured_guarantee c rarity is_featured =
     (case map_of (bc_featured_rules c) rarity of
        None \<Rightarrow> False
      | Some rule \<Rightarrow> fr_miss_sets_guarantee rule \<and> \<not> is_featured)"

definition record_name :: "string \<Rightarrow> int \<Rightarrow> string \<Rightarrow> string \<Rightarrow> int \<Rightarrow> int \<Rightarrow> string" where
  "record_name seed index banner_id item_id pity_at_five pity_at_four =
     seed @ '':'' @ show_int index @ '':'' @ banner_id @ '':'' @ item_id @ '':'' @
     show_int pity_at_five @ '':'' @ show_int pity_at_four"

definition record_id ::
    "'g lib \<Rightarrow> string \<Rightarrow> int \<Rightarrow> string \<Rightarrow> string \<Rightarrow> int \<Rightarrow> int \<Rightarrow> string" where
  "record_id L seed index banner_id item_id pity_at_five pity_at_four =
     uuid_str (lib_uuid5 L pull_record_namespace
       (record_name seed index banner_id item_id pity_at_five pity_at_four))"

definition pity_after :: "banner_config \<Rightarrow> int \<Rightarrow> bool \<Rightarrow> pity_state \<Rightarrow> pity_state result" where
  "pity_after c rarity is_featured p =
     (if rarity = 5 then
        (case dict_index (bc_pity_rules c) 5 of Inl e \<Rightarrow> Inl e
         | Inr rule \<Rightarrow> Inr (p\<lparr>since_five := 0,
             since_four := (if pu_resets_lower_rarity rule then 0 else since_four p + 1),
             guaranteed_featured_five := next_featured_guarantee c 5 is_featured\<rparr>))
      else if rarity = 4 then Inr (p\<lparr>since_five := since_five p + 1, since_four := 0\<rparr>)
      else Inr (p\<lparr>since_five := since_five p + 1, since_four := since_four p + 1\<rparr>))"

definition pull_step ::
    "'g lib \<Rightarrow> banner_config \<Rightarrow> string \<Rightarrow> int \<Rightarrow> pity_state \<Rightarrow> 'g
     \<Rightarrow> (pull_record \<times> pity_state \<times> 'g) result" where
  "pull_step L c seed index pity g =
     (let pity_at_five = since_five pity + 1; pity_at_four = since_four pity + 1 in
      case roll_rarity L c pity g of Inl e \<Rightarrow> Inl e
      | Inr (rarity, g1) \<Rightarrow>
     (case roll_item L c rarity pity g1 of Inl e \<Rightarrow> Inl e
      | Inr (item, g2) \<Rightarrow>
        (let is_featured = is_featured_item c item in
         case pity_after c rarity is_featured pity of Inl e \<Rightarrow> Inl e
         | Inr pity' \<Rightarrow>
             Inr (\<lparr>pr_id = record_id L seed index (b_id (bc_banner c)) (gi_id item) pity_at_five pity_at_four,
                   pr_index = index,
                   pr_item_id = gi_id item,
                   pr_item_name = gi_name item,
                   pr_item_type = gi_type item,
                   pr_rarity = rarity,
                   pr_banner_id = b_id (bc_banner c),
                   pr_banner_name = b_name (bc_banner c),
                   pr_pity_at_five = pity_at_five,
                   pr_pity_at_four = pity_at_four,
                   pr_is_featured = is_featured\<rparr>, pity', g2))))"

fun pulls_from ::
    "'g lib \<Rightarrow> banner_config \<Rightarrow> string \<Rightarrow> int \<Rightarrow> nat \<Rightarrow> pity_state \<Rightarrow> 'g
     \<Rightarrow> (pull_record list \<times> pity_state \<times> 'g) result" where
  "pulls_from L c seed index 0 pity g = Inr ([], pity, g)"
| "pulls_from L c seed index (Suc n) pity g =
     (case pull_step L c seed index pity g of Inl e \<Rightarrow> Inl e
      | Inr (rec, pity', g') \<Rightarrow>
          (case pulls_from L c seed (index + 1) n pity' g' of Inl e \<Rightarrow> Inl e
           | Inr (recs, pity'', g'') \<Rightarrow> Inr (rec # recs, pity'', g'')))"

definition perform_pulls ::
    "'g lib \<Rightarrow> banner_config \<Rightarrow> int \<Rightarrow> pity_state \<Rightarrow> string \<Rightarrow> (pull_record list \<times> pity_state) result" where
  "perform_pulls L c count pity seed =
     (case pulls_from L c seed 0 (nat count) pity (lib_Random L seed) of
        Inl e \<Rightarrow> Inl e
      | Inr (recs, pity', g) \<Rightarrow> Inr (recs, pity'))"

end
