(* ===== verification/Engine_Props.thy ===== *)
theory Engine_Props
  imports Engine
begin

text \<open>
  What makes the engine correct: the rolled rarity and the pity rules, the picked item, the
  totality of a pull on a well-formed configuration, the refinement of the pity counters to
  the history of the rolled rarities, the guarantees over any sequence of batches of one
  player (\<open>run_batches\<close>), and the probability bounds.
\<close>

section \<open>One roll\<close>

lemma roll_rarity_cases:
  assumes "roll_rarity L c p g = Inr (r, g')"
  obtains p5 p4 where
    "map_of (bc_pity_rules c) 5 = Some p5" "map_of (bc_pity_rules c) 4 = Some p4"
    "r \<in> {3, 4, 5}"
    "pu_hard_pity p5 \<le> since_five p + 1 \<longrightarrow> r = 5"
    "pu_hard_pity p4 \<le> since_four p + 1 \<longrightarrow> r = 4 \<or> r = 5"
  using assms
  by (auto simp: roll_rarity_def Let_def dict_index_Inr_iff split: sum.splits prod.splits if_splits)

lemma roll_rarity_total:
  assumes "wf_banner_config c"
  obtains r g' where "roll_rarity L c p g = Inr (r, g')"
proof -
  from assms obtain r5 r4 p5 p4 where r:
    "map_of (bc_rarity_rates c) 5 = Some r5" "map_of (bc_rarity_rates c) 4 = Some r4"
    "map_of (bc_pity_rules c) 5 = Some p5" "map_of (bc_pity_rules c) 4 = Some p4"
    by (rule wf_rulesE)
  have "\<exists>r g'. roll_rarity L c p g = Inr (r, g')"
    using r by (auto simp: roll_rarity_def get_rarity_rate_def Let_def
        split: prod.splits option.splits)
  then show ?thesis using that by blast
qed

lemma pick_random_Inr:
  "pick_random L items g = Inr (item, g') \<Longrightarrow> item \<in> set items"
  by (auto simp: pick_random_def split: prod.splits if_splits)

lemma pick_random_total:
  assumes "rng_lawful L" "items \<noteq> []"
  shows "\<exists>item g'. pick_random L items g = Inr (item, g')"
proof -
  obtain i g' where i: "lib_randrange L (int (length items)) g = (i, g')" by force
  with assms have "0 \<le> i \<and> i < int (length items)"
    by (intro rng_lawful_randrange) auto
  with i assms(2) show ?thesis by (simp add: pick_random_def)
qed

text \<open>Where the engine looks for an item of a rarity.\<close>

definition featured_ids :: "banner_config \<Rightarrow> int \<Rightarrow> string list" where
  "featured_ids c r =
     (case map_of (bc_featured_item_ids_by_rarity c) r of None \<Rightarrow> [] | Some ids \<Rightarrow> ids)"

lemma featured_ids_item:
  assumes "wf_banner_config c" "i \<in> set (featured_ids c r)"
  obtains item where "map_of (bc_item_by_id c) i = Some item" "gi_rarity item = r"
    "gi_id item = i" "item \<in> set (bc_all_items c)"
proof -
  from assms(2) obtain ids where ids: "map_of (bc_featured_item_ids_by_rarity c) r = Some ids"
    "i \<in> set ids"
    by (cases "map_of (bc_featured_item_ids_by_rarity c) r") (auto simp: featured_ids_def)
  with assms(1) obtain item where item: "map_of (bc_item_by_id c) i = Some item" "gi_rarity item = r"
    by (fastforce simp: wf_banner_config_def wf_featured_def dest!: map_of_SomeD
        split: option.splits)
  with assms(1) have "gi_id item = i" "item \<in> set (bc_all_items c)"
    by (auto simp: wf_banner_config_def wf_items_def dest!: map_of_SomeD)
  with item that show ?thesis by blast
qed

lemma featured_items_total:
  assumes "wf_banner_config c"
  shows "map_result (dict_index (bc_item_by_id c)) (featured_ids c r) =
    Inr (map (\<lambda>i. the (map_of (bc_item_by_id c) i)) (featured_ids c r))"
  by (rule map_result_total) (metis assms dict_index_Some featured_ids_item option.sel)

lemma roll_item_total:
  assumes c: "wf_banner_config c" and L: "rng_lawful L" and r: "r \<in> {3, 4, 5}"
  shows "\<exists>item g'. roll_item L c r p g = Inr (item, g')"
proof -
  have base: "pool_for_rarity c r [] \<noteq> []" using c r by (auto simp: wf_banner_config_def wf_pools_def)
  have off: "pool_for_rarity c r (featured_ids c r) \<noteq> []"
    if "map_of (bc_featured_rules c) r = Some rule" "featured_ids c r \<noteq> []"
      "fr_miss_sets_guarantee rule" for rule
    using c r that unfolding wf_banner_config_def wf_pools_def featured_ids_def
    by (fastforce split: option.splits)
  show ?thesis
    unfolding roll_item_def Let_def featured_ids_def[symmetric] featured_items_total[OF c]
    using pick_random_total[OF L base] off pick_random_total[OF L]
    by (auto split: option.splits prod.splits)
qed

lemma roll_item_sound:
  assumes c: "wf_banner_config c" and roll: "roll_item L c r p g = Inr (item, g')"
  shows "item \<in> set (bc_all_items c)" "gi_rarity item = r"
proof -
  have items: "wf_items c" using c by (simp add: wf_banner_config_def)
  from roll have "(\<exists>i \<in> set (featured_ids c r). map_of (bc_item_by_id c) i = Some item) \<or>
      (\<exists>ex. item \<in> set (pool_for_rarity c r ex))"
    unfolding roll_item_def Let_def featured_ids_def[symmetric]
    by (auto simp: dict_index_Inr_iff dest!: pick_random_Inr map_result_InrD
        split: option.splits prod.splits if_splits sum.splits)
  then have "item \<in> set (bc_all_items c) \<and> gi_rarity item = r"
    using featured_ids_item[OF c] pool_for_rarity_member[OF items] by (metis option.inject)
  then show "item \<in> set (bc_all_items c)" "gi_rarity item = r" by auto
qed

text \<open>With the guarantee flag set, a roll of a rarity with featured items gives one of them.\<close>

lemma roll_item_guaranteed:
  assumes c: "wf_banner_config c" and roll: "roll_item L c r p g = Inr (item, g')"
    and rule: "map_of (bc_featured_rules c) r = Some rule" and ids: "featured_ids c r \<noteq> []"
    and has: "has_featured_guarantee L p rule"
  shows "gi_id item \<in> set (featured_ids c r)"
proof -
  have "roll_item L c r p g =
      pick_random L (map (\<lambda>i. the (map_of (bc_item_by_id c) i)) (featured_ids c r)) g"
    unfolding roll_item_def Let_def featured_ids_def[symmetric] featured_items_total[OF c]
    using rule ids has by simp
  with roll have "item \<in> set (map (\<lambda>i. the (map_of (bc_item_by_id c) i)) (featured_ids c r))"
    by (auto dest: pick_random_Inr)
  then obtain i where i: "i \<in> set (featured_ids c r)" "item = the (map_of (bc_item_by_id c) i)" by auto
  obtain it where "map_of (bc_item_by_id c) i = Some it" "gi_id it = i"
    using c i(1) by (rule featured_ids_item)
  with i show ?thesis by simp
qed

lemma is_featured_item_iff:
  "is_featured_item c item \<longleftrightarrow> gi_id item \<in> set (featured_ids c (gi_rarity item))"
  by (simp add: is_featured_item_def featured_ids_def split: option.splits)

section \<open>One pull\<close>

lemma pull_step_total:
  assumes c: "wf_banner_config c" and L: "rng_lawful L"
  shows "\<exists>rec p' g'. pull_step L c seed i p g = Inr (rec, p', g')"
proof -
  obtain r g1 where r: "roll_rarity L c p g = Inr (r, g1)" by (rule roll_rarity_total[OF c])
  then have r345: "r \<in> {3, 4, 5}" by (rule roll_rarity_cases)
  obtain item g2 where item: "roll_item L c r p g1 = Inr (item, g2)"
    using roll_item_total[OF c L r345] by blast
  obtain p5 where "map_of (bc_pity_rules c) 5 = Some p5" using c by (rule wf_rulesE)
  then show ?thesis
    using r item by (auto simp: pull_step_def Let_def pity_after_def)
qed

text \<open>Everything a pull record says, in terms of the roll.\<close>

lemma pull_step_InrE:
  assumes "pull_step L c seed i p g = Inr (rec, p', g')"
  obtains r item g1 where
    "roll_rarity L c p g = Inr (r, g1)" "roll_item L c r p g1 = Inr (item, g')"
    "pity_after c r (is_featured_item c item) p = Inr p'"
    "pr_rarity rec = r" "pr_item_id rec = gi_id item" "pr_index rec = i"
    "pr_pity_at_five rec = since_five p + 1" "pr_pity_at_four rec = since_four p + 1"
    "pr_is_featured rec = is_featured_item c item"
    "pr_item_name rec = gi_name item" "pr_item_type rec = gi_type item"
    "pr_banner_id rec = b_id (bc_banner c)"
    "pr_id rec = record_id L seed i (b_id (bc_banner c)) (gi_id item) (since_five p + 1) (since_four p + 1)"
  using assms by (auto simp: pull_step_def Let_def split: sum.splits prod.splits)

lemma pulls_from_total:
  assumes "wf_banner_config c" "rng_lawful L"
  shows "\<exists>recs p' g'. pulls_from L c seed i n p g = Inr (recs, p', g') \<and> length recs = n"
proof (induction n arbitrary: i p g)
  case 0
  show ?case by simp
next
  case (Suc n)
  obtain rec p1 g1 where "pull_step L c seed i p g = Inr (rec, p1, g1)"
    using pull_step_total[OF assms] by blast
  with Suc[of "i + 1" p1 g1] show ?case by auto
qed

lemma pulls_from_length:
  "pulls_from L c seed i n p g = Inr (recs, p', g') \<Longrightarrow> length recs = n"
  by (induction n arbitrary: i p g recs) (auto split: sum.splits prod.splits)

lemma pulls_from_append:
  "pulls_from L c seed i (m + n) p g =
     (case pulls_from L c seed i m p g of Inl e \<Rightarrow> Inl e
      | Inr (recs, p1, g1) \<Rightarrow>
          (case pulls_from L c seed (i + int m) n p1 g1 of Inl e \<Rightarrow> Inl e
           | Inr (recs', p2, g2) \<Rightarrow> Inr (recs @ recs', p2, g2)))"
proof (induction m arbitrary: i p g)
  case 0
  show ?case by (auto split: sum.splits)
next
  case (Suc m)
  show ?case by (simp add: Suc add.assoc split: sum.splits prod.splits)
qed

text \<open>What holds of every record of a batch because it holds of one pull.\<close>

lemma pulls_from_nth:
  assumes "pulls_from L c seed i n p g = Inr (recs, p', g')" "k < n"
  shows "\<exists>q g1 q' g2. pull_step L c seed (i + int k) q g1 = Inr (recs ! k, q', g2)"
  using assms
proof (induction n arbitrary: i k p g recs)
  case 0
  then show ?case by simp
next
  case (Suc n)
  from Suc.prems(1) obtain rec p1 g1 recs' where
    1: "pull_step L c seed i p g = Inr (rec, p1, g1)" and
    2: "pulls_from L c seed (i + 1) n p1 g1 = Inr (recs', p', g')" and recs: "recs = rec # recs'"
    by (auto split: sum.splits prod.splits)
  show ?case
  proof (cases k)
    case 0
    with 1 recs show ?thesis by auto
  next
    case (Suc j)
    with Suc.IH[OF 2, of j] Suc.prems(2) recs show ?thesis by (auto simp: algebra_simps)
  qed
qed

lemma perform_pulls_nth:
  assumes "perform_pulls L c count p seed = Inr (recs, p')" "k < length recs"
  shows "\<exists>q g1 q' g2. pull_step L c seed (int k) q g1 = Inr (recs ! k, q', g2)"
proof -
  from assms(1) obtain g where
    run: "pulls_from L c seed 0 (nat count) p (lib_Random L seed) = Inr (recs, p', g)"
    by (auto simp: perform_pulls_def split: sum.splits prod.splits)
  with assms(2) have "k < nat count" by (simp add: pulls_from_length)
  with pulls_from_nth[OF run] show ?thesis by simp
qed

definition record_of_item :: "banner_config \<Rightarrow> pull_record \<Rightarrow> gacha_item \<Rightarrow> bool" where
  "record_of_item c rec item \<longleftrightarrow>
     item \<in> set (bc_all_items c) \<and> pr_item_id rec = gi_id item \<and> pr_item_name rec = gi_name item \<and>
     pr_item_type rec = gi_type item \<and> pr_rarity rec = gi_rarity item \<and>
     (pr_is_featured rec \<longleftrightarrow> gi_id item \<in> set (featured_ids c (gi_rarity item)))"

lemma pull_step_record:
  assumes "wf_banner_config c" "pull_step L c seed i p g = Inr (rec, p', g')"
  shows "\<exists>item. record_of_item c rec item" "pr_rarity rec \<in> {3, 4, 5}" "pr_index rec = i"
    "\<exists>item_id a b. pr_id rec = record_id L seed i (b_id (bc_banner c)) item_id a b"
proof -
  from assms(2) obtain r item g1 where
    f: "roll_rarity L c p g = Inr (r, g1)" "roll_item L c r p g1 = Inr (item, g')"
      "pr_rarity rec = r" "pr_item_id rec = gi_id item" "pr_index rec = i"
      "pr_is_featured rec = is_featured_item c item"
      "pr_item_name rec = gi_name item" "pr_item_type rec = gi_type item"
      "pr_id rec = record_id L seed i (b_id (bc_banner c)) (gi_id item) (since_five p + 1) (since_four p + 1)"
    by (rule pull_step_InrE)
  with roll_item_sound[OF assms(1) f(2)] have "record_of_item c rec item"
    by (simp add: record_of_item_def is_featured_item_iff)
  then show "\<exists>item. record_of_item c rec item" ..
  from f(1) show "pr_rarity rec \<in> {3, 4, 5}" unfolding f(3) by (rule roll_rarity_cases)
  show "pr_index rec = i" by (rule f(5))
  show "\<exists>item_id a b. pr_id rec = record_id L seed i (b_id (bc_banner c)) item_id a b"
    using f(9) by blast
qed

text \<open>The name a record id is hashed from determines the index of the pull in its batch.\<close>

lemma show_nat_inject: "show_nat m @ CHR '':'' # s = show_nat n @ CHR '':'' # t \<Longrightarrow> m = n"
proof -
  assume eq: "show_nat m @ CHR '':'' # s = show_nat n @ CHR '':'' # t"
  have "show_digit d \<noteq> CHR '':''" if "d < 10" for d
  proof
    assume "show_digit d = CHR '':''"
    then have "(of_char (show_digit d) :: nat) = of_char CHR '':''" by (rule arg_cong)
    with that show False by (simp add: show_digit_def)
  qed
  then have no: "CHR '':'' \<notin> set (show_nat k)" for k
    using show_nat_digits[of k] by fastforce
  have "show_nat m = takeWhile (\<lambda>c. c \<noteq> CHR '':'') (show_nat m @ CHR '':'' # s)"
    using no[of m] by (subst takeWhile_append2) auto
  also have "\<dots> = show_nat n"
    using no[of n] unfolding eq by (subst takeWhile_append2) auto
  finally show "m = n" by (rule show_nat_inj)
qed

lemma record_name_index:
  "record_name seed (int i) b x a d = record_name seed (int j) b' x' a' d' \<Longrightarrow> i = j"
  by (auto simp: record_name_def show_int_def dest: show_nat_inject)

section \<open>The specification of a pull sequence\<close>

text \<open>
  What a player can be dealt, with no generator, no pools and no rates: one step relation
  between pity states, labelled by the record. Its guards are the published pity rules; the
  engine is shown to refine it.
\<close>

definition guarantees_five :: "banner_config \<Rightarrow> bool" where
  "guarantees_five c \<longleftrightarrow>
     featured_ids c 5 \<noteq> [] \<and>
     (case map_of (bc_featured_rules c) 5 of
        None \<Rightarrow> False
      | Some rule \<Rightarrow> fr_guarantee_state_key rule = Some ''guaranteed_featured_five'')"

definition record_counters :: "pity_state \<Rightarrow> pull_record \<Rightarrow> bool" where
  "record_counters p rec \<longleftrightarrow>
     pr_pity_at_five rec = since_five p + 1 \<and> pr_pity_at_four rec = since_four p + 1"

inductive pulled :: "banner_config \<Rightarrow> pity_state \<Rightarrow> pull_record \<Rightarrow> pity_state \<Rightarrow> bool" for c where
  pulled_five:
    "\<lbrakk>pr_rarity rec = 5; record_counters p rec;
      map_of (bc_pity_rules c) 5 = Some p5;
      guarantees_five c \<and> guaranteed_featured_five p \<longrightarrow> pr_is_featured rec\<rbrakk> \<Longrightarrow>
     pulled c p rec (p\<lparr>since_five := 0,
       since_four := (if pu_resets_lower_rarity p5 then 0 else since_four p + 1),
       guaranteed_featured_five := next_featured_guarantee c 5 (pr_is_featured rec)\<rparr>)"
| pulled_four:
    "\<lbrakk>pr_rarity rec = 4; record_counters p rec;
      map_of (bc_pity_rules c) 5 = Some p5; since_five p + 1 < pu_hard_pity p5\<rbrakk> \<Longrightarrow>
     pulled c p rec (p\<lparr>since_five := since_five p + 1, since_four := 0\<rparr>)"
| pulled_three:
    "\<lbrakk>pr_rarity rec = 3; record_counters p rec;
      map_of (bc_pity_rules c) 5 = Some p5; since_five p + 1 < pu_hard_pity p5;
      map_of (bc_pity_rules c) 4 = Some p4; since_four p + 1 < pu_hard_pity p4\<rbrakk> \<Longrightarrow>
     pulled c p rec (p\<lparr>since_five := since_five p + 1, since_four := since_four p + 1\<rparr>)"

inductive pull_run :: "banner_config \<Rightarrow> pity_state \<Rightarrow> pull_record list \<Rightarrow> pity_state \<Rightarrow> bool" for c where
  run_nil: "pull_run c p [] p"
| run_cons: "pulled c p rec p1 \<Longrightarrow> pull_run c p1 recs p2 \<Longrightarrow> pull_run c p (rec # recs) p2"

inductive_cases pulledE: "pulled c p rec p'"
inductive_simps pull_run_Nil_iff [simp]: "pull_run c p [] p'"
inductive_simps pull_run_Cons_iff: "pull_run c p (rec # recs) p'"

lemma pull_run_append_iff:
  "pull_run c p (recs @ recs') p' \<longleftrightarrow> (\<exists>q. pull_run c p recs q \<and> pull_run c q recs' p')"
  by (induction recs arbitrary: p) (auto simp: pull_run_Cons_iff)

text \<open>The engine refines the specification, pull by pull, batch by batch, session by session.\<close>

lemma pull_step_pulled:
  assumes c: "wf_banner_config c" and step: "pull_step L c seed i p g = Inr (rec, p', g')"
  shows "pulled c p rec p'"
proof -
  from step obtain r item g1 where
    r: "roll_rarity L c p g = Inr (r, g1)" and item: "roll_item L c r p g1 = Inr (item, g')" and
    after: "pity_after c r (is_featured_item c item) p = Inr p'" and
    rec: "pr_rarity rec = r" "pr_is_featured rec = is_featured_item c item" "record_counters p rec"
    by (auto simp: record_counters_def elim!: pull_step_InrE)
  from r obtain p5 p4 where rules: "map_of (bc_pity_rules c) 5 = Some p5"
      "map_of (bc_pity_rules c) 4 = Some p4" and r345: "r \<in> {3, 4, 5}"
    and five: "pu_hard_pity p5 \<le> since_five p + 1 \<longrightarrow> r = 5"
    and four: "pu_hard_pity p4 \<le> since_four p + 1 \<longrightarrow> r = 4 \<or> r = 5"
    by (rule roll_rarity_cases)
  have guar: "pr_is_featured rec" if "r = 5" "guarantees_five c" "guaranteed_featured_five p"
  proof -
    from that(2) obtain rule where rule: "map_of (bc_featured_rules c) 5 = Some rule"
      "fr_guarantee_state_key rule = Some ''guaranteed_featured_five''" "featured_ids c 5 \<noteq> []"
      by (auto simp: guarantees_five_def split: option.splits)
    then have "has_featured_guarantee L p rule"
      using that(3) by (simp add: has_featured_guarantee_def pity_attr_def)
    then have "gi_id item \<in> set (featured_ids c 5)"
      using roll_item_guaranteed[OF c, of L 5 p g1 item g' rule] item rule that(1) by simp
    moreover have "gi_rarity item = 5" using roll_item_sound(2)[OF c item] that(1) by simp
    ultimately show ?thesis by (simp add: rec is_featured_item_iff)
  qed
  consider (five) "r = 5" | (four) "r = 4" | (three) "r = 3" using r345 by auto
  then show ?thesis
  proof cases
    case five
    with after rules rec have p': "p' = p\<lparr>since_five := 0,
       since_four := (if pu_resets_lower_rarity p5 then 0 else since_four p + 1),
       guaranteed_featured_five := next_featured_guarantee c 5 (pr_is_featured rec)\<rparr>"
      by (simp add: pity_after_def)
    show ?thesis unfolding p'
      by (rule pulled_five) (use five rec rules guar in auto)
  next
    case four
    with after have "p' = p\<lparr>since_five := since_five p + 1, since_four := 0\<rparr>"
      by (simp add: pity_after_def)
    moreover have "since_five p + 1 < pu_hard_pity p5" using five four by force
    ultimately show ?thesis using four rec rules by (auto intro: pulled_four)
  next
    case three
    with after have "p' = p\<lparr>since_five := since_five p + 1, since_four := since_four p + 1\<rparr>"
      by (simp add: pity_after_def)
    moreover have "since_five p + 1 < pu_hard_pity p5" "since_four p + 1 < pu_hard_pity p4"
      using five four three by force+
    ultimately show ?thesis using three rec rules by (auto intro: pulled_three)
  qed
qed

lemma pulls_from_run:
  assumes "wf_banner_config c"
  shows "pulls_from L c seed i n p g = Inr (recs, p', g') \<Longrightarrow> pull_run c p recs p'"
proof (induction n arbitrary: i p g recs)
  case 0
  then show ?case by simp
next
  case (Suc n)
  then show ?case
    by (auto simp: pull_run_Cons_iff split: sum.splits prod.splits)
       (blast intro: pull_step_pulled[OF assms])
qed

lemma perform_pulls_run:
  "wf_banner_config c \<Longrightarrow> perform_pulls L c count p seed = Inr (recs, p') \<Longrightarrow> pull_run c p recs p'"
  by (auto simp: perform_pulls_def dest: pulls_from_run split: sum.splits prod.splits)

text \<open>A session of one player on one banner: batches with their seeds, threading the pity.\<close>

fun run_batches ::
    "'g lib \<Rightarrow> banner_config \<Rightarrow> (int \<times> string) list \<Rightarrow> pity_state \<Rightarrow> (pull_record list \<times> pity_state) result" where
  "run_batches L c [] p = Inr ([], p)"
| "run_batches L c ((count, seed) # batches) p =
     (case perform_pulls L c count p seed of Inl e \<Rightarrow> Inl e
      | Inr (recs, p1) \<Rightarrow>
          (case run_batches L c batches p1 of Inl e \<Rightarrow> Inl e
           | Inr (recs', p2) \<Rightarrow> Inr (recs @ recs', p2)))"

lemma run_batches_run:
  assumes "wf_banner_config c"
  shows "run_batches L c batches p = Inr (recs, p') \<Longrightarrow> pull_run c p recs p'"
proof (induction batches arbitrary: p recs)
  case Nil
  then show ?case by simp
next
  case (Cons b batches)
  then show ?case
    by (cases b) (fastforce simp: pull_run_append_iff dest: perform_pulls_run[OF assms]
        split: sum.splits prod.splits)
qed

lemma perform_pulls_total:
  assumes "wf_banner_config c" "rng_lawful L"
  shows "\<exists>recs p'. perform_pulls L c count p seed = Inr (recs, p') \<and> length recs = nat count"
proof -
  obtain recs p' g where "pulls_from L c seed 0 (nat count) p (lib_Random L seed) = Inr (recs, p', g)"
    "length recs = nat count"
    using pulls_from_total[OF assms] by blast
  then show ?thesis by (simp add: perform_pulls_def)
qed

lemma run_batches_total:
  assumes "wf_banner_config c" "rng_lawful L"
  shows "\<exists>recs p'. run_batches L c batches p = Inr (recs, p') \<and>
    length recs = sum_list (map (nat \<circ> fst) batches)"
proof (induction batches arbitrary: p)
  case Nil
  show ?case by simp
next
  case (Cons b batches)
  obtain count seed where b: "b = (count, seed)" by force
  obtain recs p1 where 1: "perform_pulls L c count p seed = Inr (recs, p1)" "length recs = nat count"
    using perform_pulls_total[OF assms] by blast
  obtain recs' p2 where "run_batches L c batches p1 = Inr (recs', p2)"
    "length recs' = sum_list (map (nat \<circ> fst) batches)"
    using Cons.IH by blast
  with 1 show ?case by (simp add: b comp_def)
qed

section \<open>Counters and history\<close>

text \<open>
  The counters as functions of the rolled rarities alone: the incremental state of the engine
  is this history, whatever the generator did.
\<close>

definition resets_lower :: "banner_config \<Rightarrow> bool" where
  "resets_lower c =
     (case map_of (bc_pity_rules c) 5 of None \<Rightarrow> False | Some rule \<Rightarrow> pu_resets_lower_rarity rule)"

definition five_after :: "int \<Rightarrow> pull_record \<Rightarrow> int" where
  "five_after k rec = (if pr_rarity rec = 5 then 0 else k + 1)"

definition four_after :: "banner_config \<Rightarrow> int \<Rightarrow> pull_record \<Rightarrow> int" where
  "four_after c k rec =
     (if pr_rarity rec = 5 then (if resets_lower c then 0 else k + 1)
      else if pr_rarity rec = 4 then 0 else k + 1)"

definition guarantee_after :: "banner_config \<Rightarrow> bool \<Rightarrow> pull_record \<Rightarrow> bool" where
  "guarantee_after c b rec =
     (if pr_rarity rec = 5 then next_featured_guarantee c 5 (pr_is_featured rec) else b)"

lemma pulled_history:
  assumes "pulled c p rec p'"
  shows "since_five p' = five_after (since_five p) rec"
    "since_four p' = four_after c (since_four p) rec"
    "guaranteed_featured_five p' = guarantee_after c (guaranteed_featured_five p) rec"
    "record_counters p rec" "pr_rarity rec \<in> {3, 4, 5}"
  using assms
  by (cases rule: pulled.cases;
      simp add: five_after_def four_after_def guarantee_after_def resets_lower_def)+

lemma pull_run_history:
  assumes "pull_run c p recs p'"
  shows "since_five p' = foldl five_after (since_five p) recs"
    "since_four p' = foldl (four_after c) (since_four p) recs"
    "guaranteed_featured_five p' = foldl (guarantee_after c) (guaranteed_featured_five p) recs"
  using assms by (induction rule: pull_run.induct) (simp_all add: pulled_history)

text \<open>Every position of a run splits it into a run before, one pull, and a run after.\<close>

lemma pull_run_nth:
  assumes "pull_run c p recs p'" "k < length recs"
  obtains q q' where "pull_run c p (take k recs) q" "pulled c q (recs ! k) q'"
    "pull_run c q' (drop (Suc k) recs) p'"
proof -
  have "pull_run c p (take k recs @ recs ! k # drop (Suc k) recs) p'"
    using assms by (simp add: id_take_nth_drop[symmetric])
  then show ?thesis using that by (auto simp: pull_run_append_iff pull_run_Cons_iff)
qed

lemma pull_run_nonneg:
  assumes "pull_run c p recs p'" "pity_state_valid p"
  shows "pity_state_valid p'"
  using assms
  by (induction rule: pull_run.induct)
     (auto simp: pity_state_valid_def pulled_history(1,2) five_after_def four_after_def)

section \<open>Hard pity\<close>

lemma pulled_hard_five:
  "pulled c p rec p' \<Longrightarrow> map_of (bc_pity_rules c) 5 = Some p5 \<Longrightarrow>
   pr_rarity rec \<noteq> 5 \<Longrightarrow> since_five p' = since_five p + 1 \<and> since_five p' < pu_hard_pity p5"
  by (auto elim!: pulledE)

lemma pulled_hard_four:
  "pulled c p rec p' \<Longrightarrow> map_of (bc_pity_rules c) 4 = Some p4 \<Longrightarrow>
   pr_rarity rec \<notin> {4, 5} \<Longrightarrow> since_four p' = since_four p + 1 \<and> since_four p' < pu_hard_pity p4"
  by (auto elim!: pulledE)

lemma run_without_five:
  assumes "pull_run c p recs p'" "map_of (bc_pity_rules c) 5 = Some p5"
    "\<forall>rec\<in>set recs. pr_rarity rec \<noteq> 5" "recs \<noteq> []"
  shows "since_five p' = since_five p + int (length recs) \<and> since_five p' < pu_hard_pity p5"
  using assms
proof (induction rule: pull_run.induct)
  case (run_cons p rec p1 recs p2)
  have "since_five p1 = since_five p + 1 \<and> since_five p1 < pu_hard_pity p5"
    by (rule pulled_hard_five[OF run_cons.hyps(1)]) (use run_cons.prems in simp_all)
  with run_cons show ?case by (cases "recs = []") (auto dest: pull_run_history)
qed simp

lemma run_without_four:
  assumes "pull_run c p recs p'" "map_of (bc_pity_rules c) 4 = Some p4"
    "\<forall>rec\<in>set recs. pr_rarity rec \<notin> {4, 5}" "recs \<noteq> []"
  shows "since_four p' = since_four p + int (length recs) \<and> since_four p' < pu_hard_pity p4"
  using assms
proof (induction rule: pull_run.induct)
  case (run_cons p rec p1 recs p2)
  have "since_four p1 = since_four p + 1 \<and> since_four p1 < pu_hard_pity p4"
    by (rule pulled_hard_four[OF run_cons.hyps(1)]) (use run_cons.prems in simp_all)
  with run_cons show ?case by (cases "recs = []") (auto dest: pull_run_history)
qed simp

lemma pull_run_window:
  assumes "pull_run c p recs p'" "pity_state_valid p" "i + n \<le> length recs"
  obtains q q' where "pull_run c q (take n (drop i recs)) q'" "pity_state_valid q"
proof -
  have "recs = take i recs @ take n (drop i recs) @ drop n (drop i recs)"
    by (metis append_take_drop_id)
  with assms(1) obtain q q' where "pull_run c p (take i recs) q" "pull_run c q (take n (drop i recs)) q'"
    by (metis pull_run_append_iff)
  then show ?thesis using that assms(2) pull_run_nonneg by blast
qed

section \<open>The featured guarantee\<close>

definition misses_guarantee :: "banner_config \<Rightarrow> bool" where
  "misses_guarantee c =
     (case map_of (bc_featured_rules c) 5 of None \<Rightarrow> False | Some rule \<Rightarrow> fr_miss_sets_guarantee rule)"

lemma run_keeps_guarantee:
  "pull_run c p recs p' \<Longrightarrow> \<forall>rec\<in>set recs. pr_rarity rec \<noteq> 5 \<Longrightarrow>
   guaranteed_featured_five p' = guaranteed_featured_five p"
  by (induction rule: pull_run.induct) (auto simp: pulled_history(3) guarantee_after_def)

lemma run_second_five_featured:
  assumes run: "pull_run c p (rec # mid @ rec' # rest) p'"
    and five: "pr_rarity rec = 5" "pr_rarity rec' = 5" "\<forall>r\<in>set mid. pr_rarity r \<noteq> 5"
    and c: "guarantees_five c" "misses_guarantee c" and miss: "\<not> pr_is_featured rec"
  shows "pr_is_featured rec'"
proof -
  from run obtain p1 q q' where 1: "pulled c p rec p1" and 2: "pull_run c p1 mid q"
    and 3: "pulled c q rec' q'"
    by (auto simp: pull_run_Cons_iff pull_run_append_iff)
  from 1 five(1) miss c(2) have "guaranteed_featured_five p1"
    by (auto simp: pulled_history(3) guarantee_after_def next_featured_guarantee_def
        misses_guarantee_def split: option.splits)
  with 2 five(3) have "guaranteed_featured_five q" by (simp add: run_keeps_guarantee)
  with 3 five(2) c(1) show ?thesis by (auto elim!: pulledE)
qed

section \<open>Probabilities\<close>

definition rates_valid :: "banner_config \<Rightarrow> int \<Rightarrow> bool" where
  "rates_valid c rarity \<longleftrightarrow>
     (case map_of (bc_rarity_rates c) rarity of
        None \<Rightarrow> False
      | Some r \<Rightarrow> 0 \<le> rr_base_rate_ppm r \<and> rr_base_rate_ppm r \<le> 1000000) \<and>
     (case map_of (bc_pity_rules c) rarity of
        None \<Rightarrow> True
      | Some rule \<Rightarrow> 0 \<le> pu_soft_pity_increment_ppm rule)"

lemma base_rate_bounds:
  "0 \<le> rr_base_rate_ppm r \<Longrightarrow> rr_base_rate_ppm r \<le> 1000000 \<Longrightarrow> 0 \<le> base_rate r \<and> base_rate r \<le> 1"
  by (simp add: base_rate_def int_truediv_nonneg int_truediv_le_1)

definition soft_rate :: "rarity_rate \<Rightarrow> pity_rule \<Rightarrow> int \<Rightarrow> rat" where
  "soft_rate r rule step =
     min 1 (float_add (base_rate r) (float_mul (float_of_int step) (soft_pity_increment rule)))"

lemma soft_pity_increment_nonneg:
  "0 \<le> pu_soft_pity_increment_ppm rule \<Longrightarrow> 0 \<le> soft_pity_increment rule"
  by (simp add: soft_pity_increment_def int_truediv_nonneg)

lemma soft_rate_mono:
  assumes "0 \<le> pu_soft_pity_increment_ppm rule" "m \<le> n"
  shows "soft_rate r rule m \<le> soft_rate r rule n"
proof -
  have "float_of_int m \<le> float_of_int n"
    unfolding float_of_int_def by (rule fl_mono) (use assms(2) in simp)
  then have "float_mul (float_of_int m) (soft_pity_increment rule)
      \<le> float_mul (float_of_int n) (soft_pity_increment rule)"
    unfolding float_mul_def
    by (intro fl_mono mult_right_mono soft_pity_increment_nonneg[OF assms(1)])
  then show ?thesis
    unfolding soft_rate_def float_add_def by (intro min.mono order.refl fl_mono add_left_mono)
qed

text \<open>
  Adding a non-negative increment to a rounded rate never falls below the rate: both round to
  the same binary64 grid.
\<close>

lemma soft_rate_ge_base:
  assumes r: "0 \<le> rr_base_rate_ppm r" "rr_base_rate_ppm r \<le> 1000000"
    and rule: "0 \<le> pu_soft_pity_increment_ppm rule" and step: "0 \<le> n"
  shows "base_rate r \<le> soft_rate r rule n"
proof -
  have "0 \<le> float_mul (float_of_int n) (soft_pity_increment rule)"
    unfolding float_mul_def float_of_int_def
    using step rule by (intro fl_nonneg mult_nonneg_nonneg soft_pity_increment_nonneg) auto
  then have "fl (base_rate r) \<le>
      float_add (base_rate r) (float_mul (float_of_int n) (soft_pity_increment rule))"
    unfolding float_add_def by (intro fl_mono) simp
  moreover have "fl (base_rate r) = base_rate r"
    using r by (simp add: base_rate_def int_truediv_def fl_idem)
  ultimately show ?thesis using base_rate_bounds[OF r] by (simp add: soft_rate_def)
qed

lemma get_rarity_rate_cases:
  assumes "map_of (bc_rarity_rates c) rarity = Some r"
  shows "get_rarity_rate c rarity n =
    Inr (case map_of (bc_pity_rules c) rarity of None \<Rightarrow> base_rate r
      | Some rule \<Rightarrow> (case pu_soft_pity_start rule of None \<Rightarrow> base_rate r
         | Some start \<Rightarrow> if n < start then base_rate r else soft_rate r rule (n - start + 1)))"
  using assms by (simp add: get_rarity_rate_def soft_rate_def split: option.splits)

end
