(* ===== verification/Static_Catalog.thy ===== *)
theory Static_Catalog
  imports Catalog_Config
begin

text \<open>
  \<open>catalog.py\<close> and the static half of \<open>catalog_config.py\<close>: the built-in items and banners, and
  \<open>_static_banner_config\<close> with its default rates and pity rules. Chinese texts are given by
  their UTF-8 bytes. The lemmas show that both static configs are well-formed, so the engine is
  total on them, and that their rates add up to one million parts.
\<close>

section \<open>The catalog\<close>

definition gacha_items :: "gacha_item list" where
  "gacha_items =
    [\<lparr>gi_id = ''char-luoxian'',
      gi_name = utf8 [230, 180, 155, 229, 188, 166],
      gi_subtitle = utf8 [229, 189, 146, 230, 189, 174, 231, 154, 132, 232, 167, 130, 230, 181, 139, 232,
       128, 133],
      gi_rarity = 5,
      gi_type = Character,
      gi_element = utf8 [229, 175, 188, 231, 148, 181],
      gi_role = utf8 [228, 184, 187, 32, 67],
      gi_faction = utf8 [231, 153, 189, 229, 161, 148, 230, 161, 163, 230, 161, 136, 229, 177, 128],
      gi_accent = ''#f6c453'',
      gi_quote = utf8 [232, 174, 169, 233, 163, 142, 230, 154, 180, 229, 189, 146, 230, 161, 163, 239,
       188, 140, 232, 174, 169, 230, 152, 159, 230, 181, 183, 229, 155, 158, 231, 173,
       148, 227, 128, 130]\<rparr>,
     \<lparr>gi_id = ''char-xingjian'',
      gi_name = utf8 [230, 152, 159, 232, 167, 129, 233, 129, 165],
      gi_subtitle = utf8 [229, 164, 156, 232, 136, 170, 229, 136, 151, 232, 189, 166, 233, 149, 191],
      gi_rarity = 5,
      gi_type = Character,
      gi_element = utf8 [229, 134, 183, 229, 135, 157],
      gi_role = utf8 [233, 128, 159, 229, 136, 135],
      gi_faction = utf8 [231, 142, 175, 229, 159, 142, 233, 147, 129, 233, 129, 147],
      gi_accent = ''#79d7ff'',
      gi_quote = utf8 [228, 184, 139, 228, 184, 128, 231, 171, 153, 239, 188, 140, 232, 182, 138, 232,
       191, 135, 228, 187, 138, 230, 153, 154, 227, 128, 130]\<rparr>,
     \<lparr>gi_id = ''weapon-aurora'',
      gi_name = utf8 [230, 158, 129, 230, 152, 188, 229, 155, 158, 229, 163, 176],
      gi_subtitle = utf8 [228, 186, 148, 230, 152, 159, 233, 159, 179, 230, 132, 159, 228, 187, 170],
      gi_rarity = 5,
      gi_type = Weapon,
      gi_element = utf8 [229, 133, 177, 233, 184, 163],
      gi_role = utf8 [229, 162, 158, 229, 185, 133],
      gi_faction = utf8 [229, 143, 164, 231, 137, 169],
      gi_accent = ''#f8e38f'',
      gi_quote = utf8 [233, 187, 142, 230, 152, 142, 232, 162, 171, 229, 176, 129, 229, 173, 152, 229,
       156, 168, 230, 153, 182, 228, 189, 147, 233, 135, 140, 227, 128, 130]\<rparr>,
     \<lparr>gi_id = ''char-qinglan'',
      gi_name = utf8 [233, 157, 146, 229, 178, 154],
      gi_subtitle = utf8 [228, 186, 145, 231, 171, 175, 229, 183, 161, 231, 164, 188, 228, 186, 186],
      gi_rarity = 4,
      gi_type = Character,
      gi_element = utf8 [230, 176, 148, 229, 138, 168],
      gi_role = utf8 [232, 190, 133, 229, 138, 169],
      gi_faction = utf8 [228, 185, 157, 230, 158, 157, 228, 188, 154],
      gi_accent = ''#64dca8'',
      gi_quote = utf8 [233, 161, 186, 233, 163, 142, 230, 151, 182, 239, 188, 140, 231, 173, 148, 230,
       161, 136, 228, 188, 154, 232, 135, 170, 229, 183, 177, 232, 181, 176, 232, 191,
       145, 227, 128, 130]\<rparr>,
     \<lparr>gi_id = ''char-miyue'',
      gi_name = utf8 [229, 188, 165, 230, 156, 136],
      gi_subtitle = utf8 [230, 156, 136, 231, 155, 184, 228, 191, 174, 229, 164, 141, 229, 184, 136],
      gi_rarity = 4,
      gi_type = Character,
      gi_element = utf8 [232, 161, 141, 229, 176, 132],
      gi_role = utf8 [230, 178, 187, 231, 150, 151],
      gi_faction = utf8 [230, 156, 136, 229, 143, 176, 229, 140, 187, 233, 153, 162],
      gi_accent = ''#d8b4fe'',
      gi_quote = utf8 [229, 136, 171, 230, 128, 149, 239, 188, 140, 230, 136, 145, 228, 188, 154, 230,
       138, 138, 232, 163, 130, 231, 188, 157, 232, 161, 165, 229, 165, 189, 227, 128,
       130]\<rparr>,
     \<lparr>gi_id = ''weapon-bell'',
      gi_name = utf8 [231, 153, 189, 230, 152, 188, 233, 147, 131],
      gi_subtitle = utf8 [229, 155, 155, 230, 152, 159, 233, 159, 179, 230, 132, 159, 228, 187, 170],
      gi_rarity = 4,
      gi_type = Weapon,
      gi_element = utf8 [229, 133, 177, 233, 184, 163],
      gi_role = utf8 [229, 133, 133, 232, 131, 189],
      gi_faction = utf8 [229, 183, 165, 229, 157, 138],
      gi_accent = ''#f6d58f'',
      gi_quote = utf8 [233, 147, 131, 229, 163, 176, 232, 189, 187, 229, 147, 141, 239, 188, 140, 228,
       188, 164, 229, 143, 163, 228, 190, 191, 231, 157, 161, 229, 142, 187, 227, 128,
       130]\<rparr>,
     \<lparr>gi_id = ''weapon-cinder'',
      gi_name = utf8 [228, 189, 153, 230, 184, 169],
      gi_subtitle = utf8 [228, 184, 137, 230, 152, 159, 232, 191, 133, 229, 136, 131],
      gi_rarity = 3,
      gi_type = Weapon,
      gi_element = utf8 [230, 150, 169, 229, 135, 187],
      gi_role = utf8 [232, 174, 173, 231, 187, 131],
      gi_faction = utf8 [229, 136, 182, 229, 188, 143],
      gi_accent = ''#9aa3b2'',
      gi_quote = utf8 [228, 187, 141, 230, 156, 137, 228, 184, 128, 231, 130, 185, 231, 131, 173, 229,
       186, 166, 227, 128, 130]\<rparr>,
     \<lparr>gi_id = ''weapon-tide'',
      gi_name = utf8 [230, 189, 174, 230, 177, 144, 231, 172, 148, 232, 174, 176],
      gi_subtitle = utf8 [228, 184, 137, 230, 152, 159, 233, 159, 179, 230, 132, 159, 228, 187, 170],
      gi_rarity = 3,
      gi_type = Weapon,
      gi_element = utf8 [229, 133, 177, 233, 184, 163],
      gi_role = utf8 [232, 174, 173, 231, 187, 131],
      gi_faction = utf8 [229, 136, 182, 229, 188, 143],
      gi_accent = ''#7fb5cf'',
      gi_quote = utf8 [229, 136, 157, 229, 173, 166, 232, 128, 133, 231, 154, 132, 231, 172, 172, 228,
       184, 128, 233, 161, 181, 227, 128, 130]\<rparr>]"

definition limited_banner :: banner where
  "limited_banner =
     \<lparr>b_id = ''limited-character-001'',
      b_name = utf8 [229, 189, 146, 230, 189, 174, 232, 167, 130, 230, 181, 139],
      b_short_name = utf8 [233, 153, 144, 229, 174, 154, 232, 167, 146, 232, 137, 178],
      b_type = Limited_Character,
      b_description = utf8 [230, 180, 155, 229, 188, 166, 230, 166, 130, 231, 142, 135, 230, 143, 144, 229,
       141, 135, 227, 128, 130, 228, 186, 148, 230, 152, 159, 232, 167, 146, 232, 137,
       178, 32, 53, 48, 37, 32, 229, 145, 189, 228, 184, 173, 32, 85, 80, 239, 188, 140,
       230, 156, 170, 229, 145, 189, 228, 184, 173, 229, 144, 142, 228, 184, 139, 230,
       172, 161, 228, 186, 148, 230, 152, 159, 229, 191, 133, 229, 174, 154, 228, 184,
       186, 32, 85, 80, 227, 128, 130],
      b_featured_five_id = Some ''char-luoxian'',
      b_featured_four_ids =
         [''char-qinglan'', ''char-miyue'', ''weapon-bell''],
      b_item_pool =
         [''char-luoxian'', ''char-xingjian'', ''weapon-aurora'', ''char-qinglan'',
         ''char-miyue'', ''weapon-bell'', ''weapon-cinder'', ''weapon-tide''],
      b_theme =
         \<lparr>bt_primary = ''#f6c453'', bt_secondary = ''#18c7a3'', bt_glow = ''rgba(246, 196, 83, 0.28)''\<rparr>\<rparr>"

definition standard_banner :: banner where
  "standard_banner =
     \<lparr>b_id = ''standard-001'',
      b_name = utf8 [231, 190, 164, 230, 152, 159, 229, 155, 158, 229, 163, 176],
      b_short_name = utf8 [229, 184, 184, 233, 169, 187, 229, 148, 164, 229, 143, 150],
      b_type = Standard,
      b_description = utf8 [229, 184, 184, 233, 169, 187, 232, 167, 146, 232, 137, 178, 228, 184, 142, 230,
       173, 166, 229, 153, 168, 230, 183, 183, 229, 144, 136, 230, 177, 160, 227, 128,
       130, 228, 186, 148, 230, 152, 159, 230, 151, 160, 32, 85, 80, 32, 230, 156, 186,
       229, 136, 182, 239, 188, 140, 233, 128, 130, 229, 144, 136, 230, 181, 139, 232,
       175, 149, 229, 174, 140, 230, 149, 180, 230, 166, 130, 231, 142, 135, 227, 128,
       130],
      b_featured_five_id = None,
      b_featured_four_ids =
         [''char-qinglan'', ''char-miyue'', ''weapon-bell''],
      b_item_pool =
         [''char-xingjian'', ''weapon-aurora'', ''char-qinglan'', ''char-miyue'',
         ''weapon-bell'', ''weapon-cinder'', ''weapon-tide''],
      b_theme =
         \<lparr>bt_primary = ''#79d7ff'', bt_secondary = ''#ff8f70'', bt_glow = ''rgba(121, 215, 255, 0.22)''\<rparr>\<rparr>"

definition banners :: "banner list" where
  "banners = [limited_banner, standard_banner]"

definition static_item_by_id :: "(string, gacha_item) dict" where
  "static_item_by_id = dict_comp (map (\<lambda>item. (gi_id item, item)) gacha_items)"

definition banner_by_id :: "(string, banner) dict" where
  "banner_by_id = dict_comp (map (\<lambda>b. (b_id b, b)) banners)"

section \<open>The default rules\<close>

definition default_five_star_base_rate_ppm :: int where
  "default_five_star_base_rate_ppm = 6000"

definition default_four_star_base_rate_ppm :: int where
  "default_four_star_base_rate_ppm = 51000"

definition default_five_star_hard_pity :: int where
  "default_five_star_hard_pity = 80"

definition default_four_star_hard_pity :: int where
  "default_four_star_hard_pity = 10"

definition default_soft_pity_start :: int where
  "default_soft_pity_start = 66"

definition default_soft_pity_increment_ppm :: int where
  "default_soft_pity_increment_ppm = 60000"

lemmas default_simps =
  default_five_star_base_rate_ppm_def default_four_star_base_rate_ppm_def
  default_five_star_hard_pity_def default_four_star_hard_pity_def
  default_soft_pity_start_def default_soft_pity_increment_ppm_def

definition static_banner_config ::
    "banner \<Rightarrow> gacha_item list \<Rightarrow> (string, gacha_item) dict \<Rightarrow> banner_config" where
  "static_banner_config b items item_by_id =
     (let five_featured = truthy_str (b_featured_five_id b);
          four_featured = b_featured_four_ids b \<noteq> [];
          featured_by_rarity =
            (if five_featured then [(5, [the (b_featured_five_id b)])] else []) @
            (if four_featured then [(4, b_featured_four_ids b)] else []);
          featured_rules =
            (if five_featured then
               [(5, \<lparr>fr_rarity = 5, fr_featured_group = ''five_up'', fr_featured_rate_ppm = 500000,
                     fr_guarantee_after_miss = True, fr_miss_sets_guarantee = True,
                     fr_guarantee_state_key = Some ''guaranteed_featured_five''\<rparr>)] else []) @
            (if four_featured then
               [(4, \<lparr>fr_rarity = 4, fr_featured_group = ''four_up'', fr_featured_rate_ppm = 600000,
                     fr_guarantee_after_miss = False, fr_miss_sets_guarantee = False,
                     fr_guarantee_state_key = None\<rparr>)] else [])
      in \<lparr>bc_banner = b,
          bc_pity_group_id = b_id b,
          bc_banner_version_id = None,
          bc_version = 1,
          bc_all_items = items,
          bc_item_by_id = item_by_id,
          bc_rarity_rates =
            [(5, \<lparr>rr_rarity = 5, rr_base_rate_ppm = default_five_star_base_rate_ppm, rr_roll_order = 1\<rparr>),
             (4, \<lparr>rr_rarity = 4, rr_base_rate_ppm = default_four_star_base_rate_ppm, rr_roll_order = 2\<rparr>),
             (3, \<lparr>rr_rarity = 3,
                  rr_base_rate_ppm = 1000000 - default_five_star_base_rate_ppm
                    - default_four_star_base_rate_ppm,
                  rr_roll_order = 3\<rparr>)],
          bc_featured_rules = featured_rules,
          bc_pity_rules =
            [(5, \<lparr>pu_rarity = 5, pu_counter_key = ''five_star'',
                  pu_hard_pity = default_five_star_hard_pity,
                  pu_soft_pity_start = Some default_soft_pity_start,
                  pu_soft_pity_increment_ppm = default_soft_pity_increment_ppm,
                  pu_resets_lower_rarity = True\<rparr>),
             (4, \<lparr>pu_rarity = 4, pu_counter_key = ''four_star'',
                  pu_hard_pity = default_four_star_hard_pity,
                  pu_soft_pity_start = None, pu_soft_pity_increment_ppm = 0,
                  pu_resets_lower_rarity = False\<rparr>)],
          bc_featured_item_ids_by_rarity = featured_by_rarity\<rparr>)"

text \<open>The clock is an argument: \<open>datetime.now(timezone.utc)\<close>.\<close>

definition static_catalog_snapshot :: "instant \<Rightarrow> catalog_snapshot" where
  "static_catalog_snapshot now =
     (let items = gacha_items;
          item_by_id = dict_comp (map (\<lambda>item. (gi_id item, item)) items);
          configs = dict_comp (map (\<lambda>b. (b_id b, static_banner_config b items item_by_id)) banners)
      in \<lparr>cs_source = ''static'', cs_loaded_at = now, cs_items = items, cs_banners = banners,
          cs_banner_configs_by_id = configs, cs_banner_schedules_by_id = [],
          cs_release_id = None, cs_release_number = None, cs_snapshot_sha256 = None\<rparr>)"

section \<open>The static configs are well-formed\<close>

definition static_config :: "banner \<Rightarrow> banner_config" where
  "static_config b = static_banner_config b gacha_items static_item_by_id"

lemma static_item_ids:
  "map (\<lambda>i. (gi_id i, gi_rarity i)) gacha_items =
    [(''char-luoxian'', 5), (''char-xingjian'', 5), (''weapon-aurora'', 5),
     (''char-qinglan'', 4), (''char-miyue'', 4), (''weapon-bell'', 4),
     (''weapon-cinder'', 3), (''weapon-tide'', 3)]"
  by (simp add: gacha_items_def)

lemma static_item_ids_distinct: "distinct (map gi_id gacha_items)"
proof -
  have "map gi_id gacha_items = map fst (map (\<lambda>i. (gi_id i, gi_rarity i)) gacha_items)" by simp
  then show ?thesis unfolding static_item_ids by simp
qed

lemma static_item_lookup:
  "map_of static_item_by_id = map_of (map (\<lambda>item. (gi_id item, item)) gacha_items)"
  unfolding static_item_by_id_def
  by (rule map_of_dict_comp_distinct) (simp add: comp_def static_item_ids_distinct)

lemma map_of_by_id:
  "distinct (map gi_id items) \<Longrightarrow>
   map_of (map (\<lambda>item. (gi_id item, item)) items) i = Some item \<longleftrightarrow>
     item \<in> set items \<and> gi_id item = i"
  by (subst map_of_eq_Some_iff) (auto simp: comp_def)

lemma static_item_by_id_Some:
  "map_of static_item_by_id i = Some item \<longleftrightarrow> item \<in> set gacha_items \<and> gi_id item = i"
  by (simp add: static_item_lookup map_of_by_id[OF static_item_ids_distinct])

lemma static_item_set: "(i, item) \<in> set static_item_by_id \<Longrightarrow> item \<in> set gacha_items \<and> gi_id item = i"
proof -
  have "distinct (map fst static_item_by_id)" by (simp add: static_item_by_id_def)
  moreover assume "(i, item) \<in> set static_item_by_id"
  ultimately show ?thesis using static_item_by_id_Some by (metis map_of_eq_Some_iff)
qed

text \<open>The rarity of an item id.\<close>

definition static_rarity :: "string \<Rightarrow> int option" where
  "static_rarity i = map_of (map (\<lambda>i. (gi_id i, gi_rarity i)) gacha_items) i"

lemma static_rarity_lookup:
  "static_rarity i = map_option gi_rarity (map_of static_item_by_id i)"
proof -
  have "static_rarity i = map_of (map (\<lambda>(k, v). (k, gi_rarity v)) (map (\<lambda>j. (gi_id j, j)) gacha_items)) i"
    by (simp add: static_rarity_def comp_def)
  then show ?thesis by (simp only: map_of_map static_item_lookup comp_def)
qed

lemma static_rarity_iff:
  "(case map_of static_item_by_id i of None \<Rightarrow> False | Some item \<Rightarrow> gi_rarity item = r)
     \<longleftrightarrow> static_rarity i = Some r"
  by (simp add: static_rarity_lookup split: option.splits)

lemma static_pool_nonempty:
  assumes "j \<in> set (b_item_pool b)" "static_rarity j = Some r" "j \<notin> set ex"
  shows "pool_for_rarity (static_config b) r ex \<noteq> []"
proof -
  obtain item where item: "map_of static_item_by_id j = Some item" "gi_rarity item = r"
    using assms(2) by (auto simp: static_rarity_lookup)
  have c: "bc_item_by_id (static_config b) = static_item_by_id" "bc_banner (static_config b) = b"
    by (simp_all add: static_config_def static_banner_config_def Let_def)
  have "item \<in> set (List.map_filter
      (\<lambda>i. case map_of static_item_by_id i of None \<Rightarrow> None
        | Some it \<Rightarrow> if gi_rarity it = r \<and> i \<notin> set ex then Some it else None) (b_item_pool b))"
    using assms(1,3) item by (force simp: map_filter_def image_iff)
  then show ?thesis by (auto simp: pool_for_rarity_def Let_def c)
qed

lemma static_wf:
  assumes pools: "\<And>r. r \<in> {3, 4, 5} \<Longrightarrow>
      \<exists>j \<in> set (b_item_pool b). static_rarity j = Some r \<and> Some j \<noteq> b_featured_five_id b"
    and five: "\<And>j. b_featured_five_id b = Some j \<Longrightarrow> static_rarity j = Some 5"
    and four: "\<And>j. j \<in> set (b_featured_four_ids b) \<Longrightarrow> static_rarity j = Some 4"
  shows "wf_banner_config (static_config b)"
proof -
  let ?c = "static_config b"
  have sel: "bc_item_by_id ?c = static_item_by_id" "bc_all_items ?c = gacha_items"
    by (simp_all add: static_config_def static_banner_config_def Let_def)
  have "wf_items ?c" by (auto simp: wf_items_def sel dest: static_item_set)
  moreover have "wf_featured ?c"
    unfolding wf_featured_def sel static_rarity_iff
    using five four by (auto simp: static_config_def static_banner_config_def Let_def
        truthy_str_def split: option.splits)
  moreover have "wf_rules ?c"
    by (simp add: wf_rules_def static_config_def static_banner_config_def Let_def)
  moreover have "wf_pools ?c"
  proof -
    have base: "pool_for_rarity ?c r [] \<noteq> []" if "r \<in> {3, 4, 5}" for r
      using pools[OF that] static_pool_nonempty[of _ b r "[]"] by auto
    have "pool_for_rarity ?c 5 [the (b_featured_five_id b)] \<noteq> []" if "b_featured_five_id b \<noteq> None"
      using pools[of 5] static_pool_nonempty[of _ b 5 "[the (b_featured_five_id b)]"] that by auto
    note five = this
    have feature: "r = 5 \<and> b_featured_five_id b \<noteq> None \<and> ids = [the (b_featured_five_id b)]"
      if "map_of (bc_featured_item_ids_by_rarity ?c) r = Some ids" "map_of (bc_featured_rules ?c) r = Some rule"
        "fr_miss_sets_guarantee rule" for r ids rule
      using that unfolding static_config_def static_banner_config_def Let_def
      by (auto simp: truthy_str_def split: if_splits option.splits)
    have "pool_for_rarity ?c r ids \<noteq> []"
      if "map_of (bc_featured_item_ids_by_rarity ?c) r = Some ids" "map_of (bc_featured_rules ?c) r = Some rule"
        "fr_miss_sets_guarantee rule" for r ids rule
      using feature[OF that] five by blast
    then show ?thesis using base unfolding wf_pools_def by (simp split: option.split)
  qed
  ultimately show ?thesis by (simp add: wf_banner_config_def)
qed

lemma limited_wf: "wf_banner_config (static_config limited_banner)"
  by (rule static_wf) (auto simp: limited_banner_def static_rarity_def static_item_ids)

lemma standard_wf: "wf_banner_config (static_config standard_banner)"
  by (rule static_wf) (auto simp: standard_banner_def static_rarity_def static_item_ids)

lemma static_config_rules:
  "map_of (bc_pity_rules (static_config b)) 5 = Some
     \<lparr>pu_rarity = 5, pu_counter_key = ''five_star'', pu_hard_pity = 80,
      pu_soft_pity_start = Some 66, pu_soft_pity_increment_ppm = 60000, pu_resets_lower_rarity = True\<rparr>"
  "map_of (bc_pity_rules (static_config b)) 4 = Some
     \<lparr>pu_rarity = 4, pu_counter_key = ''four_star'', pu_hard_pity = 10,
      pu_soft_pity_start = None, pu_soft_pity_increment_ppm = 0, pu_resets_lower_rarity = False\<rparr>"
  "map_of (bc_rarity_rates (static_config b)) 5 =
     Some \<lparr>rr_rarity = 5, rr_base_rate_ppm = 6000, rr_roll_order = 1\<rparr>"
  "map_of (bc_rarity_rates (static_config b)) 4 =
     Some \<lparr>rr_rarity = 4, rr_base_rate_ppm = 51000, rr_roll_order = 2\<rparr>"
  by (simp_all add: static_config_def static_banner_config_def Let_def default_simps)

lemma static_rates_total:
  "sum_list (map (rr_base_rate_ppm \<circ> snd) (bc_rarity_rates (static_config b))) = 1000000"
  by (simp add: static_config_def static_banner_config_def Let_def default_simps)

text \<open>The snapshot holds exactly the two static configs.\<close>

lemma static_snapshot_configs:
  "cs_banner_configs_by_id (static_catalog_snapshot now) =
     [(''limited-character-001'', static_config limited_banner),
      (''standard-001'', static_config standard_banner)]"
  by (simp add: static_catalog_snapshot_def Let_def dict_comp_def banners_def static_config_def
      static_item_by_id_def[symmetric, unfolded dict_comp_def]
      limited_banner_def[THEN arg_cong[where f = b_id], simplified]
      standard_banner_def[THEN arg_cong[where f = b_id], simplified])

lemma static_snapshot_wf:
  "\<forall>(i, c) \<in> set (cs_banner_configs_by_id (static_catalog_snapshot now)). wf_banner_config c"
  by (simp add: static_snapshot_configs limited_wf standard_wf)

end
