(* ===== verification/Pull_Guarantees.thy ===== *)
theory Pull_Guarantees
  imports Engine_Props Static_Catalog
begin

text \<open>
  What the engine promises a player, for every well-formed configuration and every generator
  that keeps to the documentation of the \<open>random\<close> module, over every session of batches; each
  promise is then instantiated on the static catalog. The last section bounds how far the rates the
  engine computes in binary64 are from the rule over the rationals.
\<close>

section \<open>Counting back through a history\<close>

definition pulls_since :: "(pull_record \<Rightarrow> bool) \<Rightarrow> int \<Rightarrow> pull_record list \<Rightarrow> int" where
  "pulls_since hit start recs =
     (if \<exists>rec \<in> set recs. hit rec then int (length (takeWhile (\<lambda>r. \<not> hit r) (rev recs)))
      else start + int (length recs))"

lemma pulls_since_snoc:
  "pulls_since hit k (recs @ [rec]) = (if hit rec then 0 else pulls_since hit k recs + 1)"
  by (auto simp: pulls_since_def)

lemma foldl_counter:
  assumes "\<And>k rec. f k rec = (if hit rec then 0 else k + 1)"
  shows "foldl f k recs = pulls_since hit k recs"
proof (induction recs rule: rev_induct)
  case Nil
  show ?case by (simp add: pulls_since_def)
next
  case (snoc rec recs)
  then show ?case by (simp add: assms pulls_since_snoc)
qed

definition is_five :: "pull_record \<Rightarrow> bool" where
  "is_five rec \<longleftrightarrow> pr_rarity rec = 5"

text \<open>The records that reset the four star counter.\<close>

definition resets_four :: "banner_config \<Rightarrow> pull_record \<Rightarrow> bool" where
  "resets_four c rec \<longleftrightarrow> pr_rarity rec = 4 \<or> pr_rarity rec = 5 \<and> resets_lower c"

lemma run_counters:
  assumes "pull_run c p recs p'"
  shows "since_five p' = pulls_since is_five (since_five p) recs"
    "since_four p' = pulls_since (resets_four c) (since_four p) recs"
  unfolding pull_run_history[OF assms]
  by (rule foldl_counter; simp add: five_after_def four_after_def is_five_def resets_four_def)+

lemma run_record_counters:
  assumes "pull_run c p recs p'" "k < length recs"
  shows "pr_pity_at_five (recs ! k) = pulls_since is_five (since_five p) (take k recs) + 1"
    "pr_pity_at_four (recs ! k) = pulls_since (resets_four c) (since_four p) (take k recs) + 1"
proof -
  obtain q q' where q: "pull_run c p (take k recs) q" "pulled c q (recs ! k) q'"
    using assms by (rule pull_run_nth)
  from q(2) have "record_counters q (recs ! k)" by (rule pulled_history(4))
  with run_counters[OF q(1)] show
    "pr_pity_at_five (recs ! k) = pulls_since is_five (since_five p) (take k recs) + 1"
    "pr_pity_at_four (recs ! k) = pulls_since (resets_four c) (since_four p) (take k recs) + 1"
    by (simp_all add: record_counters_def)
qed

lemma run_guarantee:
  assumes "pull_run c p recs p'"
  shows "guaranteed_featured_five p' =
    (case find is_five (rev recs) of
       None \<Rightarrow> guaranteed_featured_five p
     | Some rec \<Rightarrow> next_featured_guarantee c 5 (pr_is_featured rec))"
  unfolding pull_run_history(3)[OF assms]
  by (induction recs rule: rev_induct) (auto simp: guarantee_after_def is_five_def)

section \<open>A worked session\<close>

lemma static_resets_lower: "resets_lower (static_config b)"
  by (simp add: resets_lower_def static_config_rules)

definition sample_batches :: "(int \<times> string) list" where
  "sample_batches = replicate 8 (10, ''seed'')"

lemma sample_session:
  obtains recs p' where
    "run_batches sample_lib (static_config limited_banner) sample_batches create_initial_pity = Inr (recs, p')"
    "length recs = 80"
  using run_batches_total[OF limited_wf sample_lib_lawful, of sample_batches create_initial_pity]
  by (auto simp: sample_batches_def sum_list_replicate)

lemma initial_pity_valid: "pity_state_valid create_initial_pity"
  by (simp add: pity_state_valid_def create_initial_pity_def)

section \<open>Pity\<close>

text \<open>C1: five star hard pity. In any session of batches, any stretch of as many consecutive
  pulls as the configured hard pity contains a five star item, wherever it starts and whichever
  way the batches are cut.\<close>

theorem hard_pity_five:
  assumes c: "wf_banner_config c" and run: "run_batches L c batches p = Inr (recs, p')"
    and p: "pity_state_valid p" and p5: "map_of (bc_pity_rules c) 5 = Some p5"
    and n: "0 < pu_hard_pity p5" "i + nat (pu_hard_pity p5) \<le> length recs"
  shows "\<exists>rec \<in> set (take (nat (pu_hard_pity p5)) (drop i recs)). pr_rarity rec = 5"
proof (rule ccontr)
  let ?w = "take (nat (pu_hard_pity p5)) (drop i recs)"
  assume none: "\<not> ?thesis"
  obtain q q' where w: "pull_run c q ?w q'" and q: "pity_state_valid q"
    by (rule pull_run_window[OF run_batches_run[OF c run] p n(2)])
  have len: "int (length ?w) = pu_hard_pity p5" using n by simp
  with n(1) have "?w \<noteq> []" by fastforce
  with run_without_five[OF w p5] none
  have "since_five q + int (length ?w) < pu_hard_pity p5" by metis
  with q show False unfolding len pity_state_valid_def by linarith
qed

lemma hard_pity_five_witness:
  "\<exists>recs p'. run_batches sample_lib (static_config limited_banner) sample_batches create_initial_pity
      = Inr (recs, p') \<and> length recs = 80 \<and> (\<exists>rec \<in> set (take 80 (drop 0 recs)). pr_rarity rec = 5)"
proof -
  obtain recs p' where run: "run_batches sample_lib (static_config limited_banner) sample_batches
      create_initial_pity = Inr (recs, p')" "length recs = 80" by (rule sample_session)
  show ?thesis
    using hard_pity_five[OF limited_wf run(1) initial_pity_valid static_config_rules(1), of 0] run
    by auto
qed

text \<open>C26: four star hard pity. Any stretch of as many consecutive pulls of a session as the four
  star hard pity contains a four or five star item.\<close>

theorem hard_pity_four:
  assumes c: "wf_banner_config c" and run: "run_batches L c batches p = Inr (recs, p')"
    and p: "pity_state_valid p" and p4: "map_of (bc_pity_rules c) 4 = Some p4"
    and n: "0 < pu_hard_pity p4" "i + nat (pu_hard_pity p4) \<le> length recs"
  shows "\<exists>rec \<in> set (take (nat (pu_hard_pity p4)) (drop i recs)). pr_rarity rec \<in> {4, 5}"
proof (rule ccontr)
  let ?w = "take (nat (pu_hard_pity p4)) (drop i recs)"
  assume none: "\<not> ?thesis"
  obtain q q' where w: "pull_run c q ?w q'" and q: "pity_state_valid q"
    by (rule pull_run_window[OF run_batches_run[OF c run] p n(2)])
  have len: "int (length ?w) = pu_hard_pity p4" using n by simp
  with n(1) have "?w \<noteq> []" by fastforce
  with run_without_four[OF w p4] none
  have "since_four q + int (length ?w) < pu_hard_pity p4" by metis
  with q show False unfolding len pity_state_valid_def by linarith
qed

lemma hard_pity_four_witness:
  "\<exists>recs p'. run_batches sample_lib (static_config limited_banner) sample_batches create_initial_pity
      = Inr (recs, p') \<and> (\<exists>rec \<in> set (take 10 (drop 37 recs)). pr_rarity rec \<in> {4, 5})"
proof -
  obtain recs p' where run: "run_batches sample_lib (static_config limited_banner) sample_batches
      create_initial_pity = Inr (recs, p')" "length recs = 80" by (rule sample_session)
  show ?thesis
    using hard_pity_four[OF limited_wf run(1) initial_pity_valid static_config_rules(2), of 37] run
    by auto
qed

text \<open>C3: the pity state is the history. After any session, the five star counter is the number of
  pulls since the last five star item, the four star counter the number since the last four star item
  or, where five stars reset it, the last four or five star item, the guarantee flag the one the last
  five star item left; and each record carries the counters of its own position.\<close>

theorem pity_is_history:
  assumes c: "wf_banner_config c" and run: "run_batches L c batches p = Inr (recs, p')"
  shows "since_five p' = pulls_since is_five (since_five p) recs
    \<and> since_four p' = pulls_since (resets_four c) (since_four p) recs
    \<and> guaranteed_featured_five p' =
        (case find is_five (rev recs) of
           None \<Rightarrow> guaranteed_featured_five p
         | Some rec \<Rightarrow> next_featured_guarantee c 5 (pr_is_featured rec))
    \<and> (\<forall>k < length recs.
         pr_pity_at_five (recs ! k) = pulls_since is_five (since_five p) (take k recs) + 1 \<and>
         pr_pity_at_four (recs ! k) = pulls_since (resets_four c) (since_four p) (take k recs) + 1)"
  using run_counters[OF run_batches_run[OF c run]] run_guarantee[OF run_batches_run[OF c run]]
    run_record_counters[OF run_batches_run[OF c run]] by simp

lemma pity_is_history_witness:
  "\<exists>recs p'. run_batches sample_lib (static_config limited_banner) sample_batches create_initial_pity
      = Inr (recs, p') \<and> length recs = 80 \<and>
      since_five p' = pulls_since is_five 0 recs \<and> pr_pity_at_five (recs ! 0) = 1"
proof -
  obtain recs p' where run: "run_batches sample_lib (static_config limited_banner) sample_batches
      create_initial_pity = Inr (recs, p')" "length recs = 80" by (rule sample_session)
  show ?thesis
    using pity_is_history[OF limited_wf run(1)] run
    by (auto simp: create_initial_pity_def pulls_since_def)
qed

text \<open>C12: the featured guarantee. On a banner whose five star rule sets the guarantee after a miss,
  of two successive five star items of a session at least one is featured.\<close>

theorem featured_guarantee:
  assumes c: "wf_banner_config c" and run: "run_batches L c batches p = Inr (recs, p')"
    and rule: "guarantees_five c" "misses_guarantee c"
    and ij: "i < j" "j < length recs" "pr_rarity (recs ! i) = 5" "pr_rarity (recs ! j) = 5"
      "\<forall>k. i < k \<and> k < j \<longrightarrow> pr_rarity (recs ! k) \<noteq> 5"
  shows "pr_is_featured (recs ! i) \<or> pr_is_featured (recs ! j)"
proof (rule disjCI)
  assume other: "\<not> pr_is_featured (recs ! j)"
  let ?mid = "take (j - Suc i) (drop (Suc i) recs)"
  have "drop (Suc i) recs ! (j - Suc i) = recs ! j" using ij(1,2) by simp
  then have tail: "drop (Suc i) recs = ?mid @ recs ! j # drop (Suc j) recs"
    using ij(1,2) id_take_nth_drop[of "j - Suc i" "drop (Suc i) recs"] by simp
  have mid: "\<forall>r \<in> set ?mid. pr_rarity r \<noteq> 5"
    using ij by (auto simp: in_set_conv_nth)
  obtain q where "pull_run c q (drop i recs) p'"
    using run_batches_run[OF c run] by (metis append_take_drop_id pull_run_append_iff)
  then have "pull_run c q (recs ! i # ?mid @ recs ! j # drop (Suc j) recs) p'"
    using tail ij(1,2) by (metis Cons_nth_drop_Suc less_trans)
  from run_second_five_featured[OF this ij(3,4) mid rule] other
  show "pr_is_featured (recs ! i)" by blast
qed

lemma limited_guarantees: "guarantees_five (static_config limited_banner)"
  "misses_guarantee (static_config limited_banner)"
  by (simp_all add: guarantees_five_def misses_guarantee_def featured_ids_def static_config_def
      static_banner_config_def limited_banner_def truthy_str_def)

text \<open>A generator that always draws zero: every pull is a five star item.\<close>

definition lucky_lib :: "nat lib" where
  "lucky_lib = sample_lib\<lparr>lib_random := (\<lambda>g. (0, g)), lib_randrange := (\<lambda>n g. (0, g))\<rparr>"

lemma lucky_lib_lawful: "rng_lawful lucky_lib"
  by (simp add: lucky_lib_def rng_lawful_def)

lemma static_base_rate_pos: "0 < int_truediv 6000 1000000"
  by (simp add: int_truediv_def fl_def fl_pos_pos)

lemma static_five_rate_pos:
  "\<exists>rate. get_rarity_rate (static_config b) 5 n = Inr rate \<and> 0 < rate"
proof -
  let ?r = "\<lparr>rr_rarity = 5, rr_base_rate_ppm = 6000, rr_roll_order = 1\<rparr>"
  have base: "0 < base_rate ?r" by (simp add: base_rate_def static_base_rate_pos)
  have "base_rate ?r \<le> soft_rate ?r rule m" if "0 \<le> m" "0 \<le> pu_soft_pity_increment_ppm rule" for rule m
    by (rule soft_rate_ge_base) (use that in simp_all)
  with base show ?thesis
    by (auto simp: get_rarity_rate_cases[OF static_config_rules(3)] static_config_rules
        intro: less_le_trans)
qed

lemma lucky_five:
  assumes "pull_step lucky_lib (static_config b) seed i p g = Inr (rec, p', g')"
  shows "pr_rarity rec = 5"
  using assms static_five_rate_pos[of b "since_five p + 1"]
  by (auto elim!: pull_step_InrE simp: roll_rarity_def static_config_rules lucky_lib_def Let_def
      split: if_splits)

lemma featured_guarantee_witness:
  "\<exists>recs p'. run_batches lucky_lib (static_config limited_banner) [(2, ''seed'')] create_initial_pity
      = Inr (recs, p') \<and> (pr_is_featured (recs ! 0) \<or> pr_is_featured (recs ! 1))"
proof -
  obtain recs p' where run: "perform_pulls lucky_lib (static_config limited_banner) 2
      create_initial_pity ''seed'' = Inr (recs, p')" "length recs = 2"
    using perform_pulls_total[OF limited_wf lucky_lib_lawful, of 2 create_initial_pity "''seed''"]
    by auto
  then have batch: "run_batches lucky_lib (static_config limited_banner) [(2, ''seed'')]
      create_initial_pity = Inr (recs, p')" by simp
  have "pr_rarity (recs ! k) = 5" if "k < 2" for k
    using perform_pulls_nth[OF run(1), of k] that run(2) by (auto dest: lucky_five)
  then have "pr_is_featured (recs ! 0) \<or> pr_is_featured (recs ! 1)"
    using featured_guarantee[OF limited_wf batch limited_guarantees, of 0 1] run(2) by auto
  with batch show ?thesis by blast
qed

section \<open>Totality and the records\<close>

lemma perform_pulls_indices:
  assumes c: "wf_banner_config c" and run: "perform_pulls L c count p seed = Inr (recs, p')"
  shows "map pr_index recs = map int [0..<length recs]"
proof (rule nth_equalityI)
  fix k assume "k < length (map pr_index recs)"
  then have k: "k < length recs" by simp
  with perform_pulls_nth[OF run, of k] have "pr_index (recs ! k) = int k"
    by (auto dest: pull_step_record(3)[OF c])
  with k show "map pr_index recs ! k = map int [0..<length recs] ! k" by simp
qed simp

text \<open>C13: a pull batch always succeeds. On a well-formed configuration no lookup misses, no pool is
  empty and no index is out of range: the batch returns exactly the requested number of records,
  numbered from 0, whatever the pity and the seed.\<close>

theorem perform_pulls_succeeds:
  assumes c: "wf_banner_config c" and L: "rng_lawful L"
  shows "\<exists>recs p'. perform_pulls L c count p seed = Inr (recs, p') \<and>
    map pr_index recs = map int [0..<nat count]"
  using perform_pulls_total[OF c L] perform_pulls_indices[OF c] by metis

lemma perform_pulls_succeeds_witness:
  "\<exists>recs p'. perform_pulls sample_lib (static_config standard_banner) 10 create_initial_pity ''s''
     = Inr (recs, p') \<and> map pr_index recs = map int [0..<10]"
  using perform_pulls_succeeds[OF standard_wf sample_lib_lawful, of 10 create_initial_pity "''s''"]
  by simp

text \<open>C32: record soundness. Every record describes an item of the configured catalog, with its name,
  type and rarity; the rarity is one of the three rolled ones, and the record is flagged as
  featured exactly when the item is one of the banner's featured items of its rarity.\<close>

theorem records_sound:
  assumes c: "wf_banner_config c" and run: "perform_pulls L c count p seed = Inr (recs, p')"
  shows "\<forall>rec \<in> set recs. pr_rarity rec \<in> {3, 4, 5} \<and> (\<exists>item \<in> set (bc_all_items c).
    pr_item_id rec = gi_id item \<and> pr_item_name rec = gi_name item \<and>
    pr_item_type rec = gi_type item \<and> pr_rarity rec = gi_rarity item \<and>
    (pr_is_featured rec \<longleftrightarrow> gi_id item \<in> set (featured_ids c (gi_rarity item))))"
proof
  fix rec assume "rec \<in> set recs"
  then obtain k where k: "k < length recs" "rec = recs ! k" by (metis in_set_conv_nth)
  then obtain q g1 q' g2 where "pull_step L c seed (int k) q g1 = Inr (rec, q', g2)"
    using perform_pulls_nth[OF run] by blast
  from pull_step_record(1,2)[OF c this] show "pr_rarity rec \<in> {3, 4, 5} \<and>
    (\<exists>item \<in> set (bc_all_items c).
    pr_item_id rec = gi_id item \<and> pr_item_name rec = gi_name item \<and>
    pr_item_type rec = gi_type item \<and> pr_rarity rec = gi_rarity item \<and>
    (pr_is_featured rec \<longleftrightarrow> gi_id item \<in> set (featured_ids c (gi_rarity item))))"
    unfolding record_of_item_def by blast
qed

lemma records_sound_witness:
  "\<exists>recs p'. perform_pulls lucky_lib (static_config limited_banner) 10 create_initial_pity ''s''
     = Inr (recs, p') \<and> length recs = 10 \<and> (\<exists>item \<in> set gacha_items. pr_item_id (hd recs) = gi_id item)"
proof -
  obtain recs p' where run: "perform_pulls lucky_lib (static_config limited_banner) 10
      create_initial_pity ''s'' = Inr (recs, p')" "length recs = 10"
    using perform_pulls_total[OF limited_wf lucky_lib_lawful, of 10 create_initial_pity "''s''"] by auto
  then have "hd recs \<in> set recs" by (metis hd_in_set list.size(3) zero_neq_numeral)
  then have "\<exists>item \<in> set (bc_all_items (static_config limited_banner)). pr_item_id (hd recs) = gi_id item"
    using records_sound[OF limited_wf run(1)] by blast
  moreover have "bc_all_items (static_config limited_banner) = gacha_items"
    by (simp add: static_config_def static_banner_config_def Let_def)
  ultimately show ?thesis using run by auto
qed

text \<open>A shorter batch is a prefix. With the same seed and pity, the records of a batch of \<open>m\<close>
  pulls are the first \<open>m\<close> records of any longer batch: the count never changes what was drawn.\<close>

theorem shorter_batch_is_prefix:
  assumes run: "perform_pulls L c n p seed = Inr (recs, p')" and m: "0 \<le> m" "m \<le> n"
  shows "\<exists>q. perform_pulls L c m p seed = Inr (take (nat m) recs, q)"
proof -
  from run obtain g where
    all: "pulls_from L c seed 0 (nat m + nat (n - m)) p (lib_Random L seed) = Inr (recs, p', g)"
    using m by (auto simp: perform_pulls_def nat_add_distrib[symmetric] split: sum.splits)
  then obtain recs1 recs2 q g1 where
    "pulls_from L c seed 0 (nat m) p (lib_Random L seed) = Inr (recs1, q, g1)" "recs = recs1 @ recs2"
    unfolding pulls_from_append by (auto split: sum.splits)
  then show ?thesis by (auto simp: perform_pulls_def dest: pulls_from_length)
qed

lemma shorter_batch_is_prefix_witness:
  "\<exists>recs p' q. perform_pulls lucky_lib (static_config limited_banner) 10 create_initial_pity ''s''
     = Inr (recs, p') \<and>
     perform_pulls lucky_lib (static_config limited_banner) 1 create_initial_pity ''s'' = Inr (take 1 recs, q)"
proof -
  obtain recs p' where run: "perform_pulls lucky_lib (static_config limited_banner) 10
      create_initial_pity ''s'' = Inr (recs, p')"
    using perform_pulls_total[OF limited_wf lucky_lib_lawful, of 10 create_initial_pity "''s''"] by auto
  then show ?thesis using shorter_batch_is_prefix[OF run, of 1] by auto
qed

text \<open>Record ids. The ids of a batch are the name based UUIDs of pairwise different names, so two
  records of one batch share an id only if the hash collides.\<close>

theorem record_ids_distinct_names:
  assumes c: "wf_banner_config c" and run: "perform_pulls L c count p seed = Inr (recs, p')"
  shows "\<exists>names. distinct names \<and>
    map pr_id recs = map (\<lambda>n. uuid_str (lib_uuid5 L pull_record_namespace n)) names"
proof -
  let ?P = "\<lambda>k n. pr_id (recs ! k) = uuid_str (lib_uuid5 L pull_record_namespace n) \<and>
    (\<exists>item a b. n = record_name seed (int k) (b_id (bc_banner c)) item a b)"
  have "\<exists>n. ?P k n" if k: "k < length recs" for k
  proof -
    obtain q g1 q' g2 where "pull_step L c seed (int k) q g1 = Inr (recs ! k, q', g2)"
      using perform_pulls_nth[OF run k] by blast
    from pull_step_record(4)[OF c this] show ?thesis unfolding record_id_def by blast
  qed
  then obtain f where f: "\<forall>k < length recs. ?P k (f k)" by metis
  have "inj_on f {0..<length recs}"
    by (rule inj_onI) (use f record_name_index in \<open>metis atLeastLessThan_iff\<close>)
  then have "distinct (map f [0..<length recs])" by (simp add: distinct_map)
  moreover have "map pr_id recs =
      map (\<lambda>n. uuid_str (lib_uuid5 L pull_record_namespace n)) (map f [0..<length recs])"
    using f by (intro nth_equalityI) simp_all
  ultimately show ?thesis by blast
qed

lemma record_ids_distinct_names_witness:
  "\<exists>recs p' names. perform_pulls sample_lib (static_config limited_banner) 10 create_initial_pity ''s''
     = Inr (recs, p') \<and> distinct names \<and> length names = 10 \<and>
     map pr_id recs = map (\<lambda>n. uuid_str (lib_uuid5 sample_lib pull_record_namespace n)) names"
proof -
  obtain recs p' where run: "perform_pulls sample_lib (static_config limited_banner) 10
      create_initial_pity ''s'' = Inr (recs, p')" "length recs = 10"
    using perform_pulls_total[OF limited_wf sample_lib_lawful, of 10 create_initial_pity "''s''"] by auto
  from record_ids_distinct_names[OF limited_wf run(1)] obtain names where
    n: "distinct names" "map pr_id recs = map (\<lambda>n. uuid_str (lib_uuid5 sample_lib pull_record_namespace n)) names"
    by blast
  from n(2) have "length names = 10" using run(2) by (metis length_map)
  with run n show ?thesis by blast
qed

section \<open>Probabilities and bounds\<close>

text \<open>C34: the probabilities. With rates in parts per million, every rate the engine compares a draw
  with lies between 0 and 1, never falls below the base rate, and grows with the pity count, in
  the binary64 arithmetic the code computes in.\<close>

theorem rarity_rate_bounds:
  assumes valid: "rates_valid c rarity" and le: "m \<le> n"
  shows "\<exists>r x y. map_of (bc_rarity_rates c) rarity = Some r \<and>
    get_rarity_rate c rarity m = Inr x \<and> get_rarity_rate c rarity n = Inr y \<and>
    0 \<le> base_rate r \<and> base_rate r \<le> x \<and> x \<le> y \<and> y \<le> 1"
proof -
  from valid obtain r where r: "map_of (bc_rarity_rates c) rarity = Some r"
    "0 \<le> rr_base_rate_ppm r" "rr_base_rate_ppm r \<le> 1000000"
    by (auto simp: rates_valid_def split: option.splits)
  note b = base_rate_bounds[OF r(2,3)]
  show ?thesis
  proof (cases "map_of (bc_pity_rules c) rarity")
    case None
    with b r(1) show ?thesis by (simp add: get_rarity_rate_cases[OF r(1)])
  next
    case (Some rule)
    with valid have inc: "0 \<le> pu_soft_pity_increment_ppm rule" by (simp add: rates_valid_def)
    have ge: "base_rate r \<le> soft_rate r rule k" if "0 \<le> k" for k
      by (rule soft_rate_ge_base[OF r(2,3) inc that])
    have one: "soft_rate r rule k \<le> 1" for k by (simp add: soft_rate_def)
    show ?thesis
    proof (cases "pu_soft_pity_start rule")
      case None
      with Some b r(1) show ?thesis by (simp add: get_rarity_rate_cases[OF r(1)])
    next
      case (Some start)
      have "soft_rate r rule (m - start + 1) \<le> soft_rate r rule (n - start + 1)"
        by (rule soft_rate_mono[OF inc]) (use le in simp)
      with Some \<open>map_of (bc_pity_rules c) rarity = Some rule\<close> b ge one le r(1) show ?thesis
        by (auto simp: get_rarity_rate_cases[OF r(1)])
    qed
  qed
qed

lemma rarity_rate_bounds_witness:
  "\<exists>x y. get_rarity_rate (static_config limited_banner) 5 1 = Inr x \<and>
    get_rarity_rate (static_config limited_banner) 5 79 = Inr y \<and> x \<le> y \<and> y \<le> 1"
proof -
  have "rates_valid (static_config limited_banner) 5"
    by (simp add: rates_valid_def static_config_rules)
  from rarity_rate_bounds[OF this, of 1 79] show ?thesis by auto
qed

text \<open>The rate the rules state, in exact arithmetic: the base rate, and from the soft pity on one
  increment more with every pull, at most one.\<close>

definition exact_rate :: "banner_config \<Rightarrow> int \<Rightarrow> int \<Rightarrow> rat" where
  "exact_rate c rarity n =
     (case map_of (bc_rarity_rates c) rarity of
        None \<Rightarrow> 0
      | Some r \<Rightarrow>
          (case map_of (bc_pity_rules c) rarity of
             None \<Rightarrow> of_int (rr_base_rate_ppm r) / 1000000
           | Some rule \<Rightarrow>
               (case pu_soft_pity_start rule of
                  None \<Rightarrow> of_int (rr_base_rate_ppm r) / 1000000
                | Some start \<Rightarrow>
                    if n < start then of_int (rr_base_rate_ppm r) / 1000000
                    else min 1 (of_int (rr_base_rate_ppm r + (n - start + 1) * pu_soft_pity_increment_ppm rule) / 1000000))))"

lemma near_truediv: "0 \<le> a \<Longrightarrow> near 1 (of_int a / 1000000) (int_truediv a 1000000)"
  using near_fl[OF near_refl[of "of_int a / 1000000"]] by (simp add: int_truediv_def)

lemma near_soft_rate:
  assumes "0 \<le> rr_base_rate_ppm r" "0 \<le> pu_soft_pity_increment_ppm rule" "0 \<le> n"
  shows "near 5 (min 1 (of_int (rr_base_rate_ppm r + n * pu_soft_pity_increment_ppm rule) / 1000000)) (soft_rate r rule n)"
proof -
  let ?b = "of_int (rr_base_rate_ppm r) / 1000000 :: rat" and ?i = "of_int (pu_soft_pity_increment_ppm rule) / 1000000 :: rat"
  have pos: "0 \<le> ?b" "0 \<le> ?i" "(0 :: rat) \<le> of_int n" using assms by simp_all
  have b: "near 4 ?b (base_rate r)"
    unfolding base_rate_def by (rule near_weaken[OF near_truediv]) (use assms in simp_all)
  have "near 1 (of_int n) (float_of_int n)"
    unfolding float_of_int_def using near_fl[OF near_refl[of "of_int n"]] pos by simp
  from near_mult[OF this near_truediv[OF assms(2)] pos(3) pos(2)]
  have "near 2 (of_int n * ?i) (float_of_int n * soft_pity_increment rule)"
    by (simp add: soft_pity_increment_def numeral_2_eq_2)
  from near_fl[OF this] pos have "near 3 (of_int n * ?i) (float_mul (float_of_int n) (soft_pity_increment rule))"
    by (simp add: float_mul_def)
  then have "near 4 (of_int n * ?i) (float_mul (float_of_int n) (soft_pity_increment rule))"
    by (rule near_weaken) (use pos in simp_all)
  from near_fl[OF near_add[OF b this]] pos
  have "near 5 (?b + of_int n * ?i) (float_add (base_rate r) (float_mul (float_of_int n) (soft_pity_increment rule)))"
    by (simp add: float_add_def)
  from near_min[OF this] pos show ?thesis by (simp add: soft_rate_def add_divide_distrib)
qed

text \<open>C35: the floats say what the rules say. For every pity count the rate a draw is compared with,
  which the code computes with up to five roundings, differs from the probability of the rules in
  exact arithmetic by less than one part in \<open>2\<close> to the \<open>50\<close>.\<close>

theorem rates_are_accurate:
  assumes "rates_valid c rarity"
  shows "\<exists>x. get_rarity_rate c rarity n = Inr x \<and> \<bar>x - exact_rate c rarity n\<bar> \<le> exact_rate c rarity n * 2 powi (- 50)"
proof -
  from assms obtain r where r: "map_of (bc_rarity_rates c) rarity = Some r" "0 \<le> rr_base_rate_ppm r"
    by (auto simp: rates_valid_def split: option.splits)
  have base: "near 5 (of_int (rr_base_rate_ppm r) / 1000000) (base_rate r)"
    unfolding base_rate_def by (rule near_weaken[OF near_truediv]) (use r in simp_all)
  have "near 5 (exact_rate c rarity n) (soft_rate r rule (n - start + 1))"
    if "map_of (bc_pity_rules c) rarity = Some rule" "pu_soft_pity_start rule = Some start" "start \<le> n" for rule start
    using near_soft_rate[of r rule "n - start + 1"] that r assms by (simp add: exact_rate_def rates_valid_def)
  with base r(1) obtain x where x: "get_rarity_rate c rarity n = Inr x" "near 5 (exact_rate c rarity n) x"
    by (auto simp: get_rarity_rate_cases[OF r(1)] exact_rate_def split: option.splits)
  have "0 \<le> exact_rate c rarity n"
    using assms r by (auto simp: exact_rate_def rates_valid_def split: option.splits)
  with x near_error show ?thesis by blast
qed

lemma rates_are_accurate_witness:
  "\<exists>x. get_rarity_rate (static_config limited_banner) 5 70 = Inr x \<and> \<bar>x - 306 / 1000\<bar> \<le> 306 / 1000 * 2 powi (- 50)"
proof -
  have "rates_valid (static_config limited_banner) 5"
    by (simp add: rates_valid_def static_config_rules)
  moreover have "exact_rate (static_config limited_banner) 5 70 = 306 / 1000"
    by (simp add: exact_rate_def static_config_rules)
  ultimately show ?thesis using rates_are_accurate[of "static_config limited_banner" 5 70] by metis
qed

text \<open>Where five stars do not reset the four star counter, each of them may take it one further past
  the hard pity.\<close>

definition overtaking_fives :: "banner_config \<Rightarrow> pull_record list \<Rightarrow> int" where
  "overtaking_fives c recs = (if resets_lower c then 0 else int (length (filter is_five recs)))"

lemma overtaking_fives_Cons:
  "overtaking_fives c (rec # recs) =
     overtaking_fives c recs + (if is_five rec \<and> \<not> resets_lower c then 1 else 0)"
  by (simp add: overtaking_fives_def)

lemma overtaking_fives_nonneg: "0 \<le> overtaking_fives c recs"
  by (simp add: overtaking_fives_def)

lemma run_below_hard_pity:
  assumes "pull_run c p recs p'"
    and p5: "map_of (bc_pity_rules c) 5 = Some p5" "0 < pu_hard_pity p5"
    and p4: "map_of (bc_pity_rules c) 4 = Some p4" "0 < pu_hard_pity p4"
    and "since_five p < pu_hard_pity p5" "since_four p < pu_hard_pity p4 + k" "0 \<le> k"
  shows "since_five p' < pu_hard_pity p5 \<and> since_four p' < pu_hard_pity p4 + k + overtaking_fives c recs \<and>
    (\<forall>rec \<in> set recs. pr_pity_at_five rec \<le> pu_hard_pity p5 \<and>
       pr_pity_at_four rec \<le> pu_hard_pity p4 + k + overtaking_fives c recs)"
  using assms(1,6-)
proof (induction arbitrary: k rule: pull_run.induct)
  case (run_nil p)
  then show ?case by (simp add: overtaking_fives_def)
next
  case (run_cons p rec p1 recs p2)
  let ?d = "if is_five rec \<and> \<not> resets_lower c then 1 else 0 :: int"
  have "since_five p1 < pu_hard_pity p5 \<and> since_four p1 < pu_hard_pity p4 + (k + ?d) \<and> record_counters p rec"
    using run_cons.hyps(1) run_cons.prems p5 p4 by (auto elim!: pulledE simp: resets_lower_def is_five_def)
  with run_cons.IH[of "k + ?d"] run_cons.prems overtaking_fives_nonneg[of c recs] show ?case
    by (auto simp: record_counters_def overtaking_fives_Cons add.assoc add.commute)
qed

text \<open>C33: the counters stay below hard pity. A session that starts below the hard pity of each rarity
  ends below it, and the counter a record shows never exceeds the hard pity. Where the five star rule
  does not reset the four star counter, each five star item of the session may take that counter one
  further, and nothing else does.\<close>

theorem counters_below_hard_pity:
  assumes c: "wf_banner_config c" and run: "run_batches L c batches p = Inr (recs, p')"
    and p5: "map_of (bc_pity_rules c) 5 = Some p5" "0 < pu_hard_pity p5"
    and p4: "map_of (bc_pity_rules c) 4 = Some p4" "0 < pu_hard_pity p4"
    and start: "since_five p < pu_hard_pity p5" "since_four p < pu_hard_pity p4"
  shows "since_five p' < pu_hard_pity p5 \<and> since_four p' < pu_hard_pity p4 + overtaking_fives c recs \<and>
    (\<forall>rec \<in> set recs. pr_pity_at_five rec \<le> pu_hard_pity p5 \<and>
       pr_pity_at_four rec \<le> pu_hard_pity p4 + overtaking_fives c recs)"
  using run_below_hard_pity[OF run_batches_run[OF c run] p5 p4, of 0] start by simp

lemma counters_below_hard_pity_witness:
  "\<exists>recs p'. run_batches sample_lib (static_config limited_banner) sample_batches create_initial_pity
      = Inr (recs, p') \<and> since_five p' < 80 \<and> since_four p' < 10"
proof -
  obtain recs p' where run: "run_batches sample_lib (static_config limited_banner) sample_batches
      create_initial_pity = Inr (recs, p')" "length recs = 80" by (rule sample_session)
  show ?thesis
    using counters_below_hard_pity[OF limited_wf run(1) static_config_rules(1) _ static_config_rules(2)] run
    by (auto simp: create_initial_pity_def overtaking_fives_def static_resets_lower)
qed

end
