(* ===== verification/Pull_Operations.thy ===== *)
theory Pull_Operations
  imports Engine_Props
begin

text \<open>
  \<open>pull_operations.py\<close>: the durable operation, the claims on it, and the recovery context, the
  frozen copy of everything a charged pull still needs. The lemmas show that freezing a banner
  config and thawing it again gives a config the engine cannot tell apart from the original.
\<close>

section \<open>The recovery context\<close>

record recovery_rarity_rate =
  rrr_rarity :: int
  rrr_base_rate_ppm :: int
  rrr_roll_order :: int

record recovery_featured_rule =
  rfr_rarity :: int
  rfr_featured_group :: string
  rfr_featured_rate_ppm :: int
  rfr_guarantee_after_miss :: bool
  rfr_miss_sets_guarantee :: bool
  rfr_guarantee_state_key :: "string option"

record recovery_pity_rule =
  rpu_rarity :: int
  rpu_counter_key :: string
  rpu_hard_pity :: int
  rpu_soft_pity_start :: "int option"
  rpu_soft_pity_increment_ppm :: int
  rpu_resets_lower_rarity :: bool

record pull_recovery_context =
  rc_banner :: banner
  rc_pity_group_id :: string
  rc_banner_version_id :: "string option"
  rc_banner_version :: int
  rc_items :: "gacha_item list"
  rc_rarity_rates :: "recovery_rarity_rate list"
  rc_featured_rules :: "recovery_featured_rule list"
  rc_pity_rules :: "recovery_pity_rule list"
  rc_featured_item_ids_by_rarity :: "(int, string list) dict"
  rc_count :: int
  rc_seed :: string
  rc_event_id :: uuid
  rc_amount_minor :: int
  rc_request_id :: string
  rc_accepted_at :: "py_datetime option"
  rc_audit :: "pull_audit_metadata option"

text \<open>The field constraints of the model: lengths in characters, \<open>Literal[1, 10]\<close>, \<open>gt=0\<close>.\<close>

definition recovery_context_valid :: "pull_recovery_context \<Rightarrow> bool" where
  "recovery_context_valid x \<longleftrightarrow>
     1 \<le> py_len (rc_pity_group_id x) \<and> py_len (rc_pity_group_id x) \<le> 100 \<and>
     (rc_count x = 1 \<or> rc_count x = 10) \<and>
     1 \<le> py_len (rc_seed x) \<and> py_len (rc_seed x) \<le> 200 \<and>
     0 < rc_amount_minor x"

text \<open>
  \<open>restore_legacy_pity_group\<close> runs on the raw value before validation. On the keyword
  arguments of a constructor call the banner is a model, and only the group id matters; on a
  stored JSON value both are read from the object.
\<close>

definition restore_group :: "string \<Rightarrow> string \<Rightarrow> string" where
  "restore_group pity_group_id banner_id = (if pity_group_id \<noteq> [] then pity_group_id else banner_id)"

definition restore_legacy_pity_group :: "json \<Rightarrow> json" where
  "restore_legacy_pity_group value =
     (case value of
        JObj kvs \<Rightarrow>
          (if json_truthy (json_get value ''pity_group_id'') then value
           else let banner_id = json_get (json_get value ''banner'') ''id'' in
                if \<not> json_truthy banner_id then value
                else JObj (AList.update ''pity_group_id'' banner_id (dict_comp kvs)))
      | _ \<Rightarrow> value)"

definition freeze_rate :: "rarity_rate \<Rightarrow> recovery_rarity_rate" where
  "freeze_rate r =
     \<lparr>rrr_rarity = rr_rarity r, rrr_base_rate_ppm = rr_base_rate_ppm r, rrr_roll_order = rr_roll_order r\<rparr>"

definition freeze_featured :: "featured_rule \<Rightarrow> recovery_featured_rule" where
  "freeze_featured r =
     \<lparr>rfr_rarity = fr_rarity r, rfr_featured_group = fr_featured_group r,
      rfr_featured_rate_ppm = fr_featured_rate_ppm r,
      rfr_guarantee_after_miss = fr_guarantee_after_miss r,
      rfr_miss_sets_guarantee = fr_miss_sets_guarantee r,
      rfr_guarantee_state_key = fr_guarantee_state_key r\<rparr>"

definition freeze_pity :: "pity_rule \<Rightarrow> recovery_pity_rule" where
  "freeze_pity r =
     \<lparr>rpu_rarity = pu_rarity r, rpu_counter_key = pu_counter_key r, rpu_hard_pity = pu_hard_pity r,
      rpu_soft_pity_start = pu_soft_pity_start r,
      rpu_soft_pity_increment_ppm = pu_soft_pity_increment_ppm r,
      rpu_resets_lower_rarity = pu_resets_lower_rarity r\<rparr>"

definition from_banner_config ::
    "banner_config \<Rightarrow> int \<Rightarrow> string \<Rightarrow> string \<Rightarrow> int \<Rightarrow> string \<Rightarrow> py_datetime option
     \<Rightarrow> pull_audit_metadata option \<Rightarrow> pull_recovery_context result" where
  "from_banner_config c count seed event_id amount_minor request_id accepted_at audit =
     (case uuid_parse event_id of
        None \<Rightarrow> Inl ValidationError
      | Some event_uuid \<Rightarrow>
          (let ctx =
             \<lparr>rc_banner = bc_banner c,
              rc_pity_group_id = restore_group (bc_pity_group_id c) (b_id (bc_banner c)),
              rc_banner_version_id = bc_banner_version_id c,
              rc_banner_version = bc_version c,
              rc_items = bc_all_items c,
              rc_rarity_rates = map (freeze_rate \<circ> snd) (dict_sorted (bc_rarity_rates c)),
              rc_featured_rules = map (freeze_featured \<circ> snd) (dict_sorted (bc_featured_rules c)),
              rc_pity_rules = map (freeze_pity \<circ> snd) (dict_sorted (bc_pity_rules c)),
              rc_featured_item_ids_by_rarity = dict_comp (bc_featured_item_ids_by_rarity c),
              rc_count = count,
              rc_seed = seed,
              rc_event_id = event_uuid,
              rc_amount_minor = amount_minor,
              rc_request_id = request_id,
              rc_accepted_at = accepted_at,
              rc_audit = audit\<rparr>
           in if recovery_context_valid ctx then Inr ctx else Inl ValidationError))"

definition thaw_rate :: "recovery_rarity_rate \<Rightarrow> rarity_rate" where
  "thaw_rate r =
     \<lparr>rr_rarity = rrr_rarity r, rr_base_rate_ppm = rrr_base_rate_ppm r, rr_roll_order = rrr_roll_order r\<rparr>"

definition thaw_featured :: "recovery_featured_rule \<Rightarrow> featured_rule" where
  "thaw_featured r =
     \<lparr>fr_rarity = rfr_rarity r, fr_featured_group = rfr_featured_group r,
      fr_featured_rate_ppm = rfr_featured_rate_ppm r,
      fr_guarantee_after_miss = rfr_guarantee_after_miss r,
      fr_miss_sets_guarantee = rfr_miss_sets_guarantee r,
      fr_guarantee_state_key = rfr_guarantee_state_key r\<rparr>"

definition thaw_pity :: "recovery_pity_rule \<Rightarrow> pity_rule" where
  "thaw_pity r =
     \<lparr>pu_rarity = rpu_rarity r, pu_counter_key = rpu_counter_key r, pu_hard_pity = rpu_hard_pity r,
      pu_soft_pity_start = rpu_soft_pity_start r,
      pu_soft_pity_increment_ppm = rpu_soft_pity_increment_ppm r,
      pu_resets_lower_rarity = rpu_resets_lower_rarity r\<rparr>"

definition to_banner_config :: "pull_recovery_context \<Rightarrow> banner_config" where
  "to_banner_config x =
     \<lparr>bc_banner = rc_banner x,
      bc_pity_group_id = rc_pity_group_id x,
      bc_banner_version_id = rc_banner_version_id x,
      bc_version = rc_banner_version x,
      bc_all_items = rc_items x,
      bc_item_by_id = dict_comp (map (\<lambda>item. (gi_id item, item)) (rc_items x)),
      bc_rarity_rates = dict_comp (map (\<lambda>r. (rrr_rarity r, thaw_rate r)) (rc_rarity_rates x)),
      bc_featured_rules = dict_comp (map (\<lambda>r. (rfr_rarity r, thaw_featured r)) (rc_featured_rules x)),
      bc_pity_rules = dict_comp (map (\<lambda>r. (rpu_rarity r, thaw_pity r)) (rc_pity_rules x)),
      bc_featured_item_ids_by_rarity = dict_comp (rc_featured_item_ids_by_rarity x)\<rparr>"

section \<open>Operations and claims\<close>

record pull_operation =
  po_status :: pull_operation_status
  po_request_hash :: string
  po_response :: "pull_response option"
  po_event :: "pull_completed_event option"
  po_error_code :: "string option"
  po_error_message :: "string option"
  po_recovery_context :: "pull_recovery_context option"

record pull_operation_claim =
  cl_operation_key :: string
  cl_operation :: pull_operation
  cl_processing_token :: "uuid option"

definition acquired :: "pull_operation_claim \<Rightarrow> bool" where
  "acquired cl \<longleftrightarrow> cl_processing_token cl \<noteq> None"

record pull_operation_record =
  or_operation_key :: string
  or_user_id :: uuid
  or_operation :: pull_operation
  or_request_id :: "uuid option"
  or_created_at :: "instant option"
  or_updated_at :: "instant option"

record pull_operation_recovery_claim =
  rcl_operation_key :: string
  rcl_user_id :: uuid
  rcl_operation :: pull_operation
  rcl_processing_token :: uuid

section \<open>Configs the engine cannot tell apart\<close>

text \<open>
  The engine reads a config through its banner, its item list and lookups; two configs that
  agree on those are interchangeable.
\<close>

definition config_equiv :: "banner_config \<Rightarrow> banner_config \<Rightarrow> bool" where
  "config_equiv c d \<longleftrightarrow>
     bc_banner c = bc_banner d \<and> bc_all_items c = bc_all_items d \<and>
     map_of (bc_item_by_id c) = map_of (bc_item_by_id d) \<and>
     map_of (bc_rarity_rates c) = map_of (bc_rarity_rates d) \<and>
     map_of (bc_featured_rules c) = map_of (bc_featured_rules d) \<and>
     map_of (bc_pity_rules c) = map_of (bc_pity_rules d) \<and>
     map_of (bc_featured_item_ids_by_rarity c) = map_of (bc_featured_item_ids_by_rarity d)"

lemma config_equiv_refl [simp]: "config_equiv c c"
  by (simp add: config_equiv_def)

lemma config_equiv_sym: "config_equiv c d \<Longrightarrow> config_equiv d c"
  by (simp add: config_equiv_def)

lemma config_equivD:
  assumes "config_equiv c d"
  shows "bc_banner c = bc_banner d" "bc_all_items c = bc_all_items d"
    "map_of (bc_item_by_id c) = map_of (bc_item_by_id d)"
    "map_of (bc_rarity_rates c) = map_of (bc_rarity_rates d)"
    "map_of (bc_featured_rules c) = map_of (bc_featured_rules d)"
    "map_of (bc_pity_rules c) = map_of (bc_pity_rules d)"
    "map_of (bc_featured_item_ids_by_rarity c) = map_of (bc_featured_item_ids_by_rarity d)"
    "dict_index (bc_item_by_id c) = dict_index (bc_item_by_id d)"
    "dict_index (bc_rarity_rates c) = dict_index (bc_rarity_rates d)"
    "dict_index (bc_pity_rules c) = dict_index (bc_pity_rules d)"
  using assms by (simp_all add: config_equiv_def dict_index_def fun_eq_iff)

lemma config_equiv_lookups:
  assumes "config_equiv c d"
  shows "pool_for_rarity c = pool_for_rarity d" "get_rarity_rate c = get_rarity_rate d"
    "is_featured_item c = is_featured_item d" "next_featured_guarantee c = next_featured_guarantee d"
    "pity_after c = pity_after d"
proof -
  show "pool_for_rarity c = pool_for_rarity d" "get_rarity_rate c = get_rarity_rate d"
    "is_featured_item c = is_featured_item d"
    and guarantee: "next_featured_guarantee c = next_featured_guarantee d"
    unfolding fun_eq_iff pool_for_rarity_def get_rarity_rate_def is_featured_item_def
      next_featured_guarantee_def config_equivD[OF assms] by simp_all
  show "pity_after c = pity_after d"
    unfolding fun_eq_iff pity_after_def config_equivD[OF assms] guarantee by simp
qed

lemma config_equiv_rolls:
  assumes "config_equiv c d"
  shows "roll_rarity L c = roll_rarity L d" "roll_item L c = roll_item L d"
  unfolding fun_eq_iff roll_rarity_def roll_item_def config_equivD[OF assms]
    config_equiv_lookups[OF assms]
  by simp_all

lemma config_equiv_step:
  assumes "config_equiv c d"
  shows "pull_step L c = pull_step L d"
  unfolding fun_eq_iff pull_step_def config_equivD[OF assms] config_equiv_lookups[OF assms]
    config_equiv_rolls[OF assms]
  by simp

lemma config_equiv_perform_pulls:
  assumes "config_equiv c d"
  shows "perform_pulls L c = perform_pulls L d"
proof -
  have "pulls_from L c seed i n p g = pulls_from L d seed i n p g" for seed i n p g
    by (induction n arbitrary: i p g) (simp_all add: config_equiv_step[OF assms] split: sum.splits)
  then show ?thesis by (simp add: fun_eq_iff perform_pulls_def)
qed

lemma wf_banner_config_equiv:
  assumes eq: "config_equiv c d" and wf: "wf_banner_config c"
    and items: "wf_items d" "wf_featured d"
  shows "wf_banner_config d"
  using wf items
  unfolding wf_banner_config_def wf_pools_def wf_rules_def config_equivD[OF eq]
    config_equiv_lookups[OF eq]
  by simp

section \<open>Freezing and thawing\<close>

text \<open>
  A config whose rules are filed under their own rarity and whose item index is the one of its
  items, as both catalogs build them.
\<close>

definition filed_config :: "banner_config \<Rightarrow> bool" where
  "filed_config c \<longleftrightarrow>
     distinct (map fst (bc_rarity_rates c)) \<and> (\<forall>(k, r) \<in> set (bc_rarity_rates c). rr_rarity r = k) \<and>
     distinct (map fst (bc_featured_rules c)) \<and> (\<forall>(k, r) \<in> set (bc_featured_rules c). fr_rarity r = k) \<and>
     distinct (map fst (bc_pity_rules c)) \<and> (\<forall>(k, r) \<in> set (bc_pity_rules c). pu_rarity r = k) \<and>
     distinct (map fst (bc_featured_item_ids_by_rarity c)) \<and>
     bc_item_by_id c = dict_comp (map (\<lambda>item. (gi_id item, item)) (bc_all_items c))"

lemma thaw_freeze [simp]:
  "thaw_rate (freeze_rate r) = r" "rrr_rarity (freeze_rate r) = rr_rarity r"
  "thaw_featured (freeze_featured f) = f" "rfr_rarity (freeze_featured f) = fr_rarity f"
  "thaw_pity (freeze_pity p) = p" "rpu_rarity (freeze_pity p) = pu_rarity p"
  by (simp_all add: thaw_rate_def freeze_rate_def thaw_featured_def freeze_featured_def
      thaw_pity_def freeze_pity_def)

lemma refile:
  assumes "distinct (map fst d)" "\<forall>(k, v) \<in> set d. key v = k"
  shows "map_of (dict_comp (map (\<lambda>kv. (key (snd kv), snd kv)) (dict_sorted d))) = map_of d"
proof -
  have "map (\<lambda>kv. (key (snd kv), snd kv)) (dict_sorted d) = dict_sorted d"
    by (rule map_idI) (use assms(2) in auto)
  then show ?thesis
    using assms(1) by (simp add: map_of_dict_comp_distinct distinct_dict_sorted map_of_dict_sorted)
qed

lemma from_banner_config_equiv:
  assumes c: "filed_config c"
    and ctx: "from_banner_config c count seed event_id amount request_id accepted audit = Inr ctx"
  shows "config_equiv (to_banner_config ctx) c"
  using c ctx
  by (auto simp: from_banner_config_def Let_def config_equiv_def to_banner_config_def filed_config_def
      comp_def refile map_of_dict_comp_distinct split: option.splits if_splits)

lemma from_banner_config_filed:
  assumes c: "filed_config c"
    and ctx: "from_banner_config c count seed event_id amount request_id accepted audit = Inr ctx"
  shows "filed_config (to_banner_config ctx)"
proof -
  show ?thesis
    using ctx
    by (auto simp: from_banner_config_def Let_def filed_config_def to_banner_config_def
        thaw_rate_def thaw_featured_def thaw_pity_def
        split: option.splits if_splits dest!: in_set_dict_compD)
qed

lemma from_banner_config_fields:
  assumes "from_banner_config c count seed event_id amount request_id accepted audit = Inr ctx"
  shows "rc_count ctx = count" "rc_seed ctx = seed" "uuid_parse event_id = Some (rc_event_id ctx)"
    "rc_amount_minor ctx = amount" "rc_request_id ctx = request_id" "rc_accepted_at ctx = accepted"
    "rc_audit ctx = audit" "rc_banner ctx = bc_banner c"
    "rc_banner_version_id ctx = bc_banner_version_id c"
    "rc_pity_group_id ctx = restore_group (bc_pity_group_id c) (b_id (bc_banner c))"
    "recovery_context_valid ctx"
  using assms by (auto simp: from_banner_config_def Let_def split: option.splits if_splits)

end
