(* ===== verification/Pull_Audit.thy ===== *)
theory Pull_Audit
  imports Pull_Operations
begin

text \<open>
  \<open>pull_audit.py\<close>: the canonical evidence of a config and its hash, the audit metadata of a
  pull, and the replay that verifies a stored response, with the lemmas that say when no check fails
  and that the evidence depends on no order of the dicts. The guarantees are in \<open>Audit_Guarantees\<close>
  and \<open>Release_Audit\<close>.
\<close>

section \<open>Evidence\<close>

definition item_type_json :: "gacha_item_type \<Rightarrow> json" where
  "item_type_json t = JStr (case t of Character \<Rightarrow> ''character'' | Weapon \<Rightarrow> ''weapon'')"

definition banner_type_json :: "banner_type \<Rightarrow> json" where
  "banner_type_json t =
     JStr (case t of Limited_Character \<Rightarrow> ''limited-character'' | Standard \<Rightarrow> ''standard'')"

text \<open>\<open>item.model_dump(mode="json")\<close> and \<open>banner.model_dump(mode="json")\<close>.\<close>

definition item_json :: "gacha_item \<Rightarrow> json" where
  "item_json i = JObj
     [(''id'', JStr (gi_id i)), (''name'', JStr (gi_name i)), (''subtitle'', JStr (gi_subtitle i)),
      (''rarity'', JInt (gi_rarity i)), (''type'', item_type_json (gi_type i)),
      (''element'', JStr (gi_element i)), (''role'', JStr (gi_role i)),
      (''faction'', JStr (gi_faction i)), (''accent'', JStr (gi_accent i)), (''quote'', JStr (gi_quote i))]"

definition banner_json :: "banner \<Rightarrow> json" where
  "banner_json b = JObj
     [(''id'', JStr (b_id b)), (''name'', JStr (b_name b)), (''short_name'', JStr (b_short_name b)),
      (''type'', banner_type_json (b_type b)), (''description'', JStr (b_description b)),
      (''featured_five_id'', json_opt JStr (b_featured_five_id b)),
      (''featured_four_ids'', JArr (map JStr (b_featured_four_ids b))),
      (''item_pool'', JArr (map JStr (b_item_pool b))),
      (''theme'', JObj [(''primary'', JStr (bt_primary (b_theme b))),
         (''secondary'', JStr (bt_secondary (b_theme b))), (''glow'', JStr (bt_glow (b_theme b)))])]"

definition effective_items :: "banner_config \<Rightarrow> gacha_item list" where
  "effective_items c =
     (let explicit_rarities = List.map_filter (\<lambda>i. map_option gi_rarity (map_of (bc_item_by_id c) i))
            (b_item_pool (bc_banner c));
          selected_ids = b_item_pool (bc_banner c) @
            map gi_id (filter (\<lambda>item. gi_rarity item \<notin> set explicit_rarities) (bc_all_items c))
      in filter (\<lambda>item. gi_id item \<in> set selected_ids) (bc_all_items c))"

definition banner_config_evidence :: "banner_config \<Rightarrow> json" where
  "banner_config_evidence c = JObj
     [(''schema_version'', JInt 1),
      (''banner'', banner_json (bc_banner c)),
      (''pity_group_id'', JStr (bc_pity_group_id c)),
      (''banner_version_id'', json_opt JStr (bc_banner_version_id c)),
      (''banner_version'', JInt (bc_version c)),
      (''items'', JArr (map item_json (effective_items c))),
      (''rarity_rates'', JArr (map (\<lambda>(_, r). JObj
         [(''rarity'', JInt (rr_rarity r)), (''base_rate_ppm'', JInt (rr_base_rate_ppm r)),
          (''roll_order'', JInt (rr_roll_order r))]) (dict_sorted (bc_rarity_rates c)))),
      (''featured_rules'', JArr (map (\<lambda>(_, r). JObj
         [(''rarity'', JInt (fr_rarity r)), (''featured_group'', JStr (fr_featured_group r)),
          (''featured_rate_ppm'', JInt (fr_featured_rate_ppm r)),
          (''guarantee_after_miss'', JBool (fr_guarantee_after_miss r)),
          (''miss_sets_guarantee'', JBool (fr_miss_sets_guarantee r)),
          (''guarantee_state_key'', json_opt JStr (fr_guarantee_state_key r))])
         (dict_sorted (bc_featured_rules c)))),
      (''pity_rules'', JArr (map (\<lambda>(_, r). JObj
         [(''rarity'', JInt (pu_rarity r)), (''counter_key'', JStr (pu_counter_key r)),
          (''hard_pity'', JInt (pu_hard_pity r)),
          (''soft_pity_start'', json_opt JInt (pu_soft_pity_start r)),
          (''soft_pity_increment_ppm'', JInt (pu_soft_pity_increment_ppm r)),
          (''resets_lower_rarity'', JBool (pu_resets_lower_rarity r))])
         (dict_sorted (bc_pity_rules c)))),
      (''featured_item_ids_by_rarity'', JObj (map (\<lambda>(rarity, ids). (show_int rarity, JArr (map JStr ids)))
         (dict_sorted (bc_featured_item_ids_by_rarity c))))]"

definition banner_config_sha256 :: "'g lib \<Rightarrow> banner_config \<Rightarrow> string" where
  "banner_config_sha256 L c =
     lib_sha256 L (json_dumps (lib_float_repr L) False (banner_config_evidence c))"

section \<open>Audit metadata\<close>

text \<open>The model's constraints: \<open>ge=1\<close> and the pattern of a SHA-256 in hexadecimal.\<close>

definition audit_metadata_valid :: "pull_audit_metadata \<Rightarrow> bool" where
  "audit_metadata_valid a \<longleftrightarrow>
     am_schema_version a = 1 \<and>
     (case am_release_number a of None \<Rightarrow> True | Some n \<Rightarrow> 1 \<le> n) \<and>
     (case am_release_snapshot_sha256 a of None \<Rightarrow> True | Some s \<Rightarrow> sha256_text s) \<and>
     sha256_text (am_banner_config_sha256 a)"

definition build_pull_audit_metadata ::
    "'g lib \<Rightarrow> catalog_snapshot \<Rightarrow> banner_config \<Rightarrow> string \<Rightarrow> string \<Rightarrow> pull_audit_metadata result" where
  "build_pull_audit_metadata L s c engine_version engine_build_sha =
     (if cs_source s = ''postgres'' \<and>
         (cs_release_id s = None \<or> cs_release_number s = None \<or> cs_snapshot_sha256 s = None)
      then Inl (ValueError ''postgres catalog snapshot is missing immutable release evidence'')
      else
        (let a = \<lparr>am_schema_version = 1,
                  am_release_id = cs_release_id s,
                  am_release_number = cs_release_number s,
                  am_release_snapshot_sha256 = cs_snapshot_sha256 s,
                  am_banner_version_id = bc_banner_version_id c,
                  am_banner_config_sha256 = banner_config_sha256 L c,
                  am_rng_algorithm_version = rng_algorithm_version,
                  am_engine_version = engine_version,
                  am_engine_build_sha = engine_build_sha\<rparr>
         in if audit_metadata_valid a then Inr a else Inl ValidationError))"

section \<open>Verification\<close>

record pull_audit_verification =
  vr_event_id :: string
  vr_status :: audit_status
  vr_audit :: "pull_audit_metadata option"
  vr_checks :: "(string \<times> bool) list"
  vr_mismatches :: "string list"
  vr_configuration :: "json option"
  vr_recorded_records :: "pull_record list"
  vr_replayed_records :: "pull_record list option"
  vr_recorded_next_pity :: "pity_snapshot option"
  vr_replayed_next_pity :: "pity_snapshot option"

definition early_verdict ::
    "pull_response \<Rightarrow> audit_status \<Rightarrow> (string \<times> bool) list \<Rightarrow> string \<Rightarrow> pull_audit_verification" where
  "early_verdict r status checks reason =
     \<lparr>vr_event_id = re_event_id r, vr_status = status, vr_audit = re_audit r, vr_checks = checks,
      vr_mismatches = [reason], vr_configuration = None, vr_recorded_records = re_records r,
      vr_replayed_records = None, vr_recorded_next_pity = Some (re_next_pity r),
      vr_replayed_next_pity = None\<rparr>"

definition immutable_release_identity :: "pull_audit_metadata \<Rightarrow> catalog_snapshot \<Rightarrow> bool" where
  "immutable_release_identity a s \<longleftrightarrow>
     am_release_id a \<noteq> None \<and> am_release_number a \<noteq> None \<and> am_release_snapshot_sha256 a \<noteq> None \<and>
     cs_release_id s \<noteq> None \<and> cs_release_number s \<noteq> None \<and> cs_snapshot_sha256 s \<noteq> None"

definition identity_checks ::
    "'g lib \<Rightarrow> pull_audit_metadata \<Rightarrow> catalog_snapshot \<Rightarrow> banner_config \<Rightarrow> (string \<times> bool) list" where
  "identity_checks L a s c =
     [(''release_id'', cs_release_id s = am_release_id a),
      (''release_number'', cs_release_number s = am_release_number a),
      (''release_snapshot_sha256'', cs_snapshot_sha256 s = am_release_snapshot_sha256 a),
      (''banner_version_id'', bc_banner_version_id c = am_banner_version_id a),
      (''banner_config_sha256'', banner_config_sha256 L c = am_banner_config_sha256 a),
      (''rng_algorithm_version'', am_rng_algorithm_version a = rng_algorithm_version)]"

definition failed_checks :: "(string \<times> bool) list \<Rightarrow> string list" where
  "failed_checks checks = map fst (filter (\<lambda>(_, passed). \<not> passed) checks)"

definition verify_pull_response ::
    "'g lib \<Rightarrow> pull_response \<Rightarrow> catalog_snapshot \<Rightarrow> pull_audit_verification result" where
  "verify_pull_response L r s =
     (case (re_audit r, re_accepted_at r, re_records r) of
        (Some audit, Some accepted, first # _) \<Rightarrow>
          (if \<not> immutable_release_identity audit s
           then Inr (early_verdict r Unverifiable [(''immutable_release_identity'', False)]
                  ''pull record lacks an immutable catalog release identity'')
           else case banner_config_at s (pr_banner_id first) accepted of
             Inl e \<Rightarrow> Inl e
           | Inr None \<Rightarrow> Inr (early_verdict r Mismatch [(''banner_configuration'', False)]
                  ''recorded banner configuration is absent from the release'')
           | Inr (Some config) \<Rightarrow>
               (let checks = identity_checks L audit s config in
                if am_rng_algorithm_version audit \<noteq> rng_algorithm_version
                then Inr
                  \<lparr>vr_event_id = re_event_id r, vr_status = Unverifiable, vr_audit = Some audit,
                   vr_checks = checks, vr_mismatches = failed_checks checks,
                   vr_configuration = Some (banner_config_evidence config),
                   vr_recorded_records = re_records r, vr_replayed_records = None,
                   vr_recorded_next_pity = Some (re_next_pity r), vr_replayed_next_pity = None\<rparr>
                else case perform_pulls L config (int (length (re_records r)))
                       (without_version (re_previous_pity r)) (re_seed r) of
                    Inl e \<Rightarrow> Inl e
                  | Inr (replayed, state) \<Rightarrow>
                      (let next = with_version state (version (re_previous_pity r) + 1) in
                       if \<not> pity_snapshot_valid next then Inl ValidationError
                       else let all = checks @
                              [(''result_records'', replayed = re_records r),
                               (''next_pity'', next = re_next_pity r),
                               (''state_version'', re_state_version r = version next)];
                              mismatches = failed_checks all
                            in Inr
                             \<lparr>vr_event_id = re_event_id r,
                              vr_status = (if mismatches = [] then Verified else Mismatch),
                              vr_audit = Some audit, vr_checks = all, vr_mismatches = mismatches,
                              vr_configuration = Some (banner_config_evidence config),
                              vr_recorded_records = re_records r, vr_replayed_records = Some replayed,
                              vr_recorded_next_pity = Some (re_next_pity r),
                              vr_replayed_next_pity = Some next\<rparr>)))
      | _ \<Rightarrow> Inr (early_verdict r Unverifiable []
               ''legacy pull record lacks deterministic audit evidence''))"

lemma failed_checks_simps [simp]:
  "failed_checks [] = []"
  "failed_checks ((k, b) # cs) = (if b then failed_checks cs else k # failed_checks cs)"
  "failed_checks (cs @ ds) = failed_checks cs @ failed_checks ds"
  by (simp_all add: failed_checks_def)

lemma failed_identity_checks:
  "failed_checks (identity_checks L a s c) = [] \<longleftrightarrow>
     cs_release_id s = am_release_id a \<and> cs_release_number s = am_release_number a \<and>
     cs_snapshot_sha256 s = am_release_snapshot_sha256 a \<and>
     bc_banner_version_id c = am_banner_version_id a \<and>
     banner_config_sha256 L c = am_banner_config_sha256 a \<and>
     am_rng_algorithm_version a = rng_algorithm_version"
  by (simp add: identity_checks_def)

text \<open>What a response claims of its release and replay, stated without the checking code.\<close>

definition faithful_replay :: "'g lib \<Rightarrow> pull_response \<Rightarrow> catalog_snapshot \<Rightarrow> bool" where
  "faithful_replay L r s \<longleftrightarrow>
     (\<exists>audit accepted config state.
        re_audit r = Some audit \<and> re_accepted_at r = Some accepted \<and> re_records r \<noteq> [] \<and>
        immutable_release_identity audit s \<and>
        banner_config_at s (pr_banner_id (hd (re_records r))) accepted = Inr (Some config) \<and>
        failed_checks (identity_checks L audit s config) = [] \<and>
        perform_pulls L config (int (length (re_records r))) (without_version (re_previous_pity r))
          (re_seed r) = Inr (re_records r, state) \<and>
        re_next_pity r = with_version state (version (re_previous_pity r) + 1) \<and>
        re_state_version r = version (re_previous_pity r) + 1 \<and>
        pity_snapshot_valid (re_next_pity r))"

lemma verify_pull_response_verified_iff:
  "(\<exists>v. verify_pull_response L r s = Inr v \<and> vr_status v = Verified) \<longleftrightarrow> faithful_replay L r s"
proof
  assume "\<exists>v. verify_pull_response L r s = Inr v \<and> vr_status v = Verified"
  then obtain v where v: "verify_pull_response L r s = Inr v" "vr_status v = Verified" by blast
  then show "faithful_replay L r s"
    unfolding verify_pull_response_def faithful_replay_def Let_def
    by (auto simp: early_verdict_def failed_identity_checks
        split: option.splits list.splits sum.splits prod.splits if_splits)
next
  assume "faithful_replay L r s"
  then show "\<exists>v. verify_pull_response L r s = Inr v \<and> vr_status v = Verified"
    unfolding faithful_replay_def verify_pull_response_def
    by (auto simp: failed_identity_checks Let_def split: list.splits)
qed

lemma evidence_equiv:
  assumes "config_equiv c d" "bc_pity_group_id c = bc_pity_group_id d"
    "bc_banner_version_id c = bc_banner_version_id d" "bc_version c = bc_version d"
    "filed_config c" "filed_config d"
  shows "banner_config_evidence c = banner_config_evidence d"
proof -
  note eq = config_equivD[OF assms(1)]
  have s: "dict_sorted (bc_rarity_rates c) = dict_sorted (bc_rarity_rates d)"
    "dict_sorted (bc_featured_rules c) = dict_sorted (bc_featured_rules d)"
    "dict_sorted (bc_pity_rules c) = dict_sorted (bc_pity_rules d)"
    "dict_sorted (bc_featured_item_ids_by_rarity c) = dict_sorted (bc_featured_item_ids_by_rarity d)"
    using assms(5,6) eq by (auto simp: filed_config_def intro!: dict_sorted_cong)
  have "effective_items c = effective_items d"
    unfolding effective_items_def eq by simp
  then show ?thesis unfolding banner_config_evidence_def s eq assms(2-4) by simp
qed

end
