(* ===== verification/Audit_Guarantees.thy ===== *)
theory Audit_Guarantees
  imports Pull_Audit Pull_Guarantees
begin

text \<open>
  The promises of the recovery context and of the audit: a recovered pull is the pull that was
  charged, the verdict "verified" means exactly a faithful replay, and the one place where the
  evidence does not determine the result.
\<close>

section \<open>Recovery replays the charged pull\<close>

lemma static_filed: "filed_config (static_config b)"
  by (auto simp: filed_config_def static_config_def static_banner_config_def static_item_by_id_def Let_def)

text \<open>C15: the recovery context loses nothing the engine reads. A config filed by rarity, frozen into a
  recovery context and thawed again, gives the same pull for every count, pity and seed, and the
  same evidence hash, so a recovered pull is the pull that was charged.\<close>

theorem recovery_context_roundtrip:
  assumes c: "filed_config c" "bc_pity_group_id c \<noteq> []"
    and ctx: "from_banner_config c count seed event_id amount request_id accepted audit = Inr ctx"
  shows "perform_pulls L (to_banner_config ctx) = perform_pulls L c
    \<and> banner_config_sha256 L (to_banner_config ctx) = banner_config_sha256 L c"
proof
  have eq: "config_equiv (to_banner_config ctx) c" by (rule from_banner_config_equiv[OF c(1) ctx])
  then show "perform_pulls L (to_banner_config ctx) = perform_pulls L c"
    by (rule config_equiv_perform_pulls)
  have "filed_config (to_banner_config ctx)"
    by (rule from_banner_config_filed[OF c(1) ctx])
  moreover have "bc_pity_group_id (to_banner_config ctx) = bc_pity_group_id c"
    "bc_banner_version_id (to_banner_config ctx) = bc_banner_version_id c"
    "bc_version (to_banner_config ctx) = bc_version c"
    using ctx c(2) by (auto simp: from_banner_config_def Let_def to_banner_config_def restore_group_def
        split: option.splits if_splits)
  ultimately show "banner_config_sha256 L (to_banner_config ctx) = banner_config_sha256 L c"
    using evidence_equiv[OF eq] c(1) by (simp add: banner_config_sha256_def)
qed

lemma limited_context:
  obtains ctx where "from_banner_config (static_config limited_banner) 10 ''seed'' (uuid_str 7) 100 [] None None
    = Inr ctx"
proof -
  have sel: "bc_pity_group_id (static_config limited_banner) = ''limited-character-001''"
    by (simp add: static_config_def static_banner_config_def Let_def limited_banner_def)
  show ?thesis
    using that unfolding from_banner_config_def Let_def uuid_parse_str
    by (auto simp: recovery_context_valid_def sel restore_group_def py_len_def)
qed

lemma recovery_context_roundtrip_witness:
  "\<exists>ctx. from_banner_config (static_config limited_banner) 10 ''seed'' (uuid_str 7) 100 [] None None = Inr ctx
     \<and> perform_pulls sample_lib (to_banner_config ctx) = perform_pulls sample_lib (static_config limited_banner)"
proof -
  have "bc_pity_group_id (static_config limited_banner) \<noteq> []"
    by (simp add: static_config_def static_banner_config_def Let_def limited_banner_def)
  then show ?thesis
    using limited_context recovery_context_roundtrip[OF static_filed] by metis
qed

section \<open>The verdict\<close>

text \<open>C16: what "verified" means. The verifier answers "verified" exactly when the response names an
  immutable release whose identity, banner version, config hash and generator version all match,
  and pulling again with the recorded seed, count and previous pity gives exactly the recorded
  records, the recorded next pity and the version after the previous one.\<close>

theorem verified_iff_faithful_replay:
  "(\<exists>v. verify_pull_response L r s = Inr v \<and> vr_status v = Verified) \<longleftrightarrow>
   (\<exists>audit accepted config state.
      re_audit r = Some audit \<and> re_accepted_at r = Some accepted \<and> re_records r \<noteq> [] \<and>
      immutable_release_identity audit s \<and>
      banner_config_at s (pr_banner_id (hd (re_records r))) accepted = Inr (Some config) \<and>
      cs_release_id s = am_release_id audit \<and> cs_release_number s = am_release_number audit \<and>
      cs_snapshot_sha256 s = am_release_snapshot_sha256 audit \<and>
      bc_banner_version_id config = am_banner_version_id audit \<and>
      banner_config_sha256 L config = am_banner_config_sha256 audit \<and>
      am_rng_algorithm_version audit = rng_algorithm_version \<and>
      perform_pulls L config (int (length (re_records r))) (without_version (re_previous_pity r))
        (re_seed r) = Inr (re_records r, state) \<and>
      re_next_pity r = with_version state (version (re_previous_pity r) + 1) \<and>
      re_state_version r = version (re_previous_pity r) + 1 \<and>
      pity_snapshot_valid (re_next_pity r))"
  unfolding verify_pull_response_verified_iff faithful_replay_def failed_identity_checks
  by (auto 5 0)

section \<open>What the evidence leaves out\<close>

text \<open>
  A banner whose pool names a single five star item: after a miss the engine falls back to the
  other five star items of the whole catalog, which the evidence does not list.
\<close>

definition gap_config :: "gacha_item \<Rightarrow> banner_config" where
  "gap_config other =
     (let items = [gacha_items ! 0, other, gacha_items ! 3, gacha_items ! 6] in
      static_banner_config
        (limited_banner\<lparr>b_item_pool := [''char-luoxian'', ''char-qinglan'', ''weapon-cinder''],
           b_featured_four_ids := []\<rparr>)
        items (dict_comp (map (\<lambda>i. (gi_id i, i)) items)))"

definition unlucky_lib :: "nat lib" where
  "unlucky_lib = sample_lib\<lparr>lib_random := (\<lambda>g. (3 / 4, g)), lib_randrange := (\<lambda>n g. (0, g))\<rparr>"

lemma unlucky_lib_lawful: "rng_lawful unlucky_lib"
  by (simp add: unlucky_lib_def rng_lawful_def)

lemma half_rate: "int_truediv 500000 1000000 = 1 / 2"
  using fl_powi[of "-1"] by (simp add: int_truediv_def power_int_minus)

lemma static_item_nth:
  "gi_id (gacha_items ! 0) = ''char-luoxian''" "gi_rarity (gacha_items ! 0) = 5"
  "gi_id (gacha_items ! 1) = ''char-xingjian''" "gi_rarity (gacha_items ! 1) = 5"
  "gi_id (gacha_items ! 2) = ''weapon-aurora''" "gi_rarity (gacha_items ! 2) = 5"
  "gi_id (gacha_items ! 3) = ''char-qinglan''" "gi_rarity (gacha_items ! 3) = 4"
  "gi_id (gacha_items ! 6) = ''weapon-cinder''" "gi_rarity (gacha_items ! 6) = 3"
proof -
  have "length (map (\<lambda>i. (gi_id i, gi_rarity i)) gacha_items) = 8" unfolding static_item_ids by simp
  then have "length gacha_items = 8" by simp
  then have "(gi_id (gacha_items ! n), gi_rarity (gacha_items ! n)) =
      map (\<lambda>i. (gi_id i, gi_rarity i)) gacha_items ! n" if "n < 8" for n
    using that by simp
  note this[unfolded static_item_ids]
  from this[of 0] this[of 1] this[of 2] this[of 3] this[of 6] show
    "gi_id (gacha_items ! 0) = ''char-luoxian''" "gi_rarity (gacha_items ! 0) = 5"
    "gi_id (gacha_items ! 1) = ''char-xingjian''" "gi_rarity (gacha_items ! 1) = 5"
    "gi_id (gacha_items ! 2) = ''weapon-aurora''" "gi_rarity (gacha_items ! 2) = 5"
    "gi_id (gacha_items ! 3) = ''char-qinglan''" "gi_rarity (gacha_items ! 3) = 4"
    "gi_id (gacha_items ! 6) = ''weapon-cinder''" "gi_rarity (gacha_items ! 6) = 3"
    by simp_all
qed

definition gap_other :: "gacha_item \<Rightarrow> bool" where
  "gap_other x \<longleftrightarrow> gi_rarity x = 5 \<and> gi_id x \<notin> {''char-luoxian'', ''char-qinglan'', ''weapon-cinder''}"

lemma gap_config_fields:
  "bc_banner (gap_config x) = limited_banner
     \<lparr>b_item_pool := [''char-luoxian'', ''char-qinglan'', ''weapon-cinder''], b_featured_four_ids := []\<rparr>"
  "bc_all_items (gap_config x) = [gacha_items ! 0, x, gacha_items ! 3, gacha_items ! 6]"
  "bc_item_by_id (gap_config x) =
     dict_comp (map (\<lambda>i. (gi_id i, i)) [gacha_items ! 0, x, gacha_items ! 3, gacha_items ! 6])"
  "bc_rarity_rates (gap_config x) = bc_rarity_rates (static_config limited_banner)"
  "bc_pity_rules (gap_config x) = bc_pity_rules (static_config limited_banner)"
  "bc_featured_rules (gap_config x) = [(5, \<lparr>fr_rarity = 5, fr_featured_group = ''five_up'',
     fr_featured_rate_ppm = 500000, fr_guarantee_after_miss = True, fr_miss_sets_guarantee = True,
     fr_guarantee_state_key = Some ''guaranteed_featured_five''\<rparr>)]"
  "bc_featured_item_ids_by_rarity (gap_config x) = [(5, [''char-luoxian''])]"
  "bc_pity_group_id (gap_config x) = b_id limited_banner"
  "bc_banner_version_id (gap_config x) = None" "bc_version (gap_config x) = 1"
  by (simp_all add: gap_config_def static_config_def static_banner_config_def Let_def limited_banner_def)

lemma gap_lookup:
  assumes "gap_other x"
  shows "map_of (bc_item_by_id (gap_config x)) =
    [''char-luoxian'' \<mapsto> gacha_items ! 0, gi_id x \<mapsto> x, ''char-qinglan'' \<mapsto> gacha_items ! 3,
     ''weapon-cinder'' \<mapsto> gacha_items ! 6]"
  using assms unfolding gap_config_fields map_of_dict_comp
  by (auto simp: static_item_nth gap_other_def fun_eq_iff)

lemma gap_effective_items:
  assumes x: "gap_other x"
  shows "effective_items (gap_config x) = [gacha_items ! 0, gacha_items ! 3, gacha_items ! 6]"
proof -
  have "List.map_filter (\<lambda>i. map_option gi_rarity (map_of (bc_item_by_id (gap_config x)) i))
      [''char-luoxian'', ''char-qinglan'', ''weapon-cinder''] = [5, 4, 3]"
    unfolding gap_lookup[OF x] using x by (simp add: static_item_nth gap_other_def)
  then show ?thesis
    using x by (simp add: effective_items_def gap_config_fields(1,2) Let_def static_item_nth gap_other_def)
qed

lemma gap_pull:
  assumes x: "gap_other x" and p: "since_five p = 79" "\<not> guaranteed_featured_five p"
  shows "\<exists>q rec. perform_pulls unlucky_lib (gap_config x) 1 p seed = Inr ([rec], q) \<and> pr_item_id rec = gi_id x"
proof -
  let ?c = "gap_config x"
  have rarity: "roll_rarity unlucky_lib ?c p g = Inr (5, g)" for g
    by (simp add: roll_rarity_def gap_config_fields static_config_rules p)
  have "List.map_filter (\<lambda>i. case map_of (bc_item_by_id ?c) i of None \<Rightarrow> None
      | Some item \<Rightarrow> if gi_rarity item = 5 \<and> i \<notin> set [''char-luoxian''] then Some item else None)
      [''char-luoxian'', ''char-qinglan'', ''weapon-cinder''] = []"
    unfolding gap_lookup[OF x] using x by (simp add: static_item_nth gap_other_def)
  then have pool: "pool_for_rarity ?c 5 [''char-luoxian''] = [x]"
    using x by (simp add: pool_for_rarity_def gap_config_fields(1,2) static_item_nth gap_other_def)
  have item: "roll_item unlucky_lib ?c 5 p g = Inr (x, g)" for g
    using p by (simp add: roll_item_def gap_config_fields(6,7) pool has_featured_guarantee_def pity_attr_def
        featured_rate_def half_rate unlucky_lib_def pick_random_def)
  show ?thesis
    by (simp add: perform_pulls_def pull_step_def rarity item Let_def pity_after_def gap_config_fields(5)
        static_config_rules)
qed

text \<open>The evidence does not cover every input of a pull. Two configs that differ only in the five
  star item outside the banner's pool, to which a missed feature falls back, have the same evidence
  and the same hash, yet from the same pity and seed the engine hands out different items.\<close>

theorem evidence_omits_fallback_items:
  "let c = gap_config (gacha_items ! 1); d = gap_config (gacha_items ! 2);
       p = \<lparr>since_five = 79, since_four = 0, guaranteed_featured_five = False\<rparr>
   in banner_config_evidence c = banner_config_evidence d
    \<and> banner_config_sha256 L c = banner_config_sha256 L d
    \<and> (\<exists>q rec. perform_pulls unlucky_lib c 1 p seed = Inr ([rec], q) \<and> pr_item_id rec = ''char-xingjian'')
    \<and> (\<exists>q rec. perform_pulls unlucky_lib d 1 p seed = Inr ([rec], q) \<and> pr_item_id rec = ''weapon-aurora'')"
proof -
  let ?p = "\<lparr>since_five = 79, since_four = 0, guaranteed_featured_five = False\<rparr>"
  have o: "gap_other (gacha_items ! 1)" "gap_other (gacha_items ! 2)"
    unfolding gap_other_def static_item_nth by simp_all
  have e: "banner_config_evidence (gap_config (gacha_items ! 1)) =
      banner_config_evidence (gap_config (gacha_items ! 2))"
    unfolding banner_config_evidence_def gap_effective_items[OF o(1)] gap_effective_items[OF o(2)]
      gap_config_fields ..
  show ?thesis
    using e gap_pull[OF o(1), of ?p seed] gap_pull[OF o(2), of ?p seed]
    unfolding static_item_nth banner_config_sha256_def Let_def by simp
qed

end
