(* ===== verification/Gacha_Effects.thy ===== *)
theory Gacha_Effects
  imports Gacha_Prelude
begin

text \<open>
  Stateful code that may raise: a function from a state to a result and the state it leaves,
  which an exception does not roll back. The combinators are the control structures of the
  source (sequencing, \<open>raise\<close>, \<open>try\<close>/\<open>except\<close>, \<open>try\<close>/\<open>finally\<close>, \<open>for\<close>), \<open>transaction\<close> is a
  database transaction, which does roll back. \<open>guarantees R m\<close> says that every run of \<open>m\<close>
  relates the state before to the state after by \<open>R\<close>; its rules follow the combinators and
  are collected in \<open>guarantees_intros\<close>.
\<close>

type_synonym ('s, 'a) eff = "'s \<Rightarrow> 'a result \<times> 's"

named_theorems guarantees_intros

section \<open>Combinators\<close>

definition eff_return :: "'a \<Rightarrow> ('s, 'a) eff" where
  "eff_return x s = (Inr x, s)"

definition eff_raise :: "exn \<Rightarrow> ('s, 'a) eff" where
  "eff_raise e s = (Inl e, s)"

definition eff_lift :: "'a result \<Rightarrow> ('s, 'a) eff" where
  "eff_lift r s = (r, s)"

definition eff_bind :: "('s, 'a) eff \<Rightarrow> ('a \<Rightarrow> ('s, 'b) eff) \<Rightarrow> ('s, 'b) eff" where
  "eff_bind m f s = (case m s of (Inl e, s') \<Rightarrow> (Inl e, s') | (Inr x, s') \<Rightarrow> f x s')"

definition eff_then :: "('s, 'a) eff \<Rightarrow> ('s, 'b) eff \<Rightarrow> ('s, 'b) eff" where
  "eff_then m n = eff_bind m (\<lambda>_. n)"

text \<open>\<open>try: m except e: handler e\<close>; a handler that does not match raises again.\<close>

definition eff_catch :: "('s, 'a) eff \<Rightarrow> (exn \<Rightarrow> ('s, 'a) eff) \<Rightarrow> ('s, 'a) eff" where
  "eff_catch m handler s = (case m s of (Inl e, s') \<Rightarrow> handler e s' | (Inr x, s') \<Rightarrow> (Inr x, s'))"

text \<open>\<open>try: m except e: h e else: k x\<close>: exceptions of \<open>k\<close> are not handled.\<close>

definition eff_try ::
    "('s, 'a) eff \<Rightarrow> (exn \<Rightarrow> ('s, 'b) eff) \<Rightarrow> ('a \<Rightarrow> ('s, 'b) eff) \<Rightarrow> ('s, 'b) eff" where
  "eff_try m handler k s = (case m s of (Inl e, s') \<Rightarrow> handler e s' | (Inr x, s') \<Rightarrow> k x s')"

definition eff_finally :: "('s, 'a) eff \<Rightarrow> ('s, unit) eff \<Rightarrow> ('s, 'a) eff" where
  "eff_finally m n s =
     (case m s of (r, s') \<Rightarrow> (case n s' of (Inl e, s'') \<Rightarrow> (Inl e, s'') | (Inr _, s'') \<Rightarrow> (r, s'')))"

definition transaction :: "('s, 'a) eff \<Rightarrow> ('s, 'a) eff" where
  "transaction m s = (case m s of (Inl e, s') \<Rightarrow> (Inl e, s) | (Inr x, s') \<Rightarrow> (Inr x, s'))"

definition eff_map_error :: "(exn \<Rightarrow> exn) \<Rightarrow> ('s, 'a) eff \<Rightarrow> ('s, 'a) eff" where
  "eff_map_error f m s = (case m s of (Inl e, s') \<Rightarrow> (Inl (f e), s') | (Inr x, s') \<Rightarrow> (Inr x, s'))"

fun eff_for :: "'a list \<Rightarrow> ('a \<Rightarrow> ('s, unit) eff) \<Rightarrow> ('s, unit) eff" where
  "eff_for [] f = eff_return ()"
| "eff_for (x # xs) f = eff_then (f x) (eff_for xs f)"

lemmas eff_defs =
  eff_return_def eff_raise_def eff_lift_def eff_bind_def eff_then_def eff_catch_def eff_try_def
  eff_finally_def transaction_def eff_map_error_def

lemma eff_return_bind [simp]: "eff_bind (eff_return x) f = f x"
  by (simp add: fun_eq_iff eff_defs)

lemma eff_raise_bind [simp]: "eff_bind (eff_raise e) f = eff_raise e"
  by (simp add: fun_eq_iff eff_defs)

lemma eff_bind_assoc: "eff_bind (eff_bind m f) g = eff_bind m (\<lambda>x. eff_bind (f x) g)"
  by (simp add: fun_eq_iff eff_defs split: prod.splits sum.splits)

lemma eff_bind_InrE:
  assumes "eff_bind m f s = (Inr y, s')"
  obtains x s1 where "m s = (Inr x, s1)" "f x s1 = (Inr y, s')"
  using assms by (auto simp: eff_bind_def split: prod.splits sum.splits)

section \<open>Guarantees\<close>

definition guarantees :: "('s \<Rightarrow> 's \<Rightarrow> bool) \<Rightarrow> ('s, 'a) eff \<Rightarrow> bool" where
  "guarantees R m \<longleftrightarrow> (\<forall>s. R s (snd (m s)))"

lemma guaranteesI: "(\<And>s r s'. m s = (r, s') \<Longrightarrow> R s s') \<Longrightarrow> guarantees R m"
  unfolding guarantees_def by (metis prod.collapse)

lemma guaranteesD: "guarantees R m \<Longrightarrow> m s = (r, s') \<Longrightarrow> R s s'"
  unfolding guarantees_def by (metis snd_conv)

text \<open>The relations in use are preorders.\<close>

definition preorder_rel :: "('s \<Rightarrow> 's \<Rightarrow> bool) \<Rightarrow> bool" where
  "preorder_rel R \<longleftrightarrow> reflp R \<and> transp R"

lemma preorder_relD:
  "preorder_rel R \<Longrightarrow> R s s" "preorder_rel R \<Longrightarrow> R s t \<Longrightarrow> R t u \<Longrightarrow> R s u"
  by (auto simp: preorder_rel_def dest: reflpD transpD)

lemma preorder_rel_rtranclp [simp]: "preorder_rel R\<^sup>*\<^sup>*"
  by (auto simp: preorder_rel_def intro!: reflpI transpI)

lemma guarantees_pure [guarantees_intros]:
  "preorder_rel R \<Longrightarrow> guarantees R (eff_return x)"
  "preorder_rel R \<Longrightarrow> guarantees R (eff_raise e)"
  "preorder_rel R \<Longrightarrow> guarantees R (eff_lift r)"
  by (auto simp: guarantees_def eff_defs dest: preorder_relD)

lemma guarantees_bind [guarantees_intros]:
  "preorder_rel R \<Longrightarrow> guarantees R m \<Longrightarrow> (\<And>x. guarantees R (f x)) \<Longrightarrow> guarantees R (eff_bind m f)"
  by (rule guaranteesI)
     (auto simp: eff_bind_def dest: guaranteesD preorder_relD(2) split: prod.splits sum.splits)

lemma guarantees_then [guarantees_intros]:
  "preorder_rel R \<Longrightarrow> guarantees R m \<Longrightarrow> guarantees R n \<Longrightarrow> guarantees R (eff_then m n)"
  unfolding eff_then_def by (rule guarantees_bind)

lemma guarantees_catch [guarantees_intros]:
  "preorder_rel R \<Longrightarrow> guarantees R m \<Longrightarrow> (\<And>e. guarantees R (h e)) \<Longrightarrow> guarantees R (eff_catch m h)"
  by (rule guaranteesI)
     (auto simp: eff_catch_def dest: guaranteesD preorder_relD(2) split: prod.splits sum.splits)

lemma guarantees_try [guarantees_intros]:
  "preorder_rel R \<Longrightarrow> guarantees R m \<Longrightarrow> (\<And>e. guarantees R (h e)) \<Longrightarrow> (\<And>x. guarantees R (k x))
   \<Longrightarrow> guarantees R (eff_try m h k)"
  by (rule guaranteesI)
     (force simp: eff_try_def intro: preorder_relD(2) dest: guaranteesD split: prod.splits sum.splits)

lemma guarantees_finally [guarantees_intros]:
  "preorder_rel R \<Longrightarrow> guarantees R m \<Longrightarrow> guarantees R n \<Longrightarrow> guarantees R (eff_finally m n)"
  by (rule guaranteesI)
     (auto simp: eff_finally_def dest: guaranteesD preorder_relD(2) split: prod.splits sum.splits)

lemma guarantees_transaction [guarantees_intros]:
  "preorder_rel R \<Longrightarrow> guarantees R m \<Longrightarrow> guarantees R (transaction m)"
  by (rule guaranteesI)
     (auto simp: transaction_def dest: guaranteesD preorder_relD(1) split: prod.splits sum.splits)

lemma guarantees_map_error [guarantees_intros]:
  "guarantees R m \<Longrightarrow> guarantees R (eff_map_error f m)"
  by (rule guaranteesI)
     (auto simp: eff_map_error_def dest: guaranteesD split: prod.splits sum.splits)

lemma guarantees_for [guarantees_intros]:
  "preorder_rel R \<Longrightarrow> (\<And>x. guarantees R (f x)) \<Longrightarrow> guarantees R (eff_for xs f)"
  by (induction xs) (simp_all add: guarantees_pure guarantees_then)

lemma guarantees_if [guarantees_intros]:
  "(b \<Longrightarrow> guarantees R m) \<Longrightarrow> (\<not> b \<Longrightarrow> guarantees R n) \<Longrightarrow> guarantees R (if b then m else n)"
  by simp

lemma guarantees_case_option [guarantees_intros]:
  "(x = None \<Longrightarrow> guarantees R m) \<Longrightarrow> (\<And>y. x = Some y \<Longrightarrow> guarantees R (f y)) \<Longrightarrow>
   guarantees R (case x of None \<Rightarrow> m | Some y \<Rightarrow> f y)"
  by (cases x) simp_all

lemma guarantees_case_sum [guarantees_intros]:
  "(\<And>y. x = Inl y \<Longrightarrow> guarantees R (f y)) \<Longrightarrow> (\<And>y. x = Inr y \<Longrightarrow> guarantees R (g y)) \<Longrightarrow>
   guarantees R (case x of Inl y \<Rightarrow> f y | Inr y \<Rightarrow> g y)"
  by (cases x) simp_all

lemma guarantees_case_prod [guarantees_intros]:
  "(\<And>y z. x = (y, z) \<Longrightarrow> guarantees R (f y z)) \<Longrightarrow> guarantees R (case x of (y, z) \<Rightarrow> f y z)"
  by (cases x) simp

lemma guarantees_let [guarantees_intros]: "guarantees R (f x) \<Longrightarrow> guarantees R (let y = x in f y)"
  by simp

lemma guarantees_mono: "guarantees R m \<Longrightarrow> (\<And>s t. R s t \<Longrightarrow> Q s t) \<Longrightarrow> guarantees Q m"
  by (simp add: guarantees_def)

section \<open>Weakest preconditions\<close>

text \<open>
  \<open>wp m Q X s\<close>: run from \<open>s\<close>, \<open>m\<close> ends in a state that satisfies \<open>Q x\<close> when it returns \<open>x\<close>
  and \<open>X e\<close> when it raises \<open>e\<close>. The equations in \<open>wp_simps\<close> push it through the combinators.
\<close>

definition wp :: "('s, 'a) eff \<Rightarrow> ('a \<Rightarrow> 's \<Rightarrow> bool) \<Rightarrow> (exn \<Rightarrow> 's \<Rightarrow> bool) \<Rightarrow> 's \<Rightarrow> bool" where
  "wp m Q X s = (case m s of (Inl e, s') \<Rightarrow> X e s' | (Inr x, s') \<Rightarrow> Q x s')"

named_theorems wp_simps

lemma wp_pure [wp_simps]:
  "wp (eff_return x) Q X s = Q x s"
  "wp (eff_raise e) Q X s = X e s"
  "wp (eff_lift r) Q X s = (case r of Inl e \<Rightarrow> X e s | Inr x \<Rightarrow> Q x s)"
  by (simp_all add: wp_def eff_defs split: sum.splits)

lemma wp_bind [wp_simps]: "wp (eff_bind m f) Q X s = wp m (\<lambda>x. wp (f x) Q X) X s"
  by (simp add: wp_def eff_defs split: prod.splits sum.splits)

lemma wp_then [wp_simps]: "wp (eff_then m n) Q X s = wp m (\<lambda>_. wp n Q X) X s"
  by (simp add: wp_def eff_defs split: prod.splits sum.splits)

lemma wp_catch [wp_simps]: "wp (eff_catch m h) Q X s = wp m Q (\<lambda>e. wp (h e) Q X) s"
  by (simp add: wp_def eff_defs split: prod.splits sum.splits)

lemma wp_try [wp_simps]: "wp (eff_try m h k) Q X s = wp m (\<lambda>x. wp (k x) Q X) (\<lambda>e. wp (h e) Q X) s"
  by (simp add: wp_def eff_defs split: prod.splits sum.splits)

lemma wp_finally [wp_simps]:
  "wp (eff_finally m n) Q X s = wp m (\<lambda>x. wp n (\<lambda>_. Q x) X) (\<lambda>e. wp n (\<lambda>_. X e) X) s"
  by (simp add: wp_def eff_defs split: prod.splits sum.splits)

lemma wp_if [wp_simps]: "wp (if b then m else n) Q X s = (if b then wp m Q X s else wp n Q X s)"
  by simp

lemma wp_mono:
  "wp m Q X s \<Longrightarrow> (\<And>x s'. Q x s' \<Longrightarrow> Q' x s') \<Longrightarrow> (\<And>e s'. X e s' \<Longrightarrow> X' e s') \<Longrightarrow> wp m Q' X' s"
  by (auto simp: wp_def split: prod.splits sum.splits)

lemma wpI:
  "(\<And>x s'. m s = (Inr x, s') \<Longrightarrow> Q x s') \<Longrightarrow> (\<And>e s'. m s = (Inl e, s') \<Longrightarrow> X e s') \<Longrightarrow> wp m Q X s"
  by (auto simp: wp_def split: prod.splits sum.splits)

lemma wpD:
  "wp m Q X s \<Longrightarrow> m s = (Inr x, s') \<Longrightarrow> Q x s'"
  "wp m Q X s \<Longrightarrow> m s = (Inl e, s') \<Longrightarrow> X e s'"
  by (simp_all add: wp_def)

lemma wp_conj: "wp m Q X s \<Longrightarrow> wp m Q' X' s \<Longrightarrow> wp m (\<lambda>x s'. Q x s' \<and> Q' x s') (\<lambda>e s'. X e s' \<and> X' e s') s"
  by (auto simp: wp_def split: prod.splits sum.splits)

lemma guarantees_wp: "guarantees R m \<Longrightarrow> wp m (\<lambda>_. R s) (\<lambda>_. R s) s"
  by (auto simp: wp_def guarantees_def split: prod.splits sum.splits) (metis snd_conv)+

end
