(* ===== verification/Postgres_State.thy ===== *)
theory Postgres_State
  imports Pull_Operations Gacha_Effects "HOL-Library.Product_Lexorder" "HOL-Library.Option_ord"
begin

text \<open>
  \<open>postgres_state.py\<close> with the tables it works on. \<open>database\<close> holds the rows of the two tables
  of the schema \<open>gacha_runtime\<close>; one definition per SQL statement, one per method of
  \<open>PostgresGachaStateStore\<close>. The tables' primary and unique keys, CHECK constraints and the
  trigger \<open>protect_pull_audit_evidence\<close> come from \<open>migrations/\<close>; a statement that violates
  one raises and changes nothing. \<open>now()\<close>, \<open>uuid4()\<close> and what other sessions do between the
  statements of one method are arguments. JSON columns hold the models they encode.
\<close>

section \<open>Tables\<close>

record pity_row =
  pt_user_id :: uuid
  pt_banner_id :: string
  pt_pity_group_id :: string
  pt_since_five :: int
  pt_since_four :: int
  pt_guaranteed_featured_five :: bool
  pt_version :: int
  pt_created_at :: instant
  pt_updated_at :: instant

record op_row =
  op_id :: uuid
  op_user_id :: uuid
  op_key_hash :: string
  op_request_hash :: string
  op_status :: pull_operation_status
  op_response :: "pull_response option"
  op_event :: "pull_completed_event option"
  op_error_code :: "string option"
  op_error_message :: "string option"
  op_recovery_locked_until :: "instant option"
  op_created_at :: instant
  op_updated_at :: instant
  op_processing_token :: "uuid option"
  op_processing_lease_until :: "instant option"
  op_recovery_context :: "pull_recovery_context option"
  op_request_id :: "uuid option"

record database =
  db_pity :: "pity_row list"
  db_ops :: "op_row list"

type_synonym 'a db_op = "(database, 'a) eff"

section \<open>Constraints and triggers\<close>

definition pity_checks :: "pity_row \<Rightarrow> bool" where
  "pity_checks r \<longleftrightarrow>
     0 < py_len (pt_banner_id r) \<and> py_len (pt_banner_id r) \<le> 100 \<and>
     0 < py_len (pt_pity_group_id r) \<and> py_len (pt_pity_group_id r) \<le> 100 \<and>
     0 \<le> pt_since_five r \<and> pt_since_five r < 2 ^ 31 \<and>
     0 \<le> pt_since_four r \<and> pt_since_four r < 2 ^ 31 \<and>
     0 \<le> pt_version r \<and> pt_version r < 2 ^ 63"

definition op_checks :: "op_row \<Rightarrow> bool" where
  "op_checks r \<longleftrightarrow>
     sha256_text (op_key_hash r) \<and> sha256_text (op_request_hash r) \<and>
     (case op_error_code r of None \<Rightarrow> True | Some c \<Rightarrow> py_len c \<le> 100) \<and>
     (case op_error_message r of None \<Rightarrow> True | Some m \<Rightarrow> py_len m \<le> 1000)"

text \<open>\<open>protect_pull_audit_evidence\<close> for an update of \<open>old\<close> to \<open>new\<close>.\<close>

definition protect_update :: "op_row \<Rightarrow> op_row \<Rightarrow> bool" where
  "protect_update old new \<longleftrightarrow>
     op_status old \<noteq> Succeeded \<and>
     (op_status old \<in> {Event_Pending, Event_Published} \<longrightarrow>
        op_status new \<in> {op_status old, Event_Published, Succeeded} \<and>
        op_request_hash new = op_request_hash old \<and>
        op_response new = op_response old \<and> op_event new = op_event old)"

definition event_ids :: "op_row list \<Rightarrow> string list" where
  "event_ids rows = List.map_filter (\<lambda>r. map_option re_event_id (op_response r)) rows"

definition constraint_violation :: exn where
  "constraint_violation = OtherException ''constraint violation''"

definition immutable_evidence_error :: exn where
  "immutable_evidence_error = OtherException ''pull audit evidence is immutable''"

definition seconds :: "int \<Rightarrow> int" where
  "seconds n = n * 1000000"

section \<open>Statements on pull operations\<close>

text \<open>
  \<open>update ... set ... where ... returning\<close>: the trigger and the constraints are checked for every
  row the condition selects.
\<close>

definition update_ops :: "(op_row \<Rightarrow> bool) \<Rightarrow> (op_row \<Rightarrow> op_row) \<Rightarrow> op_row list db_op" where
  "update_ops sel upd db =
     (let hit = filter sel (db_ops db);
          rows = map (\<lambda>r. if sel r then upd r else r) (db_ops db) in
      if \<exists>r \<in> set hit. \<not> protect_update r (upd r) then (Inl immutable_evidence_error, db)
      else if (\<exists>r \<in> set hit. \<not> op_checks (upd r)) \<or> \<not> distinct (event_ids rows)
           then (Inl constraint_violation, db)
      else (Inr (map upd hit), db\<lparr>db_ops := rows\<rparr>))"

definition new_op_row ::
    "uuid \<Rightarrow> uuid \<Rightarrow> string \<Rightarrow> string \<Rightarrow> uuid \<Rightarrow> instant \<Rightarrow> int \<Rightarrow> pull_recovery_context \<Rightarrow> uuid option \<Rightarrow> op_row" where
  "new_op_row oid user key_hash request_hash token now lease_seconds ctx request_id =
     \<lparr>op_id = oid, op_user_id = user, op_key_hash = key_hash, op_request_hash = request_hash,
      op_status = Processing, op_response = None, op_event = None, op_error_code = None,
      op_error_message = None, op_recovery_locked_until = None, op_created_at = now,
      op_updated_at = now, op_processing_token = Some token,
      op_processing_lease_until = Some (now + seconds lease_seconds),
      op_recovery_context = Some ctx, op_request_id = request_id\<rparr>"

definition insert_pull_operation_sql :: "op_row \<Rightarrow> op_row option db_op" where
  "insert_pull_operation_sql row db =
     (if \<not> op_checks row then (Inl constraint_violation, db)
      else if \<exists>r \<in> set (db_ops db). op_user_id r = op_user_id row \<and> op_key_hash r = op_key_hash row
      then (Inr None, db)
      else if \<exists>r \<in> set (db_ops db). op_id r = op_id row then (Inl constraint_violation, db)
      else (Inr (Some row), db\<lparr>db_ops := db_ops db @ [row]\<rparr>))"

definition lease_expired :: "instant \<Rightarrow> op_row \<Rightarrow> bool" where
  "lease_expired now r \<longleftrightarrow>
     (case op_processing_lease_until r of None \<Rightarrow> True | Some t \<Rightarrow> t < now)"

definition recovery_unlocked :: "instant \<Rightarrow> op_row \<Rightarrow> bool" where
  "recovery_unlocked now r \<longleftrightarrow>
     (case op_recovery_locked_until r of None \<Rightarrow> True | Some t \<Rightarrow> t < now)"

definition claim_processing_operation_sql ::
    "instant \<Rightarrow> uuid \<Rightarrow> string \<Rightarrow> string \<Rightarrow> uuid \<Rightarrow> int \<Rightarrow> pull_recovery_context \<Rightarrow> op_row list db_op" where
  "claim_processing_operation_sql now user key_hash request_hash token lease_seconds ctx =
     update_ops
       (\<lambda>r. op_user_id r = user \<and> op_key_hash r = key_hash \<and> op_request_hash r = request_hash \<and>
            op_status r = Processing \<and> lease_expired now r)
       (\<lambda>r. r\<lparr>op_processing_token := Some token,
              op_processing_lease_until := Some (now + seconds lease_seconds),
              op_recovery_context :=
                (case op_recovery_context r of None \<Rightarrow> Some ctx | Some c \<Rightarrow> Some c),
              op_updated_at := now\<rparr>)"

text \<open>The columns that \<open>_model_json(operation....)\<close> fills.\<close>

definition with_operation :: "pull_operation \<Rightarrow> op_row \<Rightarrow> op_row" where
  "with_operation po r = r\<lparr>op_status := po_status po, op_response := po_response po,
     op_event := po_event po, op_error_code := po_error_code po,
     op_error_message := po_error_message po, op_recovery_context := po_recovery_context po\<rparr>"

definition release_claim :: "instant \<Rightarrow> op_row \<Rightarrow> op_row" where
  "release_claim now r = r\<lparr>op_processing_token := None, op_processing_lease_until := None,
     op_updated_at := now\<rparr>"

definition update_pull_operation_sql :: "instant \<Rightarrow> uuid \<Rightarrow> pull_operation \<Rightarrow> op_row list db_op" where
  "update_pull_operation_sql now oid po =
     update_ops (\<lambda>r. op_id r = oid)
       (\<lambda>r. release_claim now (with_operation po r)\<lparr>op_recovery_locked_until := None\<rparr>)"

definition transition_processing_operation_sql ::
    "instant \<Rightarrow> uuid \<Rightarrow> uuid \<Rightarrow> string \<Rightarrow> uuid \<Rightarrow> pull_operation \<Rightarrow> op_row list db_op" where
  "transition_processing_operation_sql now oid user request_hash token po =
     update_ops
       (\<lambda>r. op_id r = oid \<and> op_user_id r = user \<and> op_request_hash r = request_hash \<and>
            op_status r = Processing \<and> op_processing_token r = Some token)
       (\<lambda>r. release_claim now (with_operation po r))"

definition save_pull_operation_sql ::
    "instant \<Rightarrow> uuid \<Rightarrow> string \<Rightarrow> pull_operation \<Rightarrow> op_row list db_op" where
  "save_pull_operation_sql now user key_hash po =
     update_ops
       (\<lambda>r. op_user_id r = user \<and> op_key_hash r = key_hash \<and> op_request_hash r = po_request_hash po)
       (\<lambda>r. release_claim now (with_operation po r)\<lparr>op_recovery_locked_until := None\<rparr>)"

definition claim_expired_processing_operation_sql ::
    "instant \<Rightarrow> uuid \<Rightarrow> uuid \<Rightarrow> int \<Rightarrow> op_row list db_op" where
  "claim_expired_processing_operation_sql now oid token lease_seconds =
     update_ops
       (\<lambda>r. op_id r = oid \<and> op_status r = Processing \<and> op_recovery_context r \<noteq> None \<and>
            lease_expired now r)
       (\<lambda>r. r\<lparr>op_processing_token := Some token,
              op_processing_lease_until := Some (now + seconds lease_seconds),
              op_updated_at := now\<rparr>)"

definition delivery_status :: "pull_operation_status \<Rightarrow> bool" where
  "delivery_status st \<longleftrightarrow> st = Event_Pending \<or> st = Event_Published \<or> st = Refund_Pending"

definition claim_pending_operation_sql ::
    "instant \<Rightarrow> uuid \<Rightarrow> int \<Rightarrow> pull_operation_status \<Rightarrow> op_row list db_op" where
  "claim_pending_operation_sql now oid lock_seconds expected =
     update_ops
       (\<lambda>r. op_id r = oid \<and> op_status r = expected \<and> delivery_status (op_status r) \<and>
            recovery_unlocked now r)
       (\<lambda>r. r\<lparr>op_recovery_locked_until := Some (now + seconds lock_seconds), op_updated_at := now\<rparr>)"

definition release_pending_operation_sql :: "instant \<Rightarrow> uuid \<Rightarrow> op_row list db_op" where
  "release_pending_operation_sql now oid =
     update_ops (\<lambda>r. op_id r = oid \<and> delivery_status (op_status r))
       (\<lambda>r. r\<lparr>op_recovery_locked_until := None, op_updated_at := now\<rparr>)"

text \<open>The queries: filter, \<open>order by\<close>, \<open>limit\<close>.\<close>

definition select_pull_operation_sql :: "uuid \<Rightarrow> string \<Rightarrow> database \<Rightarrow> op_row option" where
  "select_pull_operation_sql user key_hash db =
     find (\<lambda>r. op_user_id r = user \<and> op_key_hash r = key_hash) (db_ops db)"

definition select_pull_operation_by_id_sql :: "uuid \<Rightarrow> database \<Rightarrow> op_row option" where
  "select_pull_operation_by_id_sql oid db = find (\<lambda>r. op_id r = oid) (db_ops db)"

definition select_pull_operation_record_sql :: "uuid \<Rightarrow> uuid \<Rightarrow> database \<Rightarrow> op_row option" where
  "select_pull_operation_record_sql user oid db =
     find (\<lambda>r. op_user_id r = user \<and> op_id r = oid) (db_ops db)"

definition select_pull_operation_by_event_id_sql :: "uuid \<Rightarrow> string \<Rightarrow> database \<Rightarrow> op_row option" where
  "select_pull_operation_by_event_id_sql user event_id db =
     find (\<lambda>r. op_user_id r = user \<and> map_option re_event_id (op_response r) = Some event_id) (db_ops db)"

definition select_pull_operations_by_user_sql :: "uuid \<Rightarrow> int \<Rightarrow> database \<Rightarrow> op_row list" where
  "select_pull_operations_by_user_sql user limit db =
     take (nat limit) (rev (sort_key (\<lambda>r. (op_created_at r, op_id r))
       (filter (\<lambda>r. op_user_id r = user) (db_ops db))))"

definition select_pending_operations_sql :: "int \<Rightarrow> database \<Rightarrow> op_row list" where
  "select_pending_operations_sql limit db =
     take (nat limit) (sort_key (\<lambda>r. (op_updated_at r, op_id r))
       (filter (\<lambda>r. op_status r = Event_Pending \<or> op_status r = Event_Published) (db_ops db)))"

definition select_refund_pending_operations_sql :: "int \<Rightarrow> database \<Rightarrow> op_row list" where
  "select_refund_pending_operations_sql limit db =
     take (nat limit) (sort_key (\<lambda>r. (op_updated_at r, op_id r))
       (filter (\<lambda>r. op_status r = Refund_Pending \<and> op_recovery_context r \<noteq> None) (db_ops db)))"

definition select_expired_processing_operations_sql :: "instant \<Rightarrow> int \<Rightarrow> database \<Rightarrow> op_row list" where
  "select_expired_processing_operations_sql now limit db =
     take (nat limit) (sort_key (\<lambda>r. (op_processing_lease_until r, op_id r))
       (filter (\<lambda>r. op_status r = Processing \<and> op_recovery_context r \<noteq> None \<and> lease_expired now r)
         (db_ops db)))"

section \<open>Statements on pity snapshots\<close>

definition at_pity :: "uuid \<Rightarrow> string \<Rightarrow> pity_row \<Rightarrow> bool" where
  "at_pity user grp r \<longleftrightarrow> pt_user_id r = user \<and> pt_pity_group_id r = grp"

definition select_pity_sql :: "uuid \<Rightarrow> string \<Rightarrow> database \<Rightarrow> pity_row option" where
  "select_pity_sql user grp db = find (at_pity user grp) (db_pity db)"

definition insert_initial_pity_sql :: "instant \<Rightarrow> uuid \<Rightarrow> string \<Rightarrow> unit db_op" where
  "insert_initial_pity_sql now user grp db =
     (let row = \<lparr>pt_user_id = user, pt_banner_id = grp, pt_pity_group_id = grp, pt_since_five = 0,
           pt_since_four = 0, pt_guaranteed_featured_five = False, pt_version = 0,
           pt_created_at = now, pt_updated_at = now\<rparr> in
      if \<not> pity_checks row then (Inl constraint_violation, db)
      else if \<exists>r \<in> set (db_pity db). at_pity user grp r then (Inr (), db)
      else if \<exists>r \<in> set (db_pity db). pt_user_id r = user \<and> pt_banner_id r = grp
      then (Inl constraint_violation, db)
      else (Inr (), db\<lparr>db_pity := db_pity db @ [row]\<rparr>))"

definition with_pity :: "instant \<Rightarrow> pity_state \<Rightarrow> pity_row \<Rightarrow> pity_row" where
  "with_pity now p r = r\<lparr>pt_since_five := since_five p, pt_since_four := since_four p,
     pt_guaranteed_featured_five := guaranteed_featured_five p,
     pt_version := pt_version r + 1, pt_updated_at := now\<rparr>"

definition update_pity_sql ::
    "instant \<Rightarrow> uuid \<Rightarrow> string \<Rightarrow> int \<Rightarrow> pity_state \<Rightarrow> pity_row option db_op" where
  "update_pity_sql now user grp expected p db =
     (let sel = (\<lambda>r. at_pity user grp r \<and> pt_version r = expected);
          hit = filter sel (db_pity db) in
      if \<exists>r \<in> set hit. \<not> pity_checks (with_pity now p r) then (Inl constraint_violation, db)
      else (Inr (case hit of [] \<Rightarrow> None | r # _ \<Rightarrow> Some (with_pity now p r)),
            db\<lparr>db_pity := map (\<lambda>r. if sel r then with_pity now p r else r) (db_pity db)\<rparr>))"

section \<open>Rows as models\<close>

definition snapshot_from_row :: "pity_row \<Rightarrow> pity_snapshot" where
  "snapshot_from_row r =
     \<lparr>since_five = pt_since_five r, since_four = pt_since_four r,
      guaranteed_featured_five = pt_guaranteed_featured_five r, version = pt_version r\<rparr>"

definition operation_from_row :: "op_row \<Rightarrow> pull_operation" where
  "operation_from_row r =
     \<lparr>po_status = op_status r, po_request_hash = op_request_hash r, po_response = op_response r,
      po_event = op_event r, po_error_code = op_error_code r, po_error_message = op_error_message r,
      po_recovery_context = op_recovery_context r\<rparr>"

definition operation_record_from_row :: "op_row \<Rightarrow> pull_operation_record" where
  "operation_record_from_row r =
     \<lparr>or_operation_key = uuid_str (op_id r), or_user_id = op_user_id r,
      or_operation = operation_from_row r, or_request_id = op_request_id r,
      or_created_at = Some (op_created_at r), or_updated_at = Some (op_updated_at r)\<rparr>"

text \<open>The records that the three recovery queries build carry no request id and no times.\<close>

definition pending_record_from_row :: "op_row \<Rightarrow> pull_operation_record" where
  "pending_record_from_row r =
     \<lparr>or_operation_key = uuid_str (op_id r), or_user_id = op_user_id r,
      or_operation = operation_from_row r, or_request_id = None,
      or_created_at = None, or_updated_at = None\<rparr>"

definition idempotency_key_hash :: "'g lib \<Rightarrow> string \<Rightarrow> string" where
  "idempotency_key_hash L value = lib_sha256 L value"

definition operation_id_of :: "string \<Rightarrow> uuid result" where
  "operation_id_of value =
     (case uuid_parse value of
        None \<Rightarrow> Inl (GachaStateStoreError ''pull operation key is invalid'')
      | Some u \<Rightarrow> Inr u)"

section \<open>Methods of the store\<close>

definition store_error :: "string \<Rightarrow> exn \<Rightarrow> exn" where
  "store_error message e =
     (case e of
        GachaStateStoreError _ \<Rightarrow> e
      | PityVersionConflict _ \<Rightarrow> e
      | PullOperationOwnershipLost \<Rightarrow> e
      | _ \<Rightarrow> GachaStateStoreError message)"

definition db_query :: "(database \<Rightarrow> 'a) \<Rightarrow> 'a db_op" where
  "db_query q db = (Inr (q db), db)"

definition db_other_sessions :: "(database \<Rightarrow> database) \<Rightarrow> unit db_op" where
  "db_other_sessions f db = (Inr (), f db)"

definition get_snapshot :: "uuid \<Rightarrow> string \<Rightarrow> pity_snapshot db_op" where
  "get_snapshot user grp =
     db_query (\<lambda>db. case select_pity_sql user grp db of
        None \<Rightarrow> with_version create_initial_pity 0
      | Some r \<Rightarrow> snapshot_from_row r)"

definition current_pity_version :: "uuid \<Rightarrow> string \<Rightarrow> int db_op" where
  "current_pity_version user grp =
     db_query (\<lambda>db. case select_pity_sql user grp db of None \<Rightarrow> - 1 | Some r \<Rightarrow> pt_version r)"

text \<open>The part both commits share: ensure the row, update it at the expected version.\<close>

definition advance_pity :: "instant \<Rightarrow> uuid \<Rightarrow> string \<Rightarrow> int \<Rightarrow> pity_state \<Rightarrow> pity_snapshot db_op" where
  "advance_pity now user grp expected next =
     eff_then (insert_initial_pity_sql now user grp)
       (eff_bind (update_pity_sql now user grp expected next) (\<lambda>row.
          case row of
            None \<Rightarrow> eff_bind (current_pity_version user grp) (\<lambda>v. eff_raise (PityVersionConflict v))
          | Some r \<Rightarrow> eff_return (snapshot_from_row r)))"

definition compare_and_set ::
    "instant \<Rightarrow> uuid \<Rightarrow> string \<Rightarrow> int \<Rightarrow> pity_state \<Rightarrow> pity_snapshot db_op" where
  "compare_and_set now user grp expected next =
     eff_map_error (store_error ''commit pity state to postgres failed'')
       (transaction (advance_pity now user grp expected next))"

definition claim_of_row :: "uuid option \<Rightarrow> op_row \<Rightarrow> pull_operation_claim" where
  "claim_of_row token r =
     \<lparr>cl_operation_key = uuid_str (op_id r), cl_operation = operation_from_row r,
      cl_processing_token = token\<rparr>"

text \<open>\<open>recovery_context.request_id or None\<close>, as the parameter of a \<open>uuid\<close> column.\<close>

definition request_id_column :: "string \<Rightarrow> uuid option result" where
  "request_id_column s =
     (if s = [] then Inr None
      else case uuid_parse s of None \<Rightarrow> Inl (OtherException ''invalid uuid'') | Some u \<Rightarrow> Inr (Some u))"

text \<open>
  Three statements, each its own transaction; \<open>o1\<close> and \<open>o2\<close> are what other sessions commit in
  between, and each statement has its own \<open>now()\<close>.
\<close>

definition begin_pull_operation ::
    "'g lib \<Rightarrow> instant \<times> instant \<Rightarrow> (database \<Rightarrow> database) \<times> (database \<Rightarrow> database) \<Rightarrow> uuid \<times> uuid
     \<Rightarrow> uuid \<Rightarrow> string \<Rightarrow> string \<Rightarrow> int \<Rightarrow> pull_recovery_context \<Rightarrow> pull_operation_claim db_op" where
  "begin_pull_operation L nows others fresh user key request_hash lease ctx =
     (let (t1, t2) = nows; (o1, o2) = others; (oid, token) = fresh;
          key_hash = idempotency_key_hash L key; lease_seconds = max 1 lease in
      eff_map_error (store_error ''begin pull operation in postgres failed'')
       (eff_bind (eff_lift (request_id_column (rc_request_id ctx))) (\<lambda>request_id.
        eff_bind (insert_pull_operation_sql
            (new_op_row oid user key_hash request_hash token t1 lease_seconds ctx request_id)) (\<lambda>created.
        case created of
          Some r \<Rightarrow> eff_return (claim_of_row (Some token) r)
        | None \<Rightarrow>
            eff_then (db_other_sessions o1)
            (eff_bind (claim_processing_operation_sql t2 user key_hash request_hash token lease_seconds ctx)
              (\<lambda>claimed. case claimed of
                r # _ \<Rightarrow> eff_return (claim_of_row (Some token) r)
              | [] \<Rightarrow>
                  eff_then (db_other_sessions o2)
                  (eff_bind (db_query (select_pull_operation_sql user key_hash)) (\<lambda>existing.
                    case existing of
                      None \<Rightarrow> eff_raise (GachaStateStoreError ''pull operation disappeared during claim'')
                    | Some r \<Rightarrow> eff_return (claim_of_row None r)))))))))"

definition get_pull_operation :: "'g lib \<Rightarrow> uuid \<Rightarrow> string \<Rightarrow> pull_operation option db_op" where
  "get_pull_operation L user key =
     db_query (\<lambda>db. map_option operation_from_row
       (select_pull_operation_sql user (idempotency_key_hash L key) db))"

definition list_pull_operations :: "uuid \<Rightarrow> int \<Rightarrow> pull_operation_record list db_op" where
  "list_pull_operations user limit =
     db_query (\<lambda>db. map operation_record_from_row
       (select_pull_operations_by_user_sql user (max 1 (min 100 limit)) db))"

definition get_pull_operation_record :: "uuid \<Rightarrow> uuid \<Rightarrow> pull_operation_record option db_op" where
  "get_pull_operation_record user oid =
     db_query (\<lambda>db. map_option operation_record_from_row (select_pull_operation_record_sql user oid db))"

definition get_pull_operation_by_key :: "string \<Rightarrow> pull_operation option db_op" where
  "get_pull_operation_by_key key =
     eff_bind (eff_lift (operation_id_of key)) (\<lambda>oid.
       db_query (\<lambda>db. map_option operation_from_row (select_pull_operation_by_id_sql oid db)))"

definition get_pull_operation_by_event_id :: "uuid \<Rightarrow> uuid \<Rightarrow> pull_operation option db_op" where
  "get_pull_operation_by_event_id user event_id =
     db_query (\<lambda>db. map_option operation_from_row
       (select_pull_operation_by_event_id_sql user (uuid_str event_id) db))"

abbreviation select_pull_operation_by_id_for_update_sql ::
    "uuid \<Rightarrow> uuid \<Rightarrow> database \<Rightarrow> op_row option" where
  "select_pull_operation_by_id_for_update_sql oid user \<equiv>
     find (\<lambda>r. op_id r = oid \<and> op_user_id r = user) \<circ> db_ops"

definition compare_and_set_with_pull_operation ::
    "instant \<Rightarrow> string \<Rightarrow> uuid \<Rightarrow> string \<Rightarrow> string \<Rightarrow> int \<Rightarrow> pity_state \<Rightarrow> pull_operation \<Rightarrow> uuid
     \<Rightarrow> pity_snapshot db_op" where
  "compare_and_set_with_pull_operation now key user grp request_hash expected next po token =
     eff_bind (eff_lift (operation_id_of key)) (\<lambda>oid.
     eff_map_error (store_error ''commit pull operation to postgres failed'')
      (transaction
       (eff_bind (db_query (select_pull_operation_by_id_for_update_sql oid user)) (\<lambda>current.
        case current of
          None \<Rightarrow> eff_raise (GachaStateStoreError ''pull operation was not found during commit'')
        | Some r \<Rightarrow>
            (if op_request_hash r \<noteq> request_hash
             then eff_raise (GachaStateStoreError ''pull operation request hash changed during commit'')
             else if op_status r \<noteq> Processing then eff_raise PullOperationOwnershipLost
             else if op_processing_token r \<noteq> Some token then eff_raise PullOperationOwnershipLost
             else
               eff_bind (advance_pity now user grp expected next) (\<lambda>snapshot.
               eff_bind (update_pull_operation_sql now (op_id r) po) (\<lambda>rows.
                 if length rows \<noteq> 1
                 then eff_raise (GachaStateStoreError ''pull operation could not be committed'')
                 else eff_return snapshot)))))))"

definition transition_pull_operation_from_processing ::
    "instant \<Rightarrow> string \<Rightarrow> uuid \<Rightarrow> string \<Rightarrow> uuid \<Rightarrow> pull_operation \<Rightarrow> unit db_op" where
  "transition_pull_operation_from_processing now key user request_hash token po =
     eff_bind (eff_lift (operation_id_of key)) (\<lambda>oid.
     eff_map_error (store_error ''transition pull operation in postgres failed'')
      (eff_bind (transition_processing_operation_sql now oid user request_hash token po) (\<lambda>rows.
        if rows = [] then eff_raise PullOperationOwnershipLost else eff_return ())))"

definition save_pull_operation ::
    "'g lib \<Rightarrow> instant \<Rightarrow> uuid \<Rightarrow> string \<Rightarrow> pull_operation \<Rightarrow> unit db_op" where
  "save_pull_operation L now user key po =
     eff_map_error (store_error ''save pull operation to postgres failed'')
      (eff_bind (save_pull_operation_sql now user (idempotency_key_hash L key) po) (\<lambda>rows.
        if length rows \<noteq> 1
        then eff_raise (GachaStateStoreError ''pull operation was not found during save'')
        else eff_return ()))"

definition iter_event_pending_pull_operations :: "int \<Rightarrow> pull_operation_record list db_op" where
  "iter_event_pending_pull_operations limit =
     db_query (\<lambda>db. map pending_record_from_row (select_pending_operations_sql (max 1 limit) db))"

definition iter_refund_pending_pull_operations :: "int \<Rightarrow> pull_operation_record list db_op" where
  "iter_refund_pending_pull_operations limit =
     db_query (\<lambda>db. map pending_record_from_row (select_refund_pending_operations_sql (max 1 limit) db))"

definition iter_expired_processing_pull_operations ::
    "instant \<Rightarrow> int \<Rightarrow> pull_operation_record list db_op" where
  "iter_expired_processing_pull_operations now limit =
     db_query (\<lambda>db. map pending_record_from_row
       (select_expired_processing_operations_sql now (max 1 limit) db))"

definition claim_expired_processing_pull_operation ::
    "instant \<Rightarrow> uuid \<Rightarrow> string \<Rightarrow> int \<Rightarrow> pull_operation_recovery_claim option db_op" where
  "claim_expired_processing_pull_operation now token key lease =
     eff_bind (eff_lift (operation_id_of key)) (\<lambda>oid.
     eff_bind (eff_map_error (store_error ''claim expired processing pull failed'')
       (claim_expired_processing_operation_sql now oid token (max 1 lease))) (\<lambda>rows.
       eff_return (case rows of [] \<Rightarrow> None
         | r # _ \<Rightarrow> Some \<lparr>rcl_operation_key = uuid_str (op_id r), rcl_user_id = op_user_id r,
             rcl_operation = operation_from_row r, rcl_processing_token = token\<rparr>)))"

definition claim_pull_operation_recovery ::
    "instant \<Rightarrow> string \<Rightarrow> pull_operation_status \<Rightarrow> int \<Rightarrow> bool db_op" where
  "claim_pull_operation_recovery now key expected lock_ttl =
     eff_bind (eff_lift (operation_id_of key)) (\<lambda>oid.
     eff_map_error (store_error ''claim pending pull operation failed'')
      (eff_bind (claim_pending_operation_sql now oid (max 1 lock_ttl) expected) (\<lambda>rows.
        eff_return (rows \<noteq> []))))"

definition release_pull_operation_recovery :: "instant \<Rightarrow> string \<Rightarrow> unit db_op" where
  "release_pull_operation_recovery now key =
     eff_bind (eff_lift (operation_id_of key)) (\<lambda>oid.
     eff_map_error (store_error ''release pending pull operation failed'')
      (eff_bind (release_pending_operation_sql now oid) (\<lambda>_. eff_return ())))"

definition save_pull_operation_by_key :: "instant \<Rightarrow> string \<Rightarrow> pull_operation \<Rightarrow> unit db_op" where
  "save_pull_operation_by_key now key po =
     eff_bind (eff_lift (operation_id_of key)) (\<lambda>oid.
     eff_map_error (store_error ''save pending pull operation failed'')
      (eff_bind (update_pull_operation_sql now oid po) (\<lambda>rows.
        if length rows \<noteq> 1
        then eff_raise (GachaStateStoreError ''pending pull operation was not found'')
        else eff_return ())))"

end
