(* ===== verification/Postgres_Props.thy ===== *)
theory Postgres_Props
  imports Postgres_State
begin

text \<open>
  What the store keeps. \<open>store_step\<close> is the transition relation of the two tables under every
  statement the program issues, in any order and by any session; \<open>wf_db\<close> is its invariant and
  \<open>db_le\<close> the relation between any earlier and any later state: no row is lost, the identity of an
  operation never changes, audit evidence is frozen, and a pity row only moves forward, one version
  at a time. Every method of the store is shown to be a sequence of such steps.
\<close>

section \<open>Updates of operation rows\<close>

definition updated :: "(op_row \<Rightarrow> bool) \<Rightarrow> (op_row \<Rightarrow> op_row) \<Rightarrow> op_row \<Rightarrow> op_row" where
  "updated sel upd r = (if sel r then upd r else r)"

lemma update_ops_cases:
  assumes u: "update_ops sel upd db = (res, db')"
  obtains (error) e where "res = Inl e" "db' = db"
  | (ok) "res = Inr (map upd (filter sel (db_ops db)))"
      "db' = db\<lparr>db_ops := map (updated sel upd) (db_ops db)\<rparr>"
      "\<forall>r \<in> set (db_ops db). sel r \<longrightarrow> protect_update r (upd r) \<and> op_checks (upd r)"
      "distinct (event_ids (map (updated sel upd) (db_ops db)))"
proof -
  let ?hit = "filter sel (db_ops db)" and ?rows = "map (updated sel upd) (db_ops db)"
  have u': "update_ops sel upd db =
    (if \<exists>r \<in> set ?hit. \<not> protect_update r (upd r) then (Inl immutable_evidence_error, db)
     else if (\<exists>r \<in> set ?hit. \<not> op_checks (upd r)) \<or> \<not> distinct (event_ids ?rows)
          then (Inl constraint_violation, db)
     else (Inr (map upd ?hit), db\<lparr>db_ops := ?rows\<rparr>))"
    unfolding update_ops_def Let_def updated_def[abs_def] ..
  show ?thesis
  proof (cases "(\<exists>r \<in> set ?hit. \<not> protect_update r (upd r)) \<or> (\<exists>r \<in> set ?hit. \<not> op_checks (upd r)) \<or>
      \<not> distinct (event_ids ?rows)")
    case True
    then have "db' = db \<and> (\<exists>e. res = Inl e)" using u unfolding u' by (auto split: if_splits)
    then show ?thesis using error by blast
  next
    case False
    then have "update_ops sel upd db = (Inr (map upd ?hit), db\<lparr>db_ops := ?rows\<rparr>)"
      unfolding u' by (simp only: de_Morgan_disj if_False simp_thms)
    with u False show ?thesis using ok by auto
  qed
qed

definition keeps_identity :: "(op_row \<Rightarrow> op_row) \<Rightarrow> bool" where
  "keeps_identity upd \<longleftrightarrow> (\<forall>r. op_id (upd r) = op_id r \<and> op_user_id (upd r) = op_user_id r \<and>
     op_key_hash (upd r) = op_key_hash r \<and> op_request_hash (upd r) = op_request_hash r \<and>
     op_created_at (upd r) = op_created_at r \<and> op_request_id (upd r) = op_request_id r)"

definition has_evidence :: "op_row \<Rightarrow> bool" where
  "has_evidence r \<longleftrightarrow> op_status r \<in> {Event_Pending, Event_Published, Succeeded}"

fun delivery_rank :: "pull_operation_status \<Rightarrow> nat" where
  "delivery_rank Event_Pending = 1"
| "delivery_rank Event_Published = 2"
| "delivery_rank Succeeded = 3"
| "delivery_rank _ = 0"

definition row_le :: "op_row \<Rightarrow> op_row \<Rightarrow> bool" where
  "row_le r r' \<longleftrightarrow>
     op_id r' = op_id r \<and> op_user_id r' = op_user_id r \<and> op_key_hash r' = op_key_hash r \<and>
     op_request_hash r' = op_request_hash r \<and> op_created_at r' = op_created_at r \<and>
     op_request_id r' = op_request_id r \<and>
     (has_evidence r \<longrightarrow> delivery_rank (op_status r) \<le> delivery_rank (op_status r') \<and>
        op_response r' = op_response r \<and> op_event r' = op_event r)"

lemma row_le_refl [simp]: "row_le r r"
  by (simp add: row_le_def)

lemma has_evidence_rank: "has_evidence r \<longleftrightarrow> 0 < delivery_rank (op_status r)"
  by (cases "op_status r") (simp_all add: has_evidence_def)

lemma row_le_trans: "row_le r s \<Longrightarrow> row_le s t \<Longrightarrow> row_le r t"
  by (auto simp: row_le_def has_evidence_rank)

lemma protect_row_le:
  assumes "protect_update r (upd r)" "keeps_identity upd"
  shows "row_le r (upd r)"
  using assms by (auto simp: row_le_def protect_update_def keeps_identity_def has_evidence_def)

lemma statement_keeps_identity [simp]:
  "keeps_identity (\<lambda>r. r\<lparr>op_processing_token := a, op_processing_lease_until := b, op_updated_at := c\<rparr>)"
  "keeps_identity (\<lambda>r. r\<lparr>op_processing_token := a, op_processing_lease_until := b,
     op_recovery_context := f r, op_updated_at := c\<rparr>)"
  "keeps_identity (\<lambda>r. release_claim now (with_operation po r))"
  "keeps_identity (\<lambda>r. release_claim now (with_operation po r)\<lparr>op_recovery_locked_until := d\<rparr>)"
  "keeps_identity (\<lambda>r. r\<lparr>op_recovery_locked_until := d, op_updated_at := c\<rparr>)"
  by (simp_all add: keeps_identity_def release_claim_def with_operation_def)

section \<open>The order of states\<close>

definition pity_row_le :: "pity_row \<Rightarrow> pity_row \<Rightarrow> bool" where
  "pity_row_le r r' \<longleftrightarrow>
     pt_user_id r' = pt_user_id r \<and> pt_pity_group_id r' = pt_pity_group_id r \<and>
     pt_version r \<le> pt_version r' \<and>
     (pt_version r' = pt_version r \<longrightarrow> snapshot_from_row r' = snapshot_from_row r)"

lemma pity_row_le_refl [simp]: "pity_row_le r r"
  by (simp add: pity_row_le_def)

lemma pity_row_le_trans: "pity_row_le r s \<Longrightarrow> pity_row_le s t \<Longrightarrow> pity_row_le r t"
  by (auto simp: pity_row_le_def)

text \<open>Rows stay in place and new ones are appended.\<close>

definition rows_le :: "('r \<Rightarrow> 'r \<Rightarrow> bool) \<Rightarrow> 'r list \<Rightarrow> 'r list \<Rightarrow> bool" where
  "rows_le le xs ys \<longleftrightarrow> length xs \<le> length ys \<and> (\<forall>i < length xs. le (xs ! i) (ys ! i))"

lemma rows_le_map: "(\<And>x. x \<in> set xs \<Longrightarrow> le x (f x)) \<Longrightarrow> rows_le le xs (map f xs)"
  by (simp add: rows_le_def)

lemma rows_le_append: "(\<And>x. le x x) \<Longrightarrow> rows_le le xs (xs @ ys)"
  by (simp add: rows_le_def nth_append)

lemma rows_le_refl: "(\<And>x. le x x) \<Longrightarrow> rows_le le xs xs"
  by (simp add: rows_le_def)

lemma rows_le_trans:
  "(\<And>x y z. le x y \<Longrightarrow> le y z \<Longrightarrow> le x z) \<Longrightarrow> rows_le le xs ys \<Longrightarrow> rows_le le ys zs \<Longrightarrow> rows_le le xs zs"
  unfolding rows_le_def by (meson le_trans less_le_trans)

lemma rows_le_member: "rows_le le xs ys \<Longrightarrow> x \<in> set xs \<Longrightarrow> \<exists>y \<in> set ys. le x y"
  unfolding rows_le_def by (metis in_set_conv_nth less_le_trans)

definition db_le :: "database \<Rightarrow> database \<Rightarrow> bool" where
  "db_le db db' \<longleftrightarrow> rows_le row_le (db_ops db) (db_ops db') \<and> rows_le pity_row_le (db_pity db) (db_pity db')"

lemma db_le_refl [simp]: "db_le db db"
  by (simp add: db_le_def rows_le_refl)

lemma db_le_trans: "db_le a b \<Longrightarrow> db_le b c \<Longrightarrow> db_le a c"
  unfolding db_le_def by (meson rows_le_trans row_le_trans pity_row_le_trans)

lemma preorder_db_le [simp]: "preorder_rel db_le"
  by (auto simp: preorder_rel_def intro!: reflpI transpI dest: db_le_trans)

section \<open>The invariant\<close>

definition op_key :: "op_row \<Rightarrow> uuid \<times> string" where
  "op_key r = (op_user_id r, op_key_hash r)"

definition pity_key :: "pity_row \<Rightarrow> uuid \<times> string" where
  "pity_key r = (pt_user_id r, pt_pity_group_id r)"

definition wf_db :: "database \<Rightarrow> bool" where
  "wf_db db \<longleftrightarrow>
     distinct (map op_id (db_ops db)) \<and> distinct (map op_key (db_ops db)) \<and>
     distinct (event_ids (db_ops db)) \<and> (\<forall>r \<in> set (db_ops db). op_checks r) \<and>
     distinct (map pity_key (db_pity db)) \<and>
     (\<forall>r \<in> set (db_pity db). pity_checks r \<and> pt_banner_id r = pt_pity_group_id r)"

lemma map_updated:
  assumes "\<And>r. f (upd r) = f r"
  shows "map f (map (updated sel upd) rows) = map f rows"
  by (simp add: updated_def assms)

lemma event_ids_append [simp]: "event_ids (xs @ ys) = event_ids xs @ event_ids ys"
  by (simp add: event_ids_def map_filter_def)

lemma update_ops_wf:
  assumes "wf_db db" "keeps_identity upd" "update_ops sel upd db = (res, db')"
  shows "wf_db db' \<and> db_le db db'"
  using assms(3)
proof (cases rule: update_ops_cases)
  case error
  with assms(1) show ?thesis by simp
next
  case ok
  have keys: "map op_id (db_ops db') = map op_id (db_ops db)" "map op_key (db_ops db') = map op_key (db_ops db)"
    unfolding ok(2) using assms(2)
    by (simp_all add: keeps_identity_def op_key_def updated_def)
  moreover have "\<forall>r \<in> set (db_ops db'). op_checks r"
    using ok(2,3) assms(1) by (auto simp: updated_def wf_db_def)
  moreover have "rows_le row_le (db_ops db) (db_ops db')"
    using ok(2,3) protect_row_le[OF _ assms(2)] by (auto simp: updated_def intro!: rows_le_map)
  ultimately show ?thesis
    using assms(1) ok(4) unfolding wf_db_def db_le_def by (simp only:) (simp add: ok(2) rows_le_refl)
qed

lemma insert_op_wf:
  assumes wf: "wf_db db" and row: "op_response row = None"
    and ins: "insert_pull_operation_sql row db = (res, db')"
  shows "wf_db db' \<and> db_le db db'"
proof (cases "db' = db")
  case True
  with wf show ?thesis by simp
next
  case False
  with ins have db': "db' = db\<lparr>db_ops := db_ops db @ [row]\<rparr>"
    and ok: "op_checks row" "op_id row \<notin> op_id ` set (db_ops db)" "op_key row \<notin> op_key ` set (db_ops db)"
    by (auto simp: insert_pull_operation_sql_def op_key_def split: if_splits)
  have "event_ids [row] = []" using row by (simp add: event_ids_def map_filter_def)
  with wf ok show ?thesis by (auto simp: db' wf_db_def db_le_def rows_le_append rows_le_refl)
qed

lemma insert_pity_wf:
  assumes "wf_db db" "insert_initial_pity_sql now user grp db = (res, db')"
  shows "wf_db db' \<and> db_le db db'"
  using assms
  by (auto simp: insert_initial_pity_sql_def Let_def wf_db_def pity_key_def at_pity_def db_le_def
      rows_le_append rows_le_refl split: if_splits)

lemma with_pity_le: "pity_row_le r (with_pity now p r)"
  by (simp add: pity_row_le_def with_pity_def)

lemma update_pity_wf:
  assumes "wf_db db" "update_pity_sql now user grp v p db = (res, db')"
  shows "wf_db db' \<and> db_le db db'"
proof -
  have key: "pity_key (with_pity now p r) = pity_key r" "pt_banner_id (with_pity now p r) = pt_banner_id r"
    "pt_pity_group_id (with_pity now p r) = pt_pity_group_id r" for r
    by (simp_all add: pity_key_def with_pity_def)
  let ?rows = "map (\<lambda>r. if at_pity user grp r \<and> pt_version r = v then with_pity now p r else r) (db_pity db)"
  from assms(2) consider "db' = db"
    | "db' = db\<lparr>db_pity := ?rows\<rparr>"
      "\<forall>r \<in> set (db_pity db). at_pity user grp r \<and> pt_version r = v \<longrightarrow> pity_checks (with_pity now p r)"
    by (auto simp: update_pity_sql_def Let_def split: if_splits)
  then show ?thesis
  proof cases
    case 2
    have keys: "map pity_key ?rows = map pity_key (db_pity db)" by (simp add: key)
    have "rows_le pity_row_le (db_pity db) ?rows" by (rule rows_le_map) (simp add: with_pity_le)
    moreover have "\<forall>r \<in> set ?rows. pity_checks r \<and> pt_banner_id r = pt_pity_group_id r"
      using 2(2) assms(1) by (auto simp: wf_db_def key)
    ultimately show ?thesis
      using assms(1) keys unfolding 2(1) wf_db_def db_le_def
      by (simp del: map_map add: rows_le_refl)
  qed (use assms(1) in simp)
qed

section \<open>Transactions\<close>

lemma query_state [simp]: "snd (db_query q db) = db"
  by (simp add: db_query_def)

lemma advance_pity_states:
  assumes "advance_pity now user grp v p db = (res, db')"
  obtains r1 d1 where "insert_initial_pity_sql now user grp db = (r1, d1)"
    "db' = d1 \<or> (\<exists>r2. update_pity_sql now user grp v p d1 = (r2, db'))"
proof -
  obtain r1 d1 where 1: "insert_initial_pity_sql now user grp db = (r1, d1)" by force
  obtain r2 d2 where 2: "update_pity_sql now user grp v p d1 = (r2, d2)" by force
  have "db' = d1 \<or> db' = d2"
    using assms unfolding advance_pity_def eff_then_def eff_bind_def 1 2
    by (auto simp: 2 eff_return_def eff_raise_def current_pity_version_def db_query_def eff_bind_def
        split: sum.splits option.splits)
  with 1 2 that show ?thesis by blast
qed

lemma advance_pity_wf:
  assumes "wf_db db" "advance_pity now user grp v p db = (res, db')"
  shows "wf_db db' \<and> db_le db db'"
  using assms(2)
proof (cases rule: advance_pity_states)
  case (1 r1 d1)
  from insert_pity_wf[OF assms(1) 1(1)] have d1: "wf_db d1" "db_le db d1" by simp_all
  from 1(2) d1 show ?thesis by (auto dest: update_pity_wf[OF d1(1)] intro: db_le_trans)
qed

lemma compare_and_set_wf:
  assumes "wf_db db" "compare_and_set now user grp v p db = (res, db')"
  shows "wf_db db' \<and> db_le db db'"
  using assms
  by (auto simp: compare_and_set_def eff_map_error_def transaction_def split: prod.splits sum.splits
      dest: advance_pity_wf)

text \<open>The guard of the commit, and the row it works on.\<close>

definition commit_guard ::
    "database \<Rightarrow> uuid \<Rightarrow> uuid \<Rightarrow> string \<Rightarrow> uuid \<Rightarrow> op_row result" where
  "commit_guard db oid user request_hash token =
     (case find (\<lambda>r. op_id r = oid \<and> op_user_id r = user) (db_ops db) of
        None \<Rightarrow> Inl (GachaStateStoreError ''pull operation was not found during commit'')
      | Some r \<Rightarrow>
          (if op_request_hash r \<noteq> request_hash
           then Inl (GachaStateStoreError ''pull operation request hash changed during commit'')
           else if op_status r \<noteq> Processing \<or> op_processing_token r \<noteq> Some token
           then Inl PullOperationOwnershipLost
           else Inr r))"

text \<open>A successful commit: the guard holds, the pity row advances, one operation row is written.\<close>

lemma commit_InrD:
  assumes "compare_and_set_with_pull_operation now key user grp h v p po token db = (Inr snapshot, db')"
  obtains oid r db1 rows where "operation_id_of key = Inr oid" "commit_guard db oid user h token = Inr r"
    "advance_pity now user grp v p db = (Inr snapshot, db1)"
    "update_pull_operation_sql now (op_id r) po db1 = (Inr rows, db')" "length rows = 1"
  using assms
  by (auto simp: compare_and_set_with_pull_operation_def eff_defs db_query_def commit_guard_def
      split: sum.splits prod.splits option.splits if_splits)

lemma commit_InlD:
  assumes "compare_and_set_with_pull_operation now key user grp h v p po token db = (Inl e, db')"
  shows "db' = db"
  using assms
  by (auto simp: compare_and_set_with_pull_operation_def eff_defs split: sum.splits prod.splits if_splits)

lemma commit_wf:
  assumes wf: "wf_db db"
    and c: "compare_and_set_with_pull_operation now key user grp h v p po token db = (res, db')"
  shows "wf_db db' \<and> db_le db db'"
proof (cases res)
  case (Inl e)
  with c wf show ?thesis by (auto dest: commit_InlD)
next
  case (Inr snapshot)
  with c have "compare_and_set_with_pull_operation now key user grp h v p po token db = (Inr snapshot, db')"
    by simp
  then obtain oid r db1 rows where "operation_id_of key = Inr oid"
    "commit_guard db oid user h token = Inr r" and
    1: "advance_pity now user grp v p db = (Inr snapshot, db1)" and
    2: "update_pull_operation_sql now (op_id r) po db1 = (Inr rows, db')" and "length rows = 1"
    by (rule commit_InrD)
  from advance_pity_wf[OF wf 1] have db1: "wf_db db1" "db_le db db1" by simp_all
  from update_ops_wf[OF db1(1) _ 2[unfolded update_pull_operation_sql_def]]
  have "wf_db db' \<and> db_le db1 db'" by simp
  with db1(2) show ?thesis by (blast intro: db_le_trans)
qed

section \<open>The transition relation\<close>

inductive store_step :: "database \<Rightarrow> database \<Rightarrow> bool" where
  step_insert: "op_response row = None \<Longrightarrow> op_status row = Processing \<Longrightarrow>
    store_step db (snd (insert_pull_operation_sql row db))"
| step_update: "keeps_identity upd \<Longrightarrow> store_step db (snd (update_ops sel upd db))"
| step_cas: "store_step db (snd (compare_and_set now user grp v p db))"
| step_commit: "store_step db (snd (compare_and_set_with_pull_operation now key user grp h v p po token db))"

inductive_cases store_stepE: "store_step db db'"

abbreviation store_steps :: "database \<Rightarrow> database \<Rightarrow> bool" where
  "store_steps \<equiv> store_step\<^sup>*\<^sup>*"

lemma store_step_wf: "store_step db db' \<Longrightarrow> wf_db db \<Longrightarrow> wf_db db' \<and> db_le db db'"
  by (cases rule: store_step.cases)
     (auto dest: insert_op_wf[OF _ _ prod.collapse[symmetric]] update_ops_wf[OF _ _ prod.collapse[symmetric]]
       compare_and_set_wf[OF _ prod.collapse[symmetric]] commit_wf[OF _ prod.collapse[symmetric]])

lemma store_steps_wf: "store_steps db db' \<Longrightarrow> wf_db db \<Longrightarrow> wf_db db' \<and> db_le db db'"
  by (induction rule: rtranclp_induct) (auto dest: store_step_wf intro: db_le_trans)

text \<open>The order needs no invariant: it is kept by every statement in every state.\<close>

lemma update_ops_le:
  assumes "keeps_identity upd" "update_ops sel upd db = (res, db')"
  shows "db_le db db'"
  using assms(2)
proof (cases rule: update_ops_cases)
  case ok
  then show ?thesis
    using protect_row_le[OF _ assms(1)]
    by (auto simp: db_le_def rows_le_refl updated_def intro!: rows_le_map)
qed simp

lemma advance_pity_le:
  assumes "advance_pity now user grp v p db = (res, db')"
  shows "db_le db db'"
  using assms
proof (cases rule: advance_pity_states)
  case (1 r1 d1)
  have "db_le db d1"
    using 1(1) by (auto simp: insert_initial_pity_sql_def Let_def db_le_def rows_le_append rows_le_refl
        split: if_splits)
  moreover have "db_le d1 db'"
    using 1(2) by (auto simp: update_pity_sql_def Let_def db_le_def rows_le_refl with_pity_le
        intro!: rows_le_map split: if_splits)
  ultimately show ?thesis by (rule db_le_trans)
qed

lemma commit_le:
  assumes c: "compare_and_set_with_pull_operation now key user grp h v p po token db = (res, db')"
  shows "db_le db db'"
proof (cases res)
  case (Inl e)
  with c show ?thesis by (auto dest: commit_InlD)
next
  case (Inr snapshot)
  with c have "compare_and_set_with_pull_operation now key user grp h v p po token db = (Inr snapshot, db')"
    by simp
  then obtain oid r db1 rows where "operation_id_of key = Inr oid"
    "commit_guard db oid user h token = Inr r" and
    1: "advance_pity now user grp v p db = (Inr snapshot, db1)" and
    2: "update_pull_operation_sql now (op_id r) po db1 = (Inr rows, db')" and "length rows = 1"
    by (rule commit_InrD)
  from update_ops_le[OF _ 2[unfolded update_pull_operation_sql_def]] advance_pity_le[OF 1]
  show ?thesis by (auto intro: db_le_trans)
qed

lemma store_step_le: "store_step db db' \<Longrightarrow> db_le db db'"
proof (induction rule: store_step.induct)
  case (step_insert row db)
  show ?case
    by (auto simp: insert_pull_operation_sql_def db_le_def rows_le_append rows_le_refl)
next
  case (step_update upd db sel)
  then show ?case by (metis update_ops_le prod.collapse)
next
  case (step_cas db now user grp v p)
  show ?case
    by (auto simp: compare_and_set_def eff_map_error_def transaction_def split: prod.splits sum.splits
        dest: advance_pity_le)
next
  case (step_commit db now key user grp h v p po token)
  show ?case by (metis commit_le prod.collapse)
qed

lemma store_steps_le: "store_steps db db' \<Longrightarrow> db_le db db'"
  by (induction rule: rtranclp_induct) (auto dest: store_step_le intro: db_le_trans)

lemma guarantees_query [guarantees_intros]: "preorder_rel R \<Longrightarrow> guarantees R (db_query q)"
  by (simp add: guarantees_def preorder_relD)

lemma guarantees_others [guarantees_intros]: "(\<And>db. R db (f db)) \<Longrightarrow> guarantees R (db_other_sessions f)"
  by (simp add: guarantees_def db_other_sessions_def)

lemma guarantees_update_ops: "keeps_identity upd \<Longrightarrow> guarantees store_steps (update_ops sel upd)"
  by (auto simp: guarantees_def intro: step_update)

lemma guarantees_statements [guarantees_intros]:
  "guarantees store_steps (claim_processing_operation_sql now user kh h token lease ctx)"
  "guarantees store_steps (update_pull_operation_sql now oid po)"
  "guarantees store_steps (transition_processing_operation_sql now oid user h token po)"
  "guarantees store_steps (save_pull_operation_sql now user kh po)"
  "guarantees store_steps (claim_expired_processing_operation_sql now oid token lease)"
  "guarantees store_steps (claim_pending_operation_sql now oid lock expected)"
  "guarantees store_steps (release_pending_operation_sql now oid)"
  unfolding claim_processing_operation_sql_def update_pull_operation_sql_def
    transition_processing_operation_sql_def save_pull_operation_sql_def
    claim_expired_processing_operation_sql_def claim_pending_operation_sql_def
    release_pending_operation_sql_def
  by (rule guarantees_update_ops, simp)+

lemma guarantees_insert [guarantees_intros]:
  "guarantees store_steps (insert_pull_operation_sql (new_op_row oid user kh h token now lease ctx rid))"
  by (auto simp: guarantees_def new_op_row_def intro!: r_into_rtranclp step_insert)

lemma guarantees_commits [guarantees_intros]:
  "guarantees store_steps (compare_and_set now user grp v p)"
  "guarantees store_steps (compare_and_set_with_pull_operation now key user grp h v p po token)"
  by (auto simp: guarantees_def intro: step_cas step_commit)

text \<open>Every other method of the store is a sequence of steps.\<close>

lemma guarantees_methods [guarantees_intros]:
  "guarantees store_steps (get_snapshot user grp)"
  "guarantees store_steps (get_pull_operation L user key)"
  "guarantees store_steps (list_pull_operations user limit)"
  "guarantees store_steps (get_pull_operation_record user oid)"
  "guarantees store_steps (get_pull_operation_by_key k)"
  "guarantees store_steps (get_pull_operation_by_event_id user ev)"
  "guarantees store_steps (transition_pull_operation_from_processing now k user h token po)"
  "guarantees store_steps (save_pull_operation L now user key po)"
  "guarantees store_steps (iter_event_pending_pull_operations limit)"
  "guarantees store_steps (iter_refund_pending_pull_operations limit)"
  "guarantees store_steps (iter_expired_processing_pull_operations now limit)"
  "guarantees store_steps (claim_expired_processing_pull_operation now token k lease)"
  "guarantees store_steps (claim_pull_operation_recovery now k st ttl)"
  "guarantees store_steps (release_pull_operation_recovery now k)"
  "guarantees store_steps (save_pull_operation_by_key now k po)"
  unfolding get_snapshot_def get_pull_operation_def list_pull_operations_def
    get_pull_operation_record_def get_pull_operation_by_key_def get_pull_operation_by_event_id_def
    transition_pull_operation_from_processing_def save_pull_operation_def
    iter_event_pending_pull_operations_def iter_refund_pending_pull_operations_def
    iter_expired_processing_pull_operations_def claim_expired_processing_pull_operation_def
    claim_pull_operation_recovery_def release_pull_operation_recovery_def
    save_pull_operation_by_key_def
  by (auto intro!: guarantees_intros)

lemma guarantees_begin [guarantees_intros]:
  assumes "\<And>db. store_steps db (fst others db)" "\<And>db. store_steps db (snd others db)"
  shows "guarantees store_steps (begin_pull_operation L nows others fresh user key h lease ctx)"
  unfolding begin_pull_operation_def Let_def case_prod_beta
  by (auto intro!: guarantees_intros assms split: list.splits)

section \<open>What the methods return\<close>

text \<open>The operation a call of \<open>begin_pull_operation\<close> returns, and when it hands out its token.\<close>

text \<open>The three ways a claim ends: a new row, a row taken over, or the row as it is.\<close>

lemma begin_cases:
  assumes b: "begin_pull_operation L (t1, t2) (o1, o2) (oid, token) user key h lease ctx db = (Inr cl, db')"
  obtains (created) rid where
      "\<forall>s \<in> set (db_ops db). op_user_id s \<noteq> user \<or> op_key_hash s \<noteq> idempotency_key_hash L key"
      "db_ops db' = db_ops db @ [new_op_row oid user (idempotency_key_hash L key) h token t1 (max 1 lease) ctx rid]"
      "cl = claim_of_row (Some token)
         (new_op_row oid user (idempotency_key_hash L key) h token t1 (max 1 lease) ctx rid)"
    | (taken) s r where "s \<in> set (db_ops (o1 db))" "op_user_id s = user" "op_key_hash s = idempotency_key_hash L key"
      "op_request_hash s = h" "op_status s = Processing" "lease_expired t2 s"
      "r = s\<lparr>op_processing_token := Some token, op_processing_lease_until := Some (t2 + seconds (max 1 lease)),
         op_recovery_context := (case op_recovery_context s of None \<Rightarrow> Some ctx | Some c \<Rightarrow> Some c),
         op_updated_at := t2\<rparr>"
      "r \<in> set (db_ops db')" "cl = claim_of_row (Some token) r"
    | (found) r where "r \<in> set (db_ops db')" "op_user_id r = user" "op_key_hash r = idempotency_key_hash L key"
      "cl = claim_of_row None r"
proof -
  let ?kh = "idempotency_key_hash L key" and ?lease = "max 1 lease"
  from b obtain rid where rid: "request_id_column (rc_request_id ctx) = Inr rid"
    by (auto simp: begin_pull_operation_def eff_defs Let_def split: sum.splits)
  let ?row = "new_op_row oid user ?kh h token t1 ?lease ctx rid"
  obtain res d0 where ins: "insert_pull_operation_sql ?row db = (res, d0)" by force
  consider (new) "res = Inr (Some ?row)" "d0 = db\<lparr>db_ops := db_ops db @ [?row]\<rparr>"
      "\<forall>s \<in> set (db_ops db). op_user_id s \<noteq> user \<or> op_key_hash s \<noteq> ?kh"
    | (old) "res = Inr None" "d0 = db" | (err) e where "res = Inl e"
    using ins by (auto simp: insert_pull_operation_sql_def new_op_row_def split: if_splits)
  then show thesis
  proof cases
    case new
    with b rid ins have "cl = claim_of_row (Some token) ?row" "db' = d0"
      by (simp_all add: begin_pull_operation_def eff_defs Let_def)
    with new show thesis by (intro created) simp_all
  next
    case old
    let ?sel = "\<lambda>r. op_user_id r = user \<and> op_key_hash r = ?kh \<and> op_request_hash r = h \<and>
      op_status r = Processing \<and> lease_expired t2 r"
    obtain rows d2 where cl: "claim_processing_operation_sql t2 user ?kh h token ?lease ctx (o1 db) = (rows, d2)"
      by force
    note run = b rid ins old cl
    from cl[unfolded claim_processing_operation_sql_def] show thesis
    proof (cases rule: update_ops_cases)
      case (error e)
      then show thesis using run by (simp add: begin_pull_operation_def eff_defs Let_def db_other_sessions_def)
    next
      case ok
      show thesis
      proof (cases "filter ?sel (db_ops (o1 db))")
        case Nil
        with ok(1) have "rows = Inr []" by simp
        with run obtain r where
          "select_pull_operation_sql user ?kh (o2 d2) = Some r" "cl = claim_of_row None r" "db' = o2 d2"
          by (auto simp: begin_pull_operation_def eff_defs Let_def db_other_sessions_def db_query_def
              split: option.splits)
        then show thesis by (intro found) (auto simp: select_pull_operation_sql_def find_Some_iff)
      next
        case (Cons s rest)
        then have "s \<in> set (filter ?sel (db_ops (o1 db)))" by simp
        then have s: "s \<in> set (db_ops (o1 db))" "?sel s" by simp_all
        define r where "r = s\<lparr>op_processing_token := Some token,
          op_processing_lease_until := Some (t2 + seconds ?lease),
          op_recovery_context := (case op_recovery_context s of None \<Rightarrow> Some ctx | Some c \<Rightarrow> Some c),
          op_updated_at := t2\<rparr>"
        have "r \<in> set (db_ops d2)" using s by (force simp: ok(2) updated_def r_def)
        moreover have "cl = claim_of_row (Some token) r" "db' = d2"
          using run ok(1) Cons
          by (simp_all add: begin_pull_operation_def eff_defs Let_def db_other_sessions_def r_def)
        ultimately show thesis using s by (intro taken[OF _ _ _ _ _ _ r_def]) simp_all
      qed
    qed
  next
    case err
    with b rid ins show thesis by (simp add: begin_pull_operation_def eff_defs Let_def)
  qed
qed

lemma begin_claim_facts:
  assumes b: "begin_pull_operation L (t1, t2) (o1, o2) (oid, token) user key h lease ctx db = (Inr cl, db')"
  shows "\<exists>r \<in> set (db_ops db'). cl_operation_key cl = uuid_str (op_id r) \<and>
    cl_operation cl = operation_from_row r \<and> op_user_id r = user \<and>
    op_key_hash r = idempotency_key_hash L key \<and>
    (cl_processing_token cl \<noteq> None \<longrightarrow>
       cl_processing_token cl = Some token \<and> op_processing_token r = Some token \<and>
       op_status r = Processing \<and> op_request_hash r = h \<and>
       ((op_id r = oid \<and> (\<forall>s \<in> set (db_ops db). op_user_id s \<noteq> user \<or> op_key_hash s \<noteq> op_key_hash r)) \<or>
        (\<exists>s \<in> set (db_ops (o1 db)). op_id s = op_id r \<and> op_user_id s = user \<and>
           op_key_hash s = op_key_hash r \<and> op_request_hash s = h \<and> op_status s = Processing \<and>
           lease_expired t2 s)))"
  using b
proof (cases rule: begin_cases)
  case (created rid)
  then show ?thesis by (simp add: claim_of_row_def new_op_row_def)
next
  case (taken s r)
  then show ?thesis by (intro bexI[of _ r]) (auto simp: claim_of_row_def)
next
  case (found r)
  then show ?thesis by (intro bexI[of _ r]) (simp_all add: claim_of_row_def)
qed


text \<open>Reads return stored rows.\<close>

lemma get_by_key_row:
  assumes "get_pull_operation_by_key (uuid_str oid) db = (Inr (Some po), db')"
  shows "db' = db \<and> (\<exists>r \<in> set (db_ops db). op_id r = oid \<and> po = operation_from_row r)"
  using assms
  by (auto simp: get_pull_operation_by_key_def eff_defs operation_id_of_def uuid_parse_str db_query_def
      select_pull_operation_by_id_sql_def find_Some_iff split: option.splits)

lemma get_operation_row:
  assumes "get_pull_operation L user key db = (Inr (Some po), db')"
  shows "db' = db \<and> (\<exists>r \<in> set (db_ops db). op_user_id r = user \<and>
    op_key_hash r = idempotency_key_hash L key \<and> po = operation_from_row r)"
  using assms
  by (auto simp: get_pull_operation_def db_query_def select_pull_operation_sql_def find_Some_iff)

text \<open>After a successful commit the operation is stored.\<close>

lemma commit_stores:
  assumes "compare_and_set_with_pull_operation now key user grp h v p po token db = (Inr n, db')"
  shows "\<exists>r \<in> set (db_ops db'). uuid_parse key = Some (op_id r) \<and> op_user_id r = user \<and>
    op_request_hash r = h \<and> op_status r = po_status po \<and> op_response r = po_response po \<and>
    op_event r = po_event po"
proof -
  from assms obtain oid r db1 rows where oid: "operation_id_of key = Inr oid" and
    g: "commit_guard db oid user h token = Inr r" and
    1: "advance_pity now user grp v p db = (Inr n, db1)" and
    2: "update_pull_operation_sql now (op_id r) po db1 = (Inr rows, db')" and len: "length rows = 1"
    by (rule commit_InrD)
  from g have r: "r \<in> set (db_ops db)" "op_id r = oid" "op_user_id r = user" "op_request_hash r = h"
    by (auto simp: commit_guard_def find_Some_iff split: option.splits if_splits)
  have "rows_le row_le (db_ops db) (db_ops db1)" using advance_pity_le[OF 1] by (simp add: db_le_def)
  from rows_le_member[OF this r(1)] obtain s where s: "s \<in> set (db_ops db1)" "row_le r s" by blast
  let ?s = "(release_claim now (with_operation po s))\<lparr>op_recovery_locked_until := None\<rparr>"
  have "?s \<in> set (db_ops db')"
    using 2[unfolded update_pull_operation_sql_def]
  proof (cases rule: update_ops_cases)
    case ok
    with s show ?thesis by (auto simp: updated_def row_le_def image_iff intro!: bexI[of _ s])
  qed simp
  moreover have "uuid_parse key = Some oid"
    using oid by (simp add: operation_id_of_def split: option.splits)
  ultimately show ?thesis
    using s r by (intro bexI[of _ ?s]) (auto simp: row_le_def release_claim_def with_operation_def)
qed

end
