(* ===== verification/Versioned_Store.thy ===== *)
theory Versioned_Store
  imports Gacha_Schemas Gacha_Effects
begin

text \<open>
  The contract of optimistic concurrency on pity snapshots, as the pull service uses it: a read,
  and a conditional write that succeeds only at the expected version. The laws are those of one
  operation; the lemmas of the locale are about any sequence of writes by any number of workers:
  the committed versions of a key are consecutive, each successful write starts from the previous
  one, and the last one is what a read returns.
\<close>

locale versioned_store =
  fixes get :: "'k \<Rightarrow> 's \<Rightarrow> pity_snapshot"
    and put :: "'r \<Rightarrow> 's \<Rightarrow> pity_snapshot result \<times> 's"
    and key_of :: "'r \<Rightarrow> 'k"
    and expected :: "'r \<Rightarrow> int"
    and next_state :: "'r \<Rightarrow> pity_state"
    and inv :: "'s \<Rightarrow> bool"
  assumes put_inv: "inv s \<Longrightarrow> put r s = (res, s') \<Longrightarrow> inv s'"
    and put_ok: "inv s \<Longrightarrow> put r s = (Inr n, s') \<Longrightarrow>
          version (get (key_of r) s) = expected r \<and>
          n = with_version (next_state r) (expected r + 1) \<and> get (key_of r) s' = n"
    and put_frame: "inv s \<Longrightarrow> put r s = (Inr n, s') \<Longrightarrow> k \<noteq> key_of r \<Longrightarrow> get k s' = get k s"
    and put_error: "inv s \<Longrightarrow> put r s = (Inl e, s') \<Longrightarrow> get k s' = get k s"
begin

text \<open>A sequence of writes, with the commits it makes, in order.\<close>

fun writes :: "'r list \<Rightarrow> 's \<Rightarrow> ('k \<times> pity_snapshot) list \<times> 's" where
  "writes [] s = ([], s)"
| "writes (r # rs) s =
     (case put r s of
        (Inl e, s1) \<Rightarrow> writes rs s1
      | (Inr n, s1) \<Rightarrow> (case writes rs s1 of (cs, s2) \<Rightarrow> ((key_of r, n) # cs, s2)))"

definition commits_of :: "'k \<Rightarrow> ('k \<times> pity_snapshot) list \<Rightarrow> pity_snapshot list" where
  "commits_of k cs = map snd (filter (\<lambda>c. fst c = k) cs)"

lemma commits_of_simps [simp]:
  "commits_of k [] = []"
  "commits_of k ((k', n) # cs) = (if k' = k then n # commits_of k cs else commits_of k cs)"
  by (simp_all add: commits_of_def)

lemma writes_inv: "inv s \<Longrightarrow> writes rs s = (cs, s') \<Longrightarrow> inv s'"
  by (induction rs arbitrary: s cs) (auto split: prod.splits sum.splits dest: put_inv)

text \<open>The committed versions of a key are the versions after the one read before, without a gap.\<close>

lemma writes_versions:
  assumes "inv s" "writes rs s = (cs, s')"
  shows "map version (commits_of k cs) =
      map (\<lambda>i. version (get k s) + 1 + int i) [0..<length (commits_of k cs)] \<and>
    get k s' = last (get k s # commits_of k cs)"
  using assms
proof (induction rs arbitrary: s cs)
  case Nil
  then show ?case by simp
next
  case (Cons r rs)
  obtain res s1 where w: "put r s = (res, s1)" by force
  have inv1: "inv s1" by (rule put_inv[OF Cons.prems(1) w])
  show ?case
  proof (cases res)
    case (Inl e)
    with Cons.prems w have "writes rs s1 = (cs, s')" by simp
    with Cons.IH[OF inv1 this] put_error[OF Cons.prems(1) w[unfolded Inl]] show ?thesis by simp
  next
    case (Inr n)
    obtain cs' where cs: "writes rs s1 = (cs', s')" "cs = (key_of r, n) # cs'"
      using Cons.prems(2) w Inr by (auto split: prod.splits)
    note IH = Cons.IH[OF inv1 cs(1)]
    show ?thesis
    proof (cases "key_of r = k")
      case True
      from put_ok[OF Cons.prems(1) w[unfolded Inr]] True
      have n: "version (get k s) = expected r" "version n = expected r + 1" "get k s1 = n" by simp_all
      let ?m = "length (commits_of k cs')"
      have "map version (n # commits_of k cs') =
          (expected r + 1) # map (\<lambda>i. expected r + 1 + 1 + int i) [0..<?m]"
        using IH n by simp
      also have "\<dots> = map (\<lambda>i. expected r + 1 + int i) [0..<Suc ?m]"
        by (simp only: upt_conv_Cons[OF zero_less_Suc] list.map map_Suc_upt[symmetric] map_map)
           (simp add: comp_def)
      finally show ?thesis using IH n cs(2) True by simp
    next
      case False
      with put_frame[OF Cons.prems(1) w[unfolded Inr]] IH cs(2) show ?thesis by auto
    qed
  qed
qed

text \<open>So the version counts the commits, and no two commits of a key share a version.\<close>

lemma writes_count:
  assumes "inv s" "writes rs s = (cs, s')"
  shows "version (get k s') = version (get k s) + int (length (commits_of k cs))"
proof -
  let ?c = "commits_of k cs"
  have "version (get k s') = version (last (get k s # ?c))"
    using writes_versions[OF assms, of k] by simp
  also have "\<dots> = version (get k s) + int (length ?c)"
  proof (cases ?c rule: rev_cases)
    case Nil
    then show ?thesis by simp
  next
    case (snoc xs x)
    have "map version ?c ! length xs = version (get k s) + 1 + int (length xs)"
      using writes_versions[OF assms, of k] snoc by (simp del: upt_Suc)
    with snoc show ?thesis by (simp add: nth_append)
  qed
  finally show ?thesis .
qed

lemma writes_distinct:
  assumes "inv s" "writes rs s = (cs, s')"
  shows "distinct (map version (commits_of k cs))"
  using writes_versions[OF assms, of k] by (simp add: distinct_map inj_on_def)

end

end
