(* ===== verification/Store_Guarantees.thy ===== *)
theory Store_Guarantees
  imports Postgres_Props Versioned_Store
begin

text \<open>
  The promises of the state store: both of its conditional commits are instances of the contract
  \<open>versioned_store\<close>, a commit is atomic and guarded by the processing claim, audit evidence is
  immutable, and an idempotency key names one operation for ever.
\<close>

section \<open>The snapshot a read returns\<close>

definition snapshot_at :: "uuid \<times> string \<Rightarrow> database \<Rightarrow> pity_snapshot" where
  "snapshot_at k db =
     (case select_pity_sql (fst k) (snd k) db of
        None \<Rightarrow> with_version create_initial_pity 0
      | Some r \<Rightarrow> snapshot_from_row r)"

lemma get_snapshot_at: "get_snapshot user grp db = (Inr (snapshot_at (user, grp) db), db)"
  by (simp add: get_snapshot_def db_query_def snapshot_at_def)

lemma at_pity_key: "at_pity user grp r \<longleftrightarrow> pity_key r = (user, grp)"
  by (auto simp: at_pity_def pity_key_def)

lemma select_pity_Some:
  assumes "distinct (map pity_key (db_pity db))"
  shows "select_pity_sql user grp db = Some r \<longleftrightarrow> r \<in> set (db_pity db) \<and> at_pity user grp r"
  using find_key_Some[OF assms] by (simp add: select_pity_sql_def at_pity_key[abs_def])

lemma select_pity_None:
  "select_pity_sql user grp db = None \<longleftrightarrow> (\<forall>r \<in> set (db_pity db). \<not> at_pity user grp r)"
  by (auto simp: select_pity_sql_def find_None_iff)

lemma wf_pity_distinct: "wf_db db \<Longrightarrow> distinct (map pity_key (db_pity db))"
  by (simp add: wf_db_def)

lemma snapshot_of_row:
  "wf_db db \<Longrightarrow> r \<in> set (db_pity db) \<Longrightarrow> pity_key r = k \<Longrightarrow> snapshot_at k db = snapshot_from_row r"
  using select_pity_Some[OF wf_pity_distinct, of db "fst k" "snd k" r]
  by (simp add: snapshot_at_def at_pity_key)

lemma snapshot_with_pity:
  "snapshot_from_row (with_pity now p r) = with_version p (pt_version r + 1)"
  by (simp add: snapshot_from_row_def with_pity_def with_version_def)

text \<open>Creating the initial row does not change any snapshot.\<close>

lemma insert_pity_snapshot:
  assumes wf: "wf_db db" and ins: "insert_initial_pity_sql now user grp db = (res, db')"
  shows "snapshot_at k db' = snapshot_at k db"
proof (cases "db' = db")
  case False
  with ins obtain row where db': "db' = db\<lparr>db_pity := db_pity db @ [row]\<rparr>"
    and row: "pity_key row = (user, grp)" "snapshot_from_row row = with_version create_initial_pity 0"
    and new: "\<forall>r \<in> set (db_pity db). \<not> at_pity user grp r"
    by (auto simp: insert_initial_pity_sql_def Let_def pity_key_def snapshot_from_row_def
        with_version_def create_initial_pity_def split: if_splits)
  show ?thesis
  proof (cases "k = (user, grp)")
    case True
    have "find (at_pity user grp) (db_pity db) = None" using new by (simp add: find_None_iff)
    with True row show ?thesis
      by (simp add: snapshot_at_def select_pity_sql_def db' at_pity_key find_append_list)
  next
    case False
    with row show ?thesis
      by (auto simp: snapshot_at_def select_pity_sql_def db' at_pity_key find_append_list
          split: option.splits)
  qed
qed simp

lemma update_pity_snapshot:
  assumes wf: "wf_db db" and upd: "update_pity_sql now user grp v p db = (Inr out, db')"
  shows "case out of
      None \<Rightarrow> db' = db
    | Some r \<Rightarrow> version (snapshot_at (user, grp) db) = v \<and>
        snapshot_from_row r = with_version p (v + 1) \<and>
        snapshot_at (user, grp) db' = with_version p (v + 1) \<and>
        (\<forall>k. k \<noteq> (user, grp) \<longrightarrow> snapshot_at k db' = snapshot_at k db) \<and> db_ops db' = db_ops db"
proof -
  let ?sel = "\<lambda>r. at_pity user grp r \<and> pt_version r = v"
  let ?rows = "map (\<lambda>r. if ?sel r then with_pity now p r else r) (db_pity db)"
  have out: "out = (case filter ?sel (db_pity db) of [] \<Rightarrow> None | r # _ \<Rightarrow> Some (with_pity now p r))"
    and db': "db' = db\<lparr>db_pity := ?rows\<rparr>"
    using upd by (auto simp: update_pity_sql_def Let_def split: if_splits)
  have wf': "wf_db db'" using update_pity_wf[OF wf upd] by simp
  show ?thesis
  proof (cases "filter ?sel (db_pity db)")
    case Nil
    then have "?rows = db_pity db" by (intro map_idI) (auto simp: filter_empty_conv)
    with Nil show ?thesis by (simp add: out db')
  next
    case (Cons r rs)
    then have "r \<in> set (filter ?sel (db_pity db))" by simp
    then have r: "r \<in> set (db_pity db)" "pity_key r = (user, grp)" "pt_version r = v"
      by (simp_all add: at_pity_key)
    have "with_pity now p r \<in> set (db_pity db')"
      using r by (force simp: db' at_pity_key)
    moreover have "pity_key (with_pity now p r) = (user, grp)"
      using r(2) by (simp add: pity_key_def with_pity_def)
    ultimately have new: "snapshot_at (user, grp) db' = with_version p (v + 1)"
      using snapshot_of_row[OF wf'] r(3) by (simp add: snapshot_with_pity)
    have old: "version (snapshot_at (user, grp) db) = v"
      using snapshot_of_row[OF wf r(1,2)] r(3) by (simp add: snapshot_from_row_def)
    have frame: "snapshot_at k db' = snapshot_at k db" if k: "k \<noteq> (user, grp)" for k
    proof -
      have "find (at_pity (fst k) (snd k)) (map (\<lambda>r. if ?sel r then with_pity now p r else r) xs)
          = find (at_pity (fst k) (snd k)) xs" for xs
        using k by (induction xs) (auto simp: at_pity_key pity_key_def with_pity_def)
      then show ?thesis by (simp add: snapshot_at_def select_pity_sql_def db')
    qed
    show ?thesis
      using new old frame Cons r(3) by (simp add: out db' snapshot_with_pity)
  qed
qed

lemma advance_pity_InrD:
  assumes "advance_pity now user grp v p db = (Inr n, db')"
  obtains d1 r where "insert_initial_pity_sql now user grp db = (Inr (), d1)"
    "update_pity_sql now user grp v p d1 = (Inr (Some r), db')" "n = snapshot_from_row r"
  using assms
  by (auto simp: advance_pity_def eff_then_def eff_bind_def eff_return_def eff_raise_def
      current_pity_version_def db_query_def split: prod.splits sum.splits option.splits)

lemma insert_pity_ops: "insert_initial_pity_sql now user grp db = (res, db') \<Longrightarrow> db_ops db' = db_ops db"
  by (auto simp: insert_initial_pity_sql_def Let_def split: if_splits)

lemma advance_pity_ok:
  assumes wf: "wf_db db" and adv: "advance_pity now user grp v p db = (Inr n, db')"
  shows "version (snapshot_at (user, grp) db) = v" "n = with_version p (v + 1)"
    "snapshot_at (user, grp) db' = n" "k \<noteq> (user, grp) \<Longrightarrow> snapshot_at k db' = snapshot_at k db"
    "db_ops db' = db_ops db"
proof -
  obtain d1 r where 1: "insert_initial_pity_sql now user grp db = (Inr (), d1)"
    and 2: "update_pity_sql now user grp v p d1 = (Inr (Some r), db')" and n: "n = snapshot_from_row r"
    using adv by (rule advance_pity_InrD)
  have wf1: "wf_db d1" using insert_pity_wf[OF wf 1] by simp
  from update_pity_snapshot[OF wf1 2] insert_pity_snapshot[OF wf 1] insert_pity_ops[OF 1] n
  show "version (snapshot_at (user, grp) db) = v" "n = with_version p (v + 1)"
    "snapshot_at (user, grp) db' = n" "k \<noteq> (user, grp) \<Longrightarrow> snapshot_at k db' = snapshot_at k db"
    "db_ops db' = db_ops db"
    by (simp_all only: option.case simp_thms)
qed

section \<open>Both commits are versioned stores\<close>

record cas_request =
  cq_now :: instant
  cq_user_id :: uuid
  cq_pity_group_id :: string
  cq_expected_version :: int
  cq_next_pity :: pity_state

record commit_request = cas_request +
  cq_operation_key :: string
  cq_request_hash :: string
  cq_operation :: pull_operation
  cq_processing_token :: uuid

definition cas_put :: "cas_request \<Rightarrow> pity_snapshot db_op" where
  "cas_put q = compare_and_set (cq_now q) (cq_user_id q) (cq_pity_group_id q) (cq_expected_version q)
     (cq_next_pity q)"

definition commit_put :: "commit_request \<Rightarrow> pity_snapshot db_op" where
  "commit_put q = compare_and_set_with_pull_operation (cq_now q) (cq_operation_key q) (cq_user_id q)
     (cq_pity_group_id q) (cq_request_hash q) (cq_expected_version q) (cq_next_pity q)
     (cq_operation q) (cq_processing_token q)"

lemma compare_and_set_Inl: "compare_and_set now user grp v p db = (Inl e, db') \<Longrightarrow> db' = db"
  by (auto simp: compare_and_set_def eff_map_error_def transaction_def split: prod.splits sum.splits)

lemma compare_and_set_Inr:
  "compare_and_set now user grp v p db = (Inr n, db') \<longleftrightarrow> advance_pity now user grp v p db = (Inr n, db')"
  by (auto simp: compare_and_set_def eff_map_error_def transaction_def split: prod.splits sum.splits)

interpretation cas_store: versioned_store snapshot_at cas_put
    "\<lambda>q. (cq_user_id q, cq_pity_group_id q)" cq_expected_version cq_next_pity wf_db
  by unfold_locales
    (auto simp: cas_put_def compare_and_set_Inr dest: compare_and_set_wf compare_and_set_Inl advance_pity_ok)

lemma update_op_keeps_pity:
  "update_pull_operation_sql now oid po db = (res, db') \<Longrightarrow> db_pity db' = db_pity db"
  unfolding update_pull_operation_sql_def by (erule update_ops_cases) auto

lemma commit_ok:
  assumes wf: "wf_db db" and c: "compare_and_set_with_pull_operation now key user grp h v p po token db = (Inr n, db')"
  shows "version (snapshot_at (user, grp) db) = v" "n = with_version p (v + 1)"
    "snapshot_at (user, grp) db' = n" "k \<noteq> (user, grp) \<Longrightarrow> snapshot_at k db' = snapshot_at k db"
proof -
  from c obtain oid r db1 rows where "operation_id_of key = Inr oid"
    "commit_guard db oid user h token = Inr r" and
    1: "advance_pity now user grp v p db = (Inr n, db1)" and
    2: "update_pull_operation_sql now (op_id r) po db1 = (Inr rows, db')" and "length rows = 1"
    by (rule commit_InrD)
  have "snapshot_at k db' = snapshot_at k db1" for k
    using update_op_keeps_pity[OF 2] by (simp add: snapshot_at_def select_pity_sql_def)
  with advance_pity_ok[OF wf 1] show "version (snapshot_at (user, grp) db) = v" "n = with_version p (v + 1)"
    "snapshot_at (user, grp) db' = n" "k \<noteq> (user, grp) \<Longrightarrow> snapshot_at k db' = snapshot_at k db"
    by simp_all
qed

interpretation commit_store: versioned_store snapshot_at commit_put
    "\<lambda>q. (cq_user_id q, cq_pity_group_id q)" cq_expected_version cq_next_pity wf_db
  by unfold_locales (auto simp: commit_put_def dest: commit_wf commit_InlD commit_ok)

section \<open>A worked database\<close>

definition sample_hash :: string where
  "sample_hash = replicate 64 (CHR ''0'')"

lemma sample_hash_text: "sha256_text sample_hash"
  by (simp add: sample_hash_def sha256_text_def)

definition sample_context :: pull_recovery_context where
  "sample_context =
     \<lparr>rc_banner = \<lparr>b_id = ''b'', b_name = ''b'', b_short_name = ''b'', b_type = Standard,
        b_description = [], b_featured_five_id = None, b_featured_four_ids = [], b_item_pool = [''i''],
        b_theme = \<lparr>bt_primary = [], bt_secondary = [], bt_glow = []\<rparr>\<rparr>,
      rc_pity_group_id = ''g'', rc_banner_version_id = None, rc_banner_version = 1, rc_items = [],
      rc_rarity_rates = [], rc_featured_rules = [], rc_pity_rules = [],
      rc_featured_item_ids_by_rarity = [], rc_count = 1, rc_seed = ''s'', rc_event_id = 7,
      rc_amount_minor = 160, rc_request_id = [], rc_accepted_at = None, rc_audit = None\<rparr>"

definition sample_row :: op_row where
  "sample_row = new_op_row 1 2 sample_hash sample_hash 3 0 30 sample_context None"

definition sample_response :: pull_response where
  "sample_response =
     \<lparr>re_event_id = uuid_str 7, re_accepted_at = None, re_pity_group_id = Some ''g'',
      re_banner_version_id = None, re_seed = ''s'', re_records = [],
      re_previous_pity = with_version create_initial_pity 0,
      re_next_pity = with_version create_initial_pity 1, re_state_version = 1, re_audit = None\<rparr>"

definition sample_pending :: pull_operation where
  "sample_pending =
     \<lparr>po_status = Event_Pending, po_request_hash = sample_hash, po_response = Some sample_response,
      po_event = None, po_error_code = None, po_error_message = None, po_recovery_context = None\<rparr>"

definition empty_db :: database where
  "empty_db = \<lparr>db_pity = [], db_ops = []\<rparr>"

definition sample_db :: database where
  "sample_db = empty_db\<lparr>db_ops := [sample_row]\<rparr>"

lemma sample_row_fields [simp]:
  "op_id sample_row = 1" "op_user_id sample_row = 2" "op_key_hash sample_row = sample_hash"
  "op_request_hash sample_row = sample_hash" "op_status sample_row = Processing"
  "op_response sample_row = None" "op_event sample_row = None" "op_error_code sample_row = None"
  "op_error_message sample_row = None" "op_processing_token sample_row = Some 3"
  "op_processing_lease_until sample_row = Some 30000000"
  "op_recovery_context sample_row = Some sample_context" "op_recovery_locked_until sample_row = None"
  by (simp_all add: sample_row_def new_op_row_def seconds_def)

lemma empty_db_wf: "wf_db empty_db"
  by (simp add: wf_db_def empty_db_def event_ids_def map_filter_def)

lemma sample_db_step: "store_step empty_db sample_db"
proof -
  have "snd (insert_pull_operation_sql sample_row empty_db) = sample_db"
    by (simp add: insert_pull_operation_sql_def sample_db_def empty_db_def op_checks_def sample_hash_text)
  then show ?thesis using step_insert[of sample_row empty_db] by simp
qed

lemma sample_db_wf: "wf_db sample_db"
  using store_step_wf[OF sample_db_step empty_db_wf] by simp

definition sample_committed_row :: op_row where
  "sample_committed_row =
     (release_claim 5 (with_operation sample_pending sample_row))\<lparr>op_recovery_locked_until := None\<rparr>"

definition sample_pity_row :: pity_row where
  "sample_pity_row = \<lparr>pt_user_id = 2, pt_banner_id = ''g'', pt_pity_group_id = ''g'', pt_since_five = 0,
     pt_since_four = 0, pt_guaranteed_featured_five = False, pt_version = 1, pt_created_at = 5,
     pt_updated_at = 5\<rparr>"

definition sample_committed :: database where
  "sample_committed = \<lparr>db_pity = [sample_pity_row], db_ops = [sample_committed_row]\<rparr>"

lemma sample_commit:
  "compare_and_set_with_pull_operation 5 (uuid_str 1) 2 ''g'' sample_hash 0 create_initial_pity
     sample_pending 3 sample_db = (Inr (with_version create_initial_pity 1), sample_committed)"
proof -
  have "protect_update sample_row sample_committed_row"
    by (simp add: protect_update_def)
  moreover have "op_checks sample_committed_row"
    by (simp add: sample_committed_row_def op_checks_def with_operation_def release_claim_def
        sample_hash_text sample_pending_def)
  ultimately have upd: "update_pull_operation_sql 5 1 sample_pending (sample_db\<lparr>db_pity := [sample_pity_row]\<rparr>)
      = (Inr [sample_committed_row], sample_committed)"
    by (simp add: update_pull_operation_sql_def update_ops_def sample_db_def empty_db_def
        sample_committed_row_def[symmetric] sample_committed_def event_ids_def map_filter_def)
  have adv: "advance_pity 5 2 ''g'' 0 create_initial_pity sample_db =
      (Inr (with_version create_initial_pity 1), sample_db\<lparr>db_pity := [sample_pity_row]\<rparr>)"
    by (simp add: advance_pity_def eff_defs insert_initial_pity_sql_def update_pity_sql_def sample_db_def
        empty_db_def pity_checks_def py_len_def at_pity_def with_pity_def create_initial_pity_def
        sample_pity_row_def snapshot_from_row_def with_version_def)
  show ?thesis
    using adv upd
    by (simp add: compare_and_set_with_pull_operation_def eff_defs db_query_def operation_id_of_def
        uuid_parse_str sample_db_def empty_db_def)
qed

section \<open>Properties of the store\<close>

text \<open>C9: audit evidence is immutable. Once an operation has reached a delivery status (event pending,
  event published or succeeded), no sequence of statements of any number of workers deletes it,
  changes its user, idempotency key, request hash, response or event, or moves it back to an
  earlier status.\<close>

theorem evidence_immutable:
  assumes db: "wf_db db" and steps: "store_steps db db'"
    and r: "r \<in> set (db_ops db)" "op_status r \<in> {Event_Pending, Event_Published, Succeeded}"
  shows "\<exists>r' \<in> set (db_ops db'). op_id r' = op_id r \<and> op_user_id r' = op_user_id r \<and>
    op_key_hash r' = op_key_hash r \<and> op_request_hash r' = op_request_hash r \<and>
    op_response r' = op_response r \<and> op_event r' = op_event r \<and>
    delivery_rank (op_status r) \<le> delivery_rank (op_status r')"
proof -
  have "rows_le row_le (db_ops db) (db_ops db')"
    using store_steps_wf[OF steps db] by (simp add: db_le_def)
  from rows_le_member[OF this r(1)] r(2) show ?thesis
    by (auto simp: row_le_def has_evidence_def)
qed

lemma evidence_immutable_witness:
  "\<exists>r' \<in> set (db_ops (snd (save_pull_operation_by_key 9 (uuid_str 1)
      (sample_pending\<lparr>po_status := Failed, po_response := None\<rparr>) sample_committed))).
     op_response r' = Some sample_response \<and> 1 \<le> delivery_rank (op_status r')"
proof -
  have wf: "wf_db sample_committed" using commit_wf[OF sample_db_wf sample_commit] by simp
  have "store_steps sample_committed (snd (save_pull_operation_by_key 9 (uuid_str 1)
      (sample_pending\<lparr>po_status := Failed, po_response := None\<rparr>) sample_committed))"
    using guarantees_methods(15) by (simp add: guarantees_def)
  moreover have "sample_committed_row \<in> set (db_ops sample_committed)"
    by (simp add: sample_committed_def)
  moreover have "op_status sample_committed_row = Event_Pending"
    "op_response sample_committed_row = Some sample_response"
    by (simp_all add: sample_committed_row_def release_claim_def with_operation_def sample_pending_def)
  ultimately show ?thesis
    using evidence_immutable[OF wf, of _ sample_committed_row] by (metis delivery_rank.simps(1) insertCI)
qed

text \<open>C20: the invariant of the tables. In every state reachable from empty tables by any interleaving of
  the program's statements, operation ids and event ids are unique, a user's idempotency key
  names at most one operation, hashes and error texts satisfy their constraints, a user has one
  pity row per group, its counters and version are in range and it is filed under its own group.\<close>

theorem store_invariant:
  assumes "store_steps empty_db db"
  shows "distinct (map op_id (db_ops db))
    \<and> distinct (map (\<lambda>r. (op_user_id r, op_key_hash r)) (db_ops db))
    \<and> distinct (event_ids (db_ops db))
    \<and> (\<forall>r \<in> set (db_ops db). sha256_text (op_key_hash r) \<and> sha256_text (op_request_hash r))
    \<and> distinct (map (\<lambda>r. (pt_user_id r, pt_pity_group_id r)) (db_pity db))
    \<and> (\<forall>r \<in> set (db_pity db). pity_checks r \<and> pt_banner_id r = pt_pity_group_id r)"
proof -
  have "wf_db db" using store_steps_wf[OF assms empty_db_wf] by simp
  then show ?thesis
    by (simp add: wf_db_def op_checks_def op_key_def[abs_def] pity_key_def[abs_def])
qed

lemma store_invariant_witness:
  "distinct (map op_id (db_ops sample_committed)) \<and> pity_checks sample_pity_row"
proof -
  have "store_step sample_db (snd (compare_and_set_with_pull_operation 5 (uuid_str 1) 2 ''g'' sample_hash 0
      create_initial_pity sample_pending 3 sample_db))" by (rule step_commit)
  then have "store_step sample_db sample_committed" by (simp only: sample_commit snd_conv)
  with sample_db_step have "store_steps empty_db sample_committed"
    by (rule rtranclp.rtrancl_into_rtrancl[OF r_into_rtranclp])
  from store_invariant[OF this] show ?thesis by (simp add: sample_committed_def)
qed

text \<open>C18: no lost update. Whatever commits any workers attempt, in any order and with any expected
  versions, the snapshots that do get committed for one player and pity group carry consecutive
  versions after the one before, and the last of them is what the next read returns.\<close>

theorem commits_are_serial:
  assumes "wf_db db" "commit_store.writes requests db = (commits, db')"
  shows "map version (commit_store.commits_of k commits) =
      map (\<lambda>i. version (snapshot_at k db) + 1 + int i) [0..<length (commit_store.commits_of k commits)]
    \<and> snapshot_at k db' = last (snapshot_at k db # commit_store.commits_of k commits)"
  by (rule commit_store.writes_versions[OF assms])

definition sample_request :: commit_request where
  "sample_request = \<lparr>cq_now = 5, cq_user_id = 2, cq_pity_group_id = ''g'', cq_expected_version = 0,
     cq_next_pity = create_initial_pity, cq_operation_key = uuid_str 1, cq_request_hash = sample_hash,
     cq_operation = sample_pending, cq_processing_token = 3\<rparr>"

lemma commits_are_serial_witness:
  "snapshot_at (2, ''g'') (snd (commit_store.writes [sample_request] sample_db))
     = with_version create_initial_pity 1"
proof -
  have put: "commit_put sample_request sample_db = (Inr (with_version create_initial_pity 1), sample_committed)"
    unfolding commit_put_def sample_request_def using sample_commit by simp
  have w: "commit_store.writes [sample_request] sample_db =
      ([((2, ''g''), with_version create_initial_pity 1)], sample_committed)"
    using put by (simp add: sample_request_def)
  from commits_are_serial[OF sample_db_wf w, of "(2, ''g'')"] show ?thesis
    unfolding w by simp
qed

text \<open>C8: the commit is atomic and guarded. A commit that raises changes nothing. One that succeeds was
  made by the holder of the processing token of an operation in processing with the same request
  hash, at exactly the expected pity version; it advances that player's pity by one version, leaves
  every other snapshot and every other operation as it was, and stores the operation with its claim
  released.\<close>

theorem commit_is_atomic:
  assumes wf: "wf_db db"
    and c: "compare_and_set_with_pull_operation now key user grp h v p po token db = (res, db')"
  shows "case res of
      Inl e \<Rightarrow> db' = db
    | Inr n \<Rightarrow> version (snapshot_at (user, grp) db) = v \<and> n = with_version p (v + 1) \<and>
        snapshot_at (user, grp) db' = n \<and>
        (\<forall>k. k \<noteq> (user, grp) \<longrightarrow> snapshot_at k db' = snapshot_at k db) \<and>
        (\<exists>r \<in> set (db_ops db). uuid_parse key = Some (op_id r) \<and> op_user_id r = user \<and>
           op_request_hash r = h \<and> op_status r = Processing \<and> op_processing_token r = Some token \<and>
           db_ops db' = map (\<lambda>s. if s = r
             then (release_claim now (with_operation po r))\<lparr>op_recovery_locked_until := None\<rparr> else s)
             (db_ops db))"
proof (cases res)
  case (Inl e)
  with c show ?thesis by (auto dest: commit_InlD)
next
  case (Inr n)
  with c have c': "compare_and_set_with_pull_operation now key user grp h v p po token db = (Inr n, db')" by simp
  then obtain oid r db1 rows where oid: "operation_id_of key = Inr oid" and
    g: "commit_guard db oid user h token = Inr r" and
    1: "advance_pity now user grp v p db = (Inr n, db1)" and
    2: "update_pull_operation_sql now (op_id r) po db1 = (Inr rows, db')" and "length rows = 1"
    by (rule commit_InrD)
  from g have r: "r \<in> set (db_ops db)" "op_id r = oid" "op_user_id r = user" "op_request_hash r = h"
    "op_status r = Processing" "op_processing_token r = Some token"
    by (auto simp: commit_guard_def find_Some_iff split: option.splits if_splits)
  have "inj_on op_id (set (db_ops db))" using wf by (simp add: wf_db_def distinct_map)
  then have same: "op_id s = op_id r \<longleftrightarrow> s = r" if "s \<in> set (db_ops db)" for s
    using that r(1) by (auto dest: inj_onD)
  have "db_ops db' = map (\<lambda>s. if s = r
      then (release_claim now (with_operation po r))\<lparr>op_recovery_locked_until := None\<rparr> else s) (db_ops db)"
    using 2[unfolded update_pull_operation_sql_def]
    by (cases rule: update_ops_cases) (auto simp: updated_def advance_pity_ok(5)[OF wf 1] same)
  moreover have "uuid_parse key = Some (op_id r)"
    using oid r(2) by (simp add: operation_id_of_def split: option.splits)
  ultimately show ?thesis using Inr r commit_ok[OF wf c'] by auto
qed

lemma commit_is_atomic_witness:
  "snapshot_at (2, ''g'') sample_committed = with_version create_initial_pity 1 \<and>
   version (snapshot_at (2, ''g'') sample_db) = 0"
  using commit_is_atomic[OF sample_db_wf sample_commit] by simp

text \<open>C19: a claim is exclusive. What \<open>begin_pull_operation\<close> returns is the stored operation of exactly this
  user and idempotency key. If it returns a processing token, the operation is in processing under
  that token with the caller's request hash, and it was either created by this call or taken over
  from a claim whose lease had expired.\<close>

theorem claim_is_exclusive:
  assumes b: "begin_pull_operation L (t1, t2) (o1, o2) (oid, token) user key h lease ctx db = (Inr cl, db')"
  shows "\<exists>r \<in> set (db_ops db'). cl_operation_key cl = uuid_str (op_id r) \<and>
    cl_operation cl = operation_from_row r \<and> op_user_id r = user \<and>
    op_key_hash r = idempotency_key_hash L key \<and>
    (cl_processing_token cl \<noteq> None \<longrightarrow>
       cl_processing_token cl = Some token \<and> op_processing_token r = Some token \<and>
       op_status r = Processing \<and> op_request_hash r = h \<and>
       ((op_id r = oid \<and> (\<forall>s \<in> set (db_ops db). op_user_id s \<noteq> user \<or> op_key_hash s \<noteq> op_key_hash r)) \<or>
        (\<exists>s \<in> set (db_ops (o1 db)). op_id s = op_id r \<and> op_user_id s = user \<and>
           op_key_hash s = op_key_hash r \<and> op_request_hash s = h \<and> op_status s = Processing \<and>
           lease_expired t2 s)))"
  using begin_claim_facts[OF b] .

lemma sample_begin:
  "begin_pull_operation sample_lib (0, 0) (id, id) (1, 3) 2 ''k'' sample_hash 30 sample_context empty_db =
    (Inr (claim_of_row (Some 3) (new_op_row 1 2 (idempotency_key_hash sample_lib ''k'') sample_hash 3 0 30
       sample_context None)),
     empty_db\<lparr>db_ops := [new_op_row 1 2 (idempotency_key_hash sample_lib ''k'') sample_hash 3 0 30
       sample_context None]\<rparr>)"
  using sample_sha_lawful
  by (simp add: begin_pull_operation_def eff_defs Let_def request_id_column_def sample_context_def
      insert_pull_operation_sql_def empty_db_def op_checks_def new_op_row_def sample_hash_text
      idempotency_key_hash_def sha_lawful_def)

lemma claim_is_exclusive_witness:
  "\<exists>r \<in> set (db_ops (snd (begin_pull_operation sample_lib (0, 0) (id, id) (1, 3) 2 ''k'' sample_hash 30
      sample_context empty_db))). op_processing_token r = Some 3 \<and> op_status r = Processing"
  using claim_is_exclusive[OF sample_begin] by (force simp: sample_begin claim_of_row_def)

end
