(* ===== verification/Service_World.thy ===== *)
theory Service_World
  imports Postgres_Props
begin

text \<open>
  The world a request handler runs in, and how it reaches it. \<open>world\<close> is what outlives the
  handler: the database, the Kafka topic, the HTTP requests sent to other services, and a clock
  that counts the awaits. \<open>env\<close> says what the outside does at each await: the time, the fresh
  UUIDs, what other sessions have committed to the database meanwhile, whether a database call
  fails before or after it took effect, what an HTTP call answers, and how a Kafka send ends.
  A theorem over all \<open>env\<close> holds for every timing and every failure; \<open>lawful_env\<close> restricts the
  other sessions to the program's own statements.
\<close>

section \<open>Environment\<close>

datatype db_outcome = Db_Ok | Db_Connect_Failed | Db_Failed_Before | Db_Failed_After

text \<open>An HTTP response: the status and, when the body is JSON, its value.\<close>

datatype http_outcome = Transport_Error | Http_Response int "json option"

datatype send_outcome = Send_Acked | Send_Lost | Send_Unconfirmed

record env =
  e_now :: "nat \<Rightarrow> instant"
  e_uuid4 :: "nat \<Rightarrow> uuid"
  e_others :: "nat \<Rightarrow> database \<Rightarrow> database"
  e_db :: "nat \<Rightarrow> db_outcome"
  e_http :: "nat \<Rightarrow> http_outcome"
  e_send :: "nat \<Rightarrow> send_outcome"
  e_kafka_start :: "nat \<Rightarrow> bool"

definition lawful_env :: "env \<Rightarrow> bool" where
  "lawful_env E \<longleftrightarrow> (\<forall>n db. store_steps db (e_others E n db))"

text \<open>An environment in which nothing fails and nobody else works.\<close>

definition calm_env :: "json option \<Rightarrow> env" where
  "calm_env body = \<lparr>e_now = (\<lambda>n. int n), e_uuid4 = (\<lambda>n. of_nat n), e_others = (\<lambda>n db. db),
     e_db = (\<lambda>n. Db_Ok), e_http = (\<lambda>n. Http_Response 200 body), e_send = (\<lambda>n. Send_Acked),
     e_kafka_start = (\<lambda>n. True)\<rparr>"

lemma calm_env_lawful: "lawful_env (calm_env body)"
  by (simp add: lawful_env_def calm_env_def)

section \<open>World\<close>

record http_request =
  hq_method :: string
  hq_url :: string
  hq_headers :: "(string \<times> string) list"
  hq_json :: "json option"

record kafka_message =
  km_topic :: string
  km_key :: string
  km_event :: pull_completed_event

record world =
  w_db :: database
  w_topic :: "kafka_message list"
  w_http :: "http_request list"
  w_producer_started :: bool
  w_clock :: nat

type_synonym 'a svc = "(world, 'a) eff"

text \<open>Each await advances the clock; the other sessions act before the call itself.\<close>

definition tick :: "env \<Rightarrow> world \<Rightarrow> world" where
  "tick E w = w\<lparr>w_clock := w_clock w + 1, w_db := e_others E (w_clock w) (w_db w)\<rparr>"

definition svc_sleep :: "env \<Rightarrow> unit svc" where
  "svc_sleep E w = (Inr (), tick E w)"

text \<open>
  A call of a store method: the pool may be unreachable, the statement may fail without effect, or
  it may take effect and the confirmation be lost; \<open>message\<close> is what the method then raises.
\<close>

definition db_call :: "env \<Rightarrow> string \<Rightarrow> (nat \<Rightarrow> 'a db_op) \<Rightarrow> 'a svc" where
  "db_call E message m w =
     (let n = w_clock w; w1 = tick E w in
      case e_db E n of
        Db_Connect_Failed \<Rightarrow> (Inl (GachaStateStoreError ''connect to gacha state database failed''), w1)
      | Db_Failed_Before \<Rightarrow> (Inl (GachaStateStoreError message), w1)
      | Db_Failed_After \<Rightarrow>
          (case m n (w_db w1) of (r, db) \<Rightarrow> (Inl (GachaStateStoreError message), w1\<lparr>w_db := db\<rparr>))
      | Db_Ok \<Rightarrow> (case m n (w_db w1) of (r, db) \<Rightarrow> (r, w1\<lparr>w_db := db\<rparr>)))"

definition http_call :: "env \<Rightarrow> http_request \<Rightarrow> http_outcome svc" where
  "http_call E q w = (Inr (e_http E (w_clock w)), (tick E w)\<lparr>w_http := w_http w @ [q]\<rparr>)"

section \<open>Store methods as calls\<close>

definition st_get_snapshot :: "env \<Rightarrow> uuid \<Rightarrow> string \<Rightarrow> pity_snapshot svc" where
  "st_get_snapshot E user grp =
     db_call E ''read pity state from postgres failed'' (\<lambda>n. get_snapshot user grp)"

text \<open>
  \<open>begin_pull_operation\<close> awaits up to three statements; the UUIDs, the times and the work of other
  sessions between them are those of these awaits, which \<open>pass\<close> counts.
\<close>

definition pass :: "nat \<Rightarrow> 'a svc \<Rightarrow> 'a svc" where
  "pass k m w = (case m w of (r, w') \<Rightarrow> (r, w'\<lparr>w_clock := w_clock w' + k\<rparr>))"

definition st_begin_pull_operation ::
    "env \<Rightarrow> 'g lib \<Rightarrow> uuid \<Rightarrow> string \<Rightarrow> string \<Rightarrow> int \<Rightarrow> pull_recovery_context \<Rightarrow> pull_operation_claim svc" where
  "st_begin_pull_operation E L user key h lease ctx =
     pass 2 (db_call E ''begin pull operation in postgres failed'' (\<lambda>n.
       begin_pull_operation L (e_now E n, e_now E (n + 1)) (e_others E (n + 1), e_others E (n + 2))
         (e_uuid4 E (n + 1), e_uuid4 E n) user key h lease ctx))"

definition st_get_pull_operation :: "env \<Rightarrow> 'g lib \<Rightarrow> uuid \<Rightarrow> string \<Rightarrow> pull_operation option svc" where
  "st_get_pull_operation E L user key =
     db_call E ''read pull operation from postgres failed'' (\<lambda>n. get_pull_operation L user key)"

definition st_list_pull_operations :: "env \<Rightarrow> uuid \<Rightarrow> int \<Rightarrow> pull_operation_record list svc" where
  "st_list_pull_operations E user limit =
     db_call E ''list pull operations from postgres failed'' (\<lambda>n. list_pull_operations user limit)"

definition st_get_pull_operation_record ::
    "env \<Rightarrow> uuid \<Rightarrow> uuid \<Rightarrow> pull_operation_record option svc" where
  "st_get_pull_operation_record E user oid =
     db_call E ''read pull operation replay from postgres failed'' (\<lambda>n. get_pull_operation_record user oid)"

definition st_get_pull_operation_by_key :: "env \<Rightarrow> string \<Rightarrow> pull_operation option svc" where
  "st_get_pull_operation_by_key E key =
     db_call E ''read pull operation by key failed'' (\<lambda>n. get_pull_operation_by_key key)"

definition st_get_pull_operation_by_event_id :: "env \<Rightarrow> uuid \<Rightarrow> uuid \<Rightarrow> pull_operation option svc" where
  "st_get_pull_operation_by_event_id E user ev =
     db_call E ''read pull operation by event id failed'' (\<lambda>n. get_pull_operation_by_event_id user ev)"

definition st_commit ::
    "env \<Rightarrow> string \<Rightarrow> uuid \<Rightarrow> string \<Rightarrow> string \<Rightarrow> int \<Rightarrow> pity_state \<Rightarrow> pull_operation \<Rightarrow> uuid \<Rightarrow> pity_snapshot svc" where
  "st_commit E key user grp h v p po token =
     db_call E ''commit pull operation to postgres failed''
       (\<lambda>n. compare_and_set_with_pull_operation (e_now E n) key user grp h v p po token)"

definition st_transition ::
    "env \<Rightarrow> string \<Rightarrow> uuid \<Rightarrow> string \<Rightarrow> uuid \<Rightarrow> pull_operation \<Rightarrow> unit svc" where
  "st_transition E key user h token po =
     db_call E ''transition pull operation in postgres failed''
       (\<lambda>n. transition_pull_operation_from_processing (e_now E n) key user h token po)"

definition st_save :: "env \<Rightarrow> 'g lib \<Rightarrow> uuid \<Rightarrow> string \<Rightarrow> pull_operation \<Rightarrow> unit svc" where
  "st_save E L user key po =
     db_call E ''save pull operation to postgres failed'' (\<lambda>n. save_pull_operation L (e_now E n) user key po)"

definition st_save_by_key :: "env \<Rightarrow> string \<Rightarrow> pull_operation \<Rightarrow> unit svc" where
  "st_save_by_key E key po =
     db_call E ''save pending pull operation failed'' (\<lambda>n. save_pull_operation_by_key (e_now E n) key po)"

definition st_iter_event_pending :: "env \<Rightarrow> int \<Rightarrow> pull_operation_record list svc" where
  "st_iter_event_pending E limit =
     db_call E ''list pending pull operations from postgres failed''
       (\<lambda>n. iter_event_pending_pull_operations limit)"

definition st_iter_refund_pending :: "env \<Rightarrow> int \<Rightarrow> pull_operation_record list svc" where
  "st_iter_refund_pending E limit =
     db_call E ''list pending pull refunds from postgres failed''
       (\<lambda>n. iter_refund_pending_pull_operations limit)"

definition st_iter_expired_processing :: "env \<Rightarrow> int \<Rightarrow> pull_operation_record list svc" where
  "st_iter_expired_processing E limit =
     db_call E ''list expired processing pulls failed''
       (\<lambda>n. iter_expired_processing_pull_operations (e_now E n) limit)"

definition st_claim_expired_processing ::
    "env \<Rightarrow> string \<Rightarrow> int \<Rightarrow> pull_operation_recovery_claim option svc" where
  "st_claim_expired_processing E key lease =
     db_call E ''claim expired processing pull failed''
       (\<lambda>n. claim_expired_processing_pull_operation (e_now E n) (e_uuid4 E n) key lease)"

definition st_claim_recovery :: "env \<Rightarrow> string \<Rightarrow> pull_operation_status \<Rightarrow> int \<Rightarrow> bool svc" where
  "st_claim_recovery E key expected ttl =
     db_call E ''claim pending pull operation failed''
       (\<lambda>n. claim_pull_operation_recovery (e_now E n) key expected ttl)"

definition st_release_recovery :: "env \<Rightarrow> string \<Rightarrow> unit svc" where
  "st_release_recovery E key =
     db_call E ''release pending pull operation failed'' (\<lambda>n. release_pull_operation_recovery (e_now E n) key)"

lemmas st_defs =
  st_get_snapshot_def st_begin_pull_operation_def st_get_pull_operation_def st_list_pull_operations_def
  st_get_pull_operation_record_def st_get_pull_operation_by_key_def st_get_pull_operation_by_event_id_def
  st_commit_def st_transition_def st_save_def st_save_by_key_def st_iter_event_pending_def
  st_iter_refund_pending_def st_iter_expired_processing_def st_claim_expired_processing_def
  st_claim_recovery_def st_release_recovery_def

end
