(* ===== verification/Clients.thy ===== *)
theory Clients
  imports Service_World
begin

text \<open>
  \<open>asset_client.py\<close>, \<open>backpack_client.py\<close> and \<open>kafka_events.py\<close>: the calls on the other services,
  each down to the request it sends and every branch on the answer. The locale
  \<open>at_least_once_sender\<close> is the contract of a publisher that the retry loop of the service relies
  on; the Kafka publisher is its instance. Trace spans and headers of the message are not modelled.
\<close>

section \<open>Responses\<close>

definition is_success :: "int \<Rightarrow> bool" where
  "is_success status \<longleftrightarrow> 200 \<le> status \<and> status \<le> 299"

definition is_object :: "json \<Rightarrow> bool" where
  "is_object j = (case j of JObj _ \<Rightarrow> True | _ \<Rightarrow> False)"

text \<open>\<open>str(error.get(key) or fallback)\<close>.\<close>

definition field_or :: "'g lib \<Rightarrow> json \<Rightarrow> string \<Rightarrow> string \<Rightarrow> string" where
  "field_or L error key fallback =
     (if json_truthy (json_get error key) then json_str L (json_get error key) else fallback)"

definition error_fields :: "'g lib \<Rightarrow> json option \<Rightarrow> string \<Rightarrow> string \<Rightarrow> string \<times> string" where
  "error_fields L body code message =
     (case body of
        None \<Rightarrow> (code, message)
      | Some b \<Rightarrow>
          (let error = json_get b ''error'' in
           if is_object error then (field_or L error ''code'' code, field_or L error ''message'' message)
           else (code, message)))"

definition rstrip_slash :: "string \<Rightarrow> string" where
  "rstrip_slash s = rev (dropWhile (\<lambda>c. c = CHR ''/'') (rev s))"

section \<open>The asset service\<close>

record service_client =
  sc_base_url :: string
  sc_internal_token :: string

definition service_client_init :: "string \<Rightarrow> string \<Rightarrow> service_client" where
  "service_client_init base_url internal_token =
     \<lparr>sc_base_url = rstrip_slash base_url, sc_internal_token = internal_token\<rparr>"

definition asset_service_unavailable :: exn where
  "asset_service_unavailable = AssetServiceError 503 ''asset_unavailable'' ''asset service is unavailable''"

definition asset_request ::
    "service_client \<Rightarrow> string \<Rightarrow> uuid \<Rightarrow> int \<Rightarrow> string \<Rightarrow> string \<Rightarrow> (string \<times> json) list \<Rightarrow> string
     \<Rightarrow> http_request" where
  "asset_request c path user amount_minor idempotency_key reason metadata request_id =
     \<lparr>hq_method = ''POST'', hq_url = sc_base_url c @ path,
      hq_headers =
        [(''X-Internal-Token'', sc_internal_token c), (''X-User-Id'', uuid_str user),
         (''Idempotency-Key'', idempotency_key)] @
        (if request_id \<noteq> [] then [(''X-Request-Id'', request_id)] else []),
      hq_json = Some (JObj [(''amount_minor'', JInt amount_minor), (''reason'', JStr reason),
         (''metadata'', JObj metadata)])\<rparr>"

definition post_entry ::
    "env \<Rightarrow> 'g lib \<Rightarrow> service_client \<Rightarrow> string \<Rightarrow> uuid \<Rightarrow> int \<Rightarrow> string \<Rightarrow> string
     \<Rightarrow> (string \<times> json) list \<Rightarrow> string \<Rightarrow> unit svc" where
  "post_entry E L c path user amount_minor idempotency_key reason metadata request_id =
     eff_bind (http_call E (asset_request c path user amount_minor idempotency_key reason metadata request_id))
       (\<lambda>out. case out of
          Transport_Error \<Rightarrow> eff_raise asset_service_unavailable
        | Http_Response status body \<Rightarrow>
            (if is_success status then eff_return ()
             else let (code, message) = error_fields L body ''asset_request_failed'' ''asset request failed''
                  in eff_raise (AssetServiceError status code message)))"

definition asset_spend ::
    "env \<Rightarrow> 'g lib \<Rightarrow> service_client \<Rightarrow> uuid \<Rightarrow> int \<Rightarrow> string \<Rightarrow> string \<Rightarrow> (string \<times> json) list
     \<Rightarrow> string \<Rightarrow> unit svc" where
  "asset_spend E L c = post_entry E L c ''/v1/me/spends''"

definition asset_credit ::
    "env \<Rightarrow> 'g lib \<Rightarrow> service_client \<Rightarrow> uuid \<Rightarrow> int \<Rightarrow> string \<Rightarrow> string \<Rightarrow> (string \<times> json) list
     \<Rightarrow> string \<Rightarrow> unit svc" where
  "asset_credit E L c = post_entry E L c ''/v1/me/credits''"

definition get_request :: "string \<Rightarrow> (string \<times> string) list \<Rightarrow> http_request" where
  "get_request url headers =
     \<lparr>hq_method = ''GET'', hq_url = url, hq_headers = headers, hq_json = None\<rparr>"

text \<open>\<open>raise_for_status\<close> raises for every status but the successful ones.\<close>

definition asset_ping :: "env \<Rightarrow> service_client \<Rightarrow> unit svc" where
  "asset_ping E c =
     eff_bind (http_call E (get_request (sc_base_url c @ ''/health'') [])) (\<lambda>out. case out of
        Transport_Error \<Rightarrow> eff_raise asset_service_unavailable
      | Http_Response status _ \<Rightarrow>
          (if is_success status then eff_return () else eff_raise asset_service_unavailable))"

section \<open>The backpack service\<close>

abbreviation backpack_client_init :: "string \<Rightarrow> string \<Rightarrow> service_client" where
  "backpack_client_init \<equiv> service_client_init"

abbreviation backpack_receipt_unavailable :: exn where
  "backpack_receipt_unavailable \<equiv>
     BackpackReceiptError 503 ''backpack_unavailable'' ''backpack receipt is unavailable''"

abbreviation backpack_response_error :: "'g lib \<Rightarrow> json option \<Rightarrow> string \<times> string" where
  "backpack_response_error L body \<equiv>
     error_fields L body ''backpack_request_failed'' ''backpack request failed''"

definition receipt_url :: "service_client \<Rightarrow> uuid \<Rightarrow> string" where
  "receipt_url c event_id = sc_base_url c @ ''/v1/me/pull-events/'' @ uuid_str event_id"

definition has_pull_event ::
    "env \<Rightarrow> 'g lib \<Rightarrow> service_client \<Rightarrow> uuid \<Rightarrow> uuid \<Rightarrow> bool svc" where
  "has_pull_event E L c user event_id =
     eff_bind (http_call E (get_request (receipt_url c event_id)
         [(''X-Internal-Token'', sc_internal_token c), (''X-User-Id'', uuid_str user),
          (''X-Request-Id'', uuid_str event_id)]))
       (\<lambda>out. case out of
          Transport_Error \<Rightarrow> eff_raise backpack_receipt_unavailable
        | Http_Response status body \<Rightarrow>
            (let (code, message) = backpack_response_error L body in
             if status = 404 then
               (if code = ''pull_event_not_found'' then eff_return False
                else eff_raise (BackpackReceiptError status code message))
             else if \<not> is_success status then eff_raise (BackpackReceiptError status code message)
             else case body of
               None \<Rightarrow> eff_raise (BackpackReceiptError 502 ''backpack_receipt_invalid''
                        ''backpack receipt response is invalid'')
             | Some b \<Rightarrow>
                 (if json_get (json_get b ''event'') ''event_id'' \<noteq> JStr (uuid_str event_id)
                  then eff_raise (BackpackReceiptError 502 ''backpack_receipt_invalid''
                         ''backpack receipt does not match the pull event'')
                  else eff_return True)))"

section \<open>Kafka\<close>

definition ensure_started :: "env \<Rightarrow> unit svc" where
  "ensure_started E w =
     (if w_producer_started w then (Inr (), w)
      else if e_kafka_start E (w_clock w) then (Inr (), (tick E w)\<lparr>w_producer_started := True\<rparr>)
      else (Inl (EventPublishError ''kafka is unavailable''), tick E w))"

definition kafka_message_of :: "string \<Rightarrow> pull_completed_event \<Rightarrow> kafka_message" where
  "kafka_message_of topic ev = \<lparr>km_topic = topic, km_key = ev_user_id ev, km_event = ev\<rparr>"

definition send_and_wait :: "env \<Rightarrow> kafka_message \<Rightarrow> unit svc" where
  "send_and_wait E m w =
     (let w1 = tick E w; failed = Inl (EventPublishError ''failed to publish pull event'') in
      case e_send E (w_clock w) of
        Send_Acked \<Rightarrow> (Inr (), w1\<lparr>w_topic := w_topic w @ [m]\<rparr>)
      | Send_Lost \<Rightarrow> (failed, w1)
      | Send_Unconfirmed \<Rightarrow> (failed, w1\<lparr>w_topic := w_topic w @ [m]\<rparr>))"

definition publish_pull_completed :: "env \<Rightarrow> string \<Rightarrow> pull_completed_event \<Rightarrow> unit svc" where
  "publish_pull_completed E topic ev =
     eff_then (ensure_started E) (send_and_wait E (kafka_message_of topic ev))"

section \<open>Publishing with retries\<close>

text \<open>The loop of \<open>publish_pull_completed_with_retry\<close>, with the attempts that are left.\<close>

fun publish_attempts :: "('s, unit) eff \<Rightarrow> ('s, unit) eff \<Rightarrow> nat \<Rightarrow> ('s, unit) eff" where
  "publish_attempts send sleep 0 = eff_return ()"
| "publish_attempts send sleep (Suc n) =
     eff_catch send (\<lambda>e. case e of
        EventPublishError _ \<Rightarrow>
          (if n = 0 then eff_raise e else eff_then sleep (publish_attempts send sleep n))
      | _ \<Rightarrow> eff_raise e)"

locale at_least_once_sender =
  fixes send :: "('s, unit) eff" and sleep :: "('s, unit) eff" and message :: 'm
    and log :: "'s \<Rightarrow> 'm list"
  assumes send_ok: "send s = (Inr (), s') \<Longrightarrow> log s' = log s @ [message]"
    and send_error: "send s = (Inl e, s') \<Longrightarrow> log s' = log s \<or> log s' = log s @ [message]"
    and sleep_log: "snd (sleep s) = s' \<Longrightarrow> log s' = log s"
begin

lemma send_error_count:
  assumes "send s = (Inl e, s')"
  obtains j where "j \<le> 1" "log s' = log s @ replicate j message"
proof (cases "log s' = log s")
  case True
  then show ?thesis using that[of 0] by simp
next
  case False
  then show ?thesis using that[of 1] send_error[OF assms] by simp
qed

lemma publish_attempts_log:
  assumes "publish_attempts send sleep n s = (res, s')"
  shows "\<exists>k \<le> n. log s' = log s @ replicate k message"
  using assms
proof (induction n arbitrary: s)
  case 0
  then show ?case by (simp add: eff_return_def)
next
  case (Suc n)
  obtain r s1 where send: "send s = (r, s1)" by force
  show ?case
  proof (cases r)
    case (Inr u)
    with Suc.prems send have "s' = s1" by (simp add: eff_catch_def)
    with send_ok[of s s1] send Inr show ?thesis by (intro exI[of _ 1]) simp
  next
    case (Inl e)
    with send obtain j where j: "j \<le> 1" "log s1 = log s @ replicate j message"
      by (auto elim: send_error_count)
    show ?thesis
    proof (cases "s' = s1")
      case True
      with j show ?thesis by (intro exI[of _ j]) simp
    next
      case False
      obtain sr s2 where sl: "sleep s1 = (sr, s2)" by force
      have log2: "log s2 = log s1" using sleep_log[of s1 s2] sl by simp
      from False Suc.prems send Inl sl have "s' = s2 \<or> publish_attempts send sleep n s2 = (res, s')"
        by (auto simp: eff_catch_def eff_raise_def eff_then_def eff_bind_def
            split: exn.splits if_splits sum.splits)
      then show ?thesis
      proof
        assume "publish_attempts send sleep n s2 = (res, s')"
        from Suc.IH[OF this] obtain k where "k \<le> n" "log s' = log s2 @ replicate k message" by blast
        with j log2 show ?thesis
          by (intro exI[of _ "j + k"]) (simp add: replicate_add)
      next
        assume "s' = s2"
        with j log2 show ?thesis by (intro exI[of _ j]) simp
      qed
    qed
  qed
qed

lemma publish_attempts_sent:
  assumes "publish_attempts send sleep n s = (Inr (), s')" "0 < n"
  shows "\<exists>k. 0 < k \<and> k \<le> n \<and> log s' = log s @ replicate k message"
  using assms
proof (induction n arbitrary: s)
  case 0
  then show ?case by simp
next
  case (Suc n)
  obtain r s1 where send: "send s = (r, s1)" by force
  show ?case
  proof (cases r)
    case (Inr u)
    with Suc.prems send have "s' = s1" by (simp add: eff_catch_def)
    with send_ok[of s s1] send Inr show ?thesis by (intro exI[of _ 1]) simp
  next
    case (Inl e)
    with send obtain j where j: "j \<le> 1" "log s1 = log s @ replicate j message"
      by (auto elim: send_error_count)
    from Suc.prems(1) send Inl obtain s2 where s2: "sleep s1 = (Inr (), s2)" "0 < n"
      "publish_attempts send sleep n s2 = (Inr (), s')"
      by (auto simp: eff_catch_def eff_raise_def eff_then_def eff_bind_def
          split: exn.splits if_splits sum.splits prod.splits)
    from Suc.IH[OF s2(3,2)] obtain k where "0 < k" "k \<le> n" "log s' = log s2 @ replicate k message"
      by blast
    moreover have "log s2 = log s1" using sleep_log[of s1 s2] s2(1) by simp
    ultimately show ?thesis using j by (intro exI[of _ "j + k"]) (simp add: replicate_add)
  qed
qed

end

lemma ensure_started_topic: "ensure_started E w = (r, w') \<Longrightarrow> w_topic w' = w_topic w"
  by (auto simp: ensure_started_def tick_def split: if_splits)

interpretation kafka_sender: at_least_once_sender "publish_pull_completed E topic ev" "svc_sleep E"
    "kafka_message_of topic ev" w_topic for E topic ev
  by unfold_locales
    (auto simp: publish_pull_completed_def eff_then_def eff_bind_def send_and_wait_def Let_def
      svc_sleep_def tick_def dest: ensure_started_topic
      split: prod.splits sum.splits send_outcome.splits)

end
