(* ===== verification/Pull_Service.thy ===== *)
theory Pull_Service
  imports Clients Pull_Audit
begin

text \<open>
  The pull flow of \<open>main.py\<close>, handler by handler: \<open>create_pull\<close>, \<open>claim_or_resume_pull\<close>,
  \<open>execute_claimed_pull\<close>, the commit loop \<open>generate_and_commit_pull_with_retry\<close>, publication,
  the handling of operations that already exist, and refunds, with the small functions they use
  (hashes, ids, keys, metadata, error mapping). Every exception of the source is an \<open>Inl\<close>; log
  lines and trace attributes are not modelled.
\<close>

section \<open>Services and constants\<close>

text \<open>\<open>AppServices\<close> and the settings the handlers read, with the environment and the library.\<close>

record 'g services =
  sv_env :: env
  sv_lib :: "'g lib"
  sv_asset_client :: service_client
  sv_backpack_receipt_client :: "service_client option"
  sv_kafka_topic :: string
  sv_engine_version :: string
  sv_engine_build_sha :: string

definition astrite_per_pull :: int where
  "astrite_per_pull = 160"

definition pull_processing_lease_seconds :: int where
  "pull_processing_lease_seconds = 30"

definition pity_commit_max_attempts :: nat where
  "pity_commit_max_attempts = 5"

definition pull_event_namespace :: uuid where
  "pull_event_namespace = 0xd19f2db25d104dbf95ee2680ab82d908"

section \<open>Identifiers, hashes and keys\<close>

definition pull_request_hash :: "'g lib \<Rightarrow> string \<Rightarrow> int \<Rightarrow> string \<Rightarrow> string" where
  "pull_request_hash L banner_id count seed =
     lib_sha256 L (json_dumps (lib_float_repr L) True
       (JObj [(''banner_id'', JStr banner_id), (''count'', JInt count), (''seed'', JStr seed)]))"

definition deterministic_pull_event_id :: "'g lib \<Rightarrow> uuid \<Rightarrow> string \<Rightarrow> string" where
  "deterministic_pull_event_id L user key =
     uuid_str (lib_uuid5 L pull_event_namespace (''event:'' @ uuid_str user @ '':'' @ key))"

definition deterministic_pull_seed :: "'g lib \<Rightarrow> uuid \<Rightarrow> string \<Rightarrow> string" where
  "deterministic_pull_seed L user key =
     uuid_str (lib_uuid5 L pull_event_namespace (''seed:'' @ uuid_str user @ '':'' @ key))"

definition spend_idempotency_key :: "string \<Rightarrow> string" where
  "spend_idempotency_key event_id = ''gacha-pull:'' @ event_id"

definition refund_idempotency_key :: "string \<Rightarrow> string" where
  "refund_idempotency_key event_id = ''gacha-refund:'' @ event_id"

definition pull_asset_metadata ::
    "string \<Rightarrow> string \<Rightarrow> string option \<Rightarrow> string option \<Rightarrow> int \<Rightarrow> pull_audit_metadata option
     \<Rightarrow> (string \<times> json) list" where
  "pull_asset_metadata event_id banner_id pity_group_id banner_version_id count audit =
     [(''source'', JStr ''gacha-engine-service''), (''event_id'', JStr event_id),
      (''banner_id'', JStr banner_id), (''pity_group_id'', json_opt JStr pity_group_id),
      (''count'', JInt count), (''cost_per_pull_minor'', JInt astrite_per_pull)] @
     (case banner_version_id of None \<Rightarrow> [] | Some v \<Rightarrow> [(''banner_version_id'', JStr v)]) @
     (case audit of
        None \<Rightarrow> []
      | Some a \<Rightarrow>
          [(''audit_schema_version'', JInt (am_schema_version a)),
           (''banner_config_sha256'', JStr (am_banner_config_sha256 a)),
           (''rng_algorithm_version'', JStr (am_rng_algorithm_version a)),
           (''engine_version'', JStr (am_engine_version a)),
           (''engine_build_sha'', JStr (am_engine_build_sha a))] @
          (case am_release_id a of None \<Rightarrow> [] | Some v \<Rightarrow> [(''release_id'', JStr v)]) @
          (case am_release_number a of None \<Rightarrow> [] | Some v \<Rightarrow> [(''release_number'', JInt v)]) @
          (case am_release_snapshot_sha256 a of None \<Rightarrow> []
             | Some v \<Rightarrow> [(''release_snapshot_sha256'', JStr v)]))"

definition context_metadata :: "pull_recovery_context \<Rightarrow> (string \<times> json) list" where
  "context_metadata x = pull_asset_metadata (uuid_str (rc_event_id x)) (b_id (rc_banner x))
     (Some (rc_pity_group_id x)) (rc_banner_version_id x) (rc_count x) (rc_audit x)"

section \<open>Errors\<close>

definition state_store_http_exception :: "string \<Rightarrow> exn" where
  "state_store_http_exception message = HTTPException 503 ''state_store_unavailable'' message"

definition pull_in_progress_http_exception :: exn where
  "pull_in_progress_http_exception =
     HTTPException 409 ''pull_in_progress'' ''pull is already being processed by another worker''"

text \<open>\<open>insufficient_assets_text\<close> is the Chinese message for a short balance, in UTF-8.\<close>

definition insufficient_assets_text :: string where
  "insufficient_assets_text = utf8
     [230, 152, 159, 229, 163, 176, 228, 184, 141, 232, 182, 179, 239, 188, 140, 232, 175, 183,
      229, 133, 136, 229, 133, 133, 229, 128, 188, 227, 128, 130]"

definition asset_error_code :: "string \<Rightarrow> string" where
  "asset_error_code code =
     (if code = ''insufficient_funds'' then ''insufficient_assets''
      else if code \<noteq> [] then code else ''asset_request_failed'')"

definition asset_error_message :: "string \<Rightarrow> string \<Rightarrow> string" where
  "asset_error_message code message =
     (if code = ''insufficient_funds'' then insufficient_assets_text
      else if message \<noteq> [] then message else ''asset request failed'')"

definition asset_http_exception :: "int \<Rightarrow> string \<Rightarrow> string \<Rightarrow> exn" where
  "asset_http_exception status code message =
     (if code = ''insufficient_funds'' then HTTPException 409 ''insufficient_assets'' insufficient_assets_text
      else if code = ''idempotency_conflict'' then
        HTTPException 409 ''idempotency_conflict''
          ''Idempotency-Key was already used with a different request''
      else if status \<ge> 500 then HTTPException 503 ''asset_unavailable'' ''asset service is unavailable''
      else HTTPException 409 (asset_error_code code) (asset_error_message code message))"

text \<open>\<open>except GachaStateStoreError: raise ...\<close>.\<close>

definition on_store_error :: "exn \<Rightarrow> exn \<Rightarrow> ('s, 'a) eff" where
  "on_store_error replacement e =
     (case e of GachaStateStoreError _ \<Rightarrow> eff_raise replacement | _ \<Rightarrow> eff_raise e)"

section \<open>Publication\<close>

definition publish_pull_completed_with_retry :: "'g services \<Rightarrow> pull_completed_event \<Rightarrow> unit svc" where
  "publish_pull_completed_with_retry S ev =
     publish_attempts (publish_pull_completed (sv_env S) (sv_kafka_topic S) ev) (svc_sleep (sv_env S)) 3"

definition on_publish_error :: "exn \<Rightarrow> ('s, 'a) eff" where
  "on_publish_error e =
     (case e of
        EventPublishError _ \<Rightarrow>
          eff_raise (HTTPException 503 ''kafka_unavailable'' ''pull event could not be published'')
      | _ \<Rightarrow> eff_raise e)"

definition operation_with ::
    "pull_operation_status \<Rightarrow> string \<Rightarrow> pull_response option \<Rightarrow> pull_completed_event option \<Rightarrow> pull_operation" where
  "operation_with st request_hash response event =
     \<lparr>po_status = st, po_request_hash = request_hash, po_response = response, po_event = event,
      po_error_code = None, po_error_message = None, po_recovery_context = None\<rparr>"

definition failed_operation :: "string \<Rightarrow> string \<Rightarrow> string \<Rightarrow> pull_operation" where
  "failed_operation request_hash code message =
     \<lparr>po_status = Failed, po_request_hash = request_hash, po_response = None, po_event = None,
      po_error_code = Some code, po_error_message = Some message, po_recovery_context = None\<rparr>"

text \<open>Best effort: a store error is logged and swallowed.\<close>

definition ignore_store_error :: "unit svc \<Rightarrow> unit svc" where
  "ignore_store_error m =
     eff_catch m (\<lambda>e. case e of GachaStateStoreError _ \<Rightarrow> eff_return () | _ \<Rightarrow> eff_raise e)"

definition publish_and_complete_claimed_pull ::
    "'g services \<Rightarrow> string \<Rightarrow> string \<Rightarrow> pull_response \<Rightarrow> pull_completed_event \<Rightarrow> pull_response svc" where
  "publish_and_complete_claimed_pull S operation_key request_hash response ev =
     eff_then (eff_catch (publish_pull_completed_with_retry S ev) on_publish_error)
     (eff_then (ignore_store_error (st_save_by_key (sv_env S) operation_key
         (operation_with Event_Published request_hash (Some response) (Some ev))))
      (eff_return response))"

section \<open>Refunds\<close>

definition on_refund_error :: "exn \<Rightarrow> ('s, 'a) eff" where
  "on_refund_error e =
     (case e of
        AssetServiceError _ _ _ \<Rightarrow>
          eff_raise (HTTPException 503 ''asset_refund_unavailable'' ''asset refund could not be completed'')
      | _ \<Rightarrow> eff_raise e)"

definition refund_claimed_spend ::
    "'g services \<Rightarrow> uuid \<Rightarrow> string \<Rightarrow> string \<Rightarrow> pull_recovery_context \<Rightarrow> (string \<times> json) list
     \<Rightarrow> string \<Rightarrow> string \<Rightarrow> unit svc" where
  "refund_claimed_spend S user operation_key request_hash ctx metadata code message =
     eff_then (eff_catch
       (asset_credit (sv_env S) (sv_lib S) (sv_asset_client S) user (rc_amount_minor ctx)
          (refund_idempotency_key (uuid_str (rc_event_id ctx))) ''gacha_pull_refund''
          (AList.update ''refund_reason'' (JStr code) metadata) (rc_request_id ctx))
       on_refund_error)
     (st_save_by_key (sv_env S) operation_key (failed_operation request_hash code message))"

definition save_pull_operation_best_effort ::
    "'g services \<Rightarrow> uuid \<Rightarrow> string \<Rightarrow> pull_operation \<Rightarrow> unit svc" where
  "save_pull_operation_best_effort S user key po =
     ignore_store_error (st_save (sv_env S) (sv_lib S) user key po)"

definition mark_pull_operation_failed ::
    "'g services \<Rightarrow> uuid \<Rightarrow> string \<Rightarrow> string \<Rightarrow> string \<Rightarrow> string \<Rightarrow> unit svc" where
  "mark_pull_operation_failed S user key request_hash code message =
     save_pull_operation_best_effort S user key (failed_operation request_hash code message)"

definition refund_spend ::
    "'g services \<Rightarrow> uuid \<Rightarrow> string \<Rightarrow> string \<Rightarrow> string \<Rightarrow> int \<Rightarrow> (string \<times> json) list \<Rightarrow> string
     \<Rightarrow> string \<Rightarrow> string \<Rightarrow> unit svc" where
  "refund_spend S user key request_hash event_id amount_minor metadata request_id code message =
     eff_then (eff_catch
       (asset_credit (sv_env S) (sv_lib S) (sv_asset_client S) user amount_minor
          (refund_idempotency_key event_id) ''gacha_pull_refund''
          (AList.update ''refund_reason'' (JStr code) metadata) request_id)
       on_refund_error)
     (mark_pull_operation_failed S user key request_hash code message)"

section \<open>The commit loop\<close>

definition pull_response_of ::
    "pull_recovery_context \<Rightarrow> pull_record list \<Rightarrow> pity_snapshot \<Rightarrow> pity_snapshot \<Rightarrow> pull_response" where
  "pull_response_of x records previous next =
     \<lparr>re_event_id = uuid_str (rc_event_id x), re_accepted_at = rc_accepted_at x,
      re_pity_group_id = Some (rc_pity_group_id x), re_banner_version_id = rc_banner_version_id x,
      re_seed = rc_seed x, re_records = records, re_previous_pity = previous, re_next_pity = next,
      re_state_version = version next, re_audit = rc_audit x\<rparr>"

definition pull_event_of ::
    "uuid \<Rightarrow> pull_recovery_context \<Rightarrow> pull_record list \<Rightarrow> pity_snapshot \<Rightarrow> pity_snapshot
     \<Rightarrow> pull_completed_event" where
  "pull_event_of user x records previous next =
     \<lparr>ev_event_id = uuid_str (rc_event_id x), ev_event_type = ''gacha.pull_completed.v1'',
      ev_accepted_at = rc_accepted_at x, ev_user_id = uuid_str user,
      ev_banner_id = b_id (rc_banner x), ev_pity_group_id = Some (rc_pity_group_id x),
      ev_banner_version_id = rc_banner_version_id x, ev_seed = rc_seed x, ev_records = records,
      ev_previous_pity = previous, ev_next_pity = next, ev_state_version = version next,
      ev_audit = rc_audit x\<rparr>"

text \<open>One computation of a pull on a snapshot: what the loop body builds before it commits.\<close>

definition generate_pull ::
    "'g lib \<Rightarrow> uuid \<Rightarrow> pull_recovery_context \<Rightarrow> pity_snapshot
     \<Rightarrow> (pity_state \<times> pull_response \<times> pull_completed_event) result" where
  "generate_pull L user x previous =
     (case perform_pulls L (to_banner_config x) (rc_count x) (without_version previous) (rc_seed x) of
        Inl e \<Rightarrow> Inl e
      | Inr (records, next_state) \<Rightarrow>
          (let next = with_version next_state (version previous + 1) in
           if \<not> pity_snapshot_valid next then Inl ValidationError
           else Inr (next_state, pull_response_of x records previous next,
                  pull_event_of user x records previous next)))"

fun commit_attempts ::
    "'g services \<Rightarrow> uuid \<Rightarrow> string \<Rightarrow> string \<Rightarrow> uuid \<Rightarrow> pull_recovery_context \<Rightarrow> nat
     \<Rightarrow> (pull_response \<times> pull_completed_event) svc" where
  "commit_attempts S user operation_key request_hash token x 0 =
     eff_raise (RuntimeError ''pity commit retry loop exited unexpectedly'')"
| "commit_attempts S user operation_key request_hash token x (Suc left) =
     eff_bind (st_get_snapshot (sv_env S) user (rc_pity_group_id x)) (\<lambda>previous.
     eff_bind (eff_lift (generate_pull (sv_lib S) user x previous)) (\<lambda>(next_state, response, ev).
     eff_try
       (st_commit (sv_env S) operation_key user (rc_pity_group_id x) request_hash (version previous)
          next_state (operation_with Event_Pending request_hash (Some response) (Some ev)) token)
       (\<lambda>e. case e of
          PityVersionConflict _ \<Rightarrow>
            (if left = 0
             then eff_raise (HTTPException 503 ''pull_recovery_pending''
                    ''pull is queued behind another pull and will continue automatically'')
             else eff_then (svc_sleep (sv_env S))
                    (commit_attempts S user operation_key request_hash token x left))
        | _ \<Rightarrow> eff_raise e)
       (\<lambda>_. eff_return (response, ev))))"

definition generate_and_commit_pull_with_retry ::
    "'g services \<Rightarrow> uuid \<Rightarrow> string \<Rightarrow> string \<Rightarrow> uuid \<Rightarrow> pull_recovery_context
     \<Rightarrow> (pull_response \<times> pull_completed_event) svc" where
  "generate_and_commit_pull_with_retry S user operation_key request_hash token x =
     commit_attempts S user operation_key request_hash token x pity_commit_max_attempts"

section \<open>Claimed pulls\<close>

definition handle_claimed_pull_operation ::
    "'g services \<Rightarrow> pull_operation \<Rightarrow> uuid \<Rightarrow> string \<Rightarrow> string \<Rightarrow> pull_recovery_context
     \<Rightarrow> (string \<times> json) list \<Rightarrow> pull_response svc" where
  "handle_claimed_pull_operation S po user operation_key request_hash x metadata =
     (if po_request_hash po \<noteq> request_hash
      then eff_raise (state_store_http_exception ''pull operation request changed'')
      else case (po_status po, po_response po, po_event po) of
        (Event_Published, Some response, _) \<Rightarrow> eff_return response
      | (Succeeded, Some response, _) \<Rightarrow> eff_return response
      | (Event_Pending, Some response, Some ev) \<Rightarrow>
          publish_and_complete_claimed_pull S operation_key request_hash response ev
      | (Refund_Pending, _, _) \<Rightarrow>
          eff_then (refund_claimed_spend S user operation_key request_hash x metadata
              (str_or (po_error_code po) ''pull_refunded'')
              (str_or (po_error_message po) ''pull was refunded''))
            (eff_raise (HTTPException 409 ''pull_refunded'' ''previous pull attempt was refunded''))
      | (Failed, _, _) \<Rightarrow>
          eff_raise (HTTPException 409 (str_or (po_error_code po) ''pull_failed'')
            (str_or (po_error_message po) ''previous pull attempt failed''))
      | _ \<Rightarrow> eff_raise (state_store_http_exception ''pull outcome is being reconciled''))"

text \<open>The answer to a failed spend.\<close>

definition on_spend_error ::
    "'g services \<Rightarrow> uuid \<Rightarrow> string \<Rightarrow> string \<Rightarrow> uuid \<Rightarrow> exn \<Rightarrow> 'a svc" where
  "on_spend_error S user operation_key request_hash token e =
     (case e of
        AssetServiceError status code message \<Rightarrow>
          (if status \<ge> 500
           then eff_raise (HTTPException 503 ''asset_unavailable'' ''asset spend outcome is being reconciled'')
           else
             eff_try
               (st_transition (sv_env S) operation_key user request_hash token
                  (failed_operation request_hash (asset_error_code code) (asset_error_message code message)))
               (\<lambda>se. case se of
                  PullOperationOwnershipLost \<Rightarrow> eff_raise pull_in_progress_http_exception
                | GachaStateStoreError _ \<Rightarrow>
                    eff_raise (state_store_http_exception ''pull failure could not be persisted'')
                | _ \<Rightarrow> eff_raise se)
               (\<lambda>_. eff_raise (asset_http_exception status code message)))
      | _ \<Rightarrow> eff_raise e)"

text \<open>The answer to a failed commit: read back what became of the operation.\<close>

definition on_commit_error ::
    "'g services \<Rightarrow> uuid \<Rightarrow> string \<Rightarrow> string \<Rightarrow> pull_recovery_context \<Rightarrow> exn \<Rightarrow> pull_response svc" where
  "on_commit_error S user operation_key request_hash x e =
     (case e of
        PullOperationOwnershipLost \<Rightarrow> eff_raise pull_in_progress_http_exception
      | GachaStateStoreError _ \<Rightarrow>
          eff_bind
            (eff_catch (st_get_pull_operation_by_key (sv_env S) operation_key)
               (\<lambda>e'. case e' of GachaStateStoreError _ \<Rightarrow> eff_return None | _ \<Rightarrow> eff_raise e'))
            (\<lambda>reconciled. case reconciled of
               Some po \<Rightarrow>
                 (if po_status po \<noteq> Processing
                  then handle_claimed_pull_operation S po user operation_key request_hash x (context_metadata x)
                  else eff_raise (state_store_http_exception ''pull outcome is being reconciled''))
             | None \<Rightarrow> eff_raise (state_store_http_exception ''pull outcome is being reconciled''))
      | _ \<Rightarrow> eff_raise e)"

definition execute_claimed_pull ::
    "'g services \<Rightarrow> uuid \<Rightarrow> string \<Rightarrow> string \<Rightarrow> uuid \<Rightarrow> pull_recovery_context \<Rightarrow> pull_response svc" where
  "execute_claimed_pull S user operation_key request_hash token x =
     eff_try
       (asset_spend (sv_env S) (sv_lib S) (sv_asset_client S) user (rc_amount_minor x)
          (spend_idempotency_key (uuid_str (rc_event_id x))) ''gacha_pull'' (context_metadata x)
          (rc_request_id x))
       (on_spend_error S user operation_key request_hash token)
       (\<lambda>_. eff_try (generate_and_commit_pull_with_retry S user operation_key request_hash token x)
          (on_commit_error S user operation_key request_hash x)
          (\<lambda>(response, ev).
             publish_and_complete_claimed_pull S operation_key request_hash response ev))"

section \<open>Operations that already exist\<close>

definition handle_existing_pull_operation ::
    "'g services \<Rightarrow> pull_operation \<Rightarrow> uuid \<Rightarrow> string \<Rightarrow> string \<Rightarrow> string \<Rightarrow> int \<Rightarrow> string
     \<Rightarrow> (string \<times> json) list \<Rightarrow> pull_response svc" where
  "handle_existing_pull_operation S po user key request_hash event_id amount_minor request_id metadata =
     (if po_request_hash po \<noteq> request_hash
      then eff_raise (HTTPException 409 ''idempotency_conflict''
             ''Idempotency-Key was already used with a different request'')
      else case (po_status po, po_response po, po_event po) of
        (Event_Published, Some response, _) \<Rightarrow> eff_return response
      | (Succeeded, Some response, _) \<Rightarrow> eff_return response
      | (Event_Pending, Some response, Some ev) \<Rightarrow>
          eff_then (eff_catch (publish_pull_completed_with_retry S ev) on_publish_error)
          (eff_then (save_pull_operation_best_effort S user key
              (operation_with Event_Published request_hash (Some response) (Some ev)))
           (eff_return response))
      | (Refund_Pending, _, _) \<Rightarrow>
          eff_then (refund_spend S user key request_hash event_id amount_minor metadata request_id
              (str_or (po_error_code po) ''pull_refunded'')
              (str_or (po_error_message po) ''pull was refunded''))
            (eff_raise (HTTPException 409 ''pull_refunded''
               ''previous pull attempt was refunded; retry with a new Idempotency-Key''))
      | (Failed, _, _) \<Rightarrow>
          eff_raise (HTTPException 409 (str_or (po_error_code po) ''pull_failed'')
            (str_or (po_error_message po)
               ''previous pull attempt failed; retry with a new Idempotency-Key''))
      | _ \<Rightarrow> eff_raise (HTTPException 409 ''pull_in_progress'' ''pull is already in progress''))"

text \<open>\<open>x if x is not None else y\<close> over the three sources the handler falls back through.\<close>

definition handle_existing_pull_request ::
    "'g services \<Rightarrow> pull_operation \<Rightarrow> uuid \<Rightarrow> string \<Rightarrow> string \<Rightarrow> pull_request \<Rightarrow> string
     \<Rightarrow> pull_response svc" where
  "handle_existing_pull_request S po user key request_hash rq request_id =
     (let ctx = po_recovery_context po; response = po_response po; ev = po_event po;
          event_id = (case ctx of Some x \<Rightarrow> uuid_str (rc_event_id x) | None \<Rightarrow>
            (case ev of Some e \<Rightarrow> ev_event_id e
             | None \<Rightarrow> deterministic_pull_event_id (sv_lib S) user key));
          pity_group_id = (case ctx of Some x \<Rightarrow> Some (rc_pity_group_id x) | None \<Rightarrow>
            (case response of Some r \<Rightarrow> re_pity_group_id r | None \<Rightarrow>
              (case ev of Some e \<Rightarrow> ev_pity_group_id e | None \<Rightarrow> None)));
          banner_version_id = (case ctx of Some x \<Rightarrow> rc_banner_version_id x | None \<Rightarrow>
            (case response of Some r \<Rightarrow> re_banner_version_id r | None \<Rightarrow>
              (case ev of Some e \<Rightarrow> ev_banner_version_id e | None \<Rightarrow> None)));
          banner_id = (case ctx of Some x \<Rightarrow> b_id (rc_banner x) | None \<Rightarrow>
            (case ev of Some e \<Rightarrow> ev_banner_id e | None \<Rightarrow> pq_banner_id rq));
          audit = (case ctx of Some x \<Rightarrow> rc_audit x | None \<Rightarrow>
            (case response of Some r \<Rightarrow> re_audit r | None \<Rightarrow>
              (case ev of Some e \<Rightarrow> ev_audit e | None \<Rightarrow> None)));
          count = (case ctx of Some x \<Rightarrow> rc_count x | None \<Rightarrow> pq_count rq);
          amount_minor = (case ctx of Some x \<Rightarrow> rc_amount_minor x
            | None \<Rightarrow> count * astrite_per_pull)
      in handle_existing_pull_operation S po user key request_hash event_id amount_minor request_id
           (pull_asset_metadata event_id banner_id pity_group_id banner_version_id count audit))"

section \<open>Claiming\<close>

definition claim_or_resume_pull ::
    "'g services \<Rightarrow> uuid \<Rightarrow> string \<Rightarrow> string \<Rightarrow> pull_recovery_context \<Rightarrow> string \<Rightarrow> pull_response svc" where
  "claim_or_resume_pull S user key request_hash recovery_context request_id =
     eff_bind
       (eff_catch
          (st_begin_pull_operation (sv_env S) (sv_lib S) user key request_hash
             pull_processing_lease_seconds recovery_context)
          (on_store_error (state_store_http_exception ''pull idempotency is unavailable'')))
       (\<lambda>cl.
          let x = (case po_recovery_context (cl_operation cl) of
                     None \<Rightarrow> recovery_context | Some c \<Rightarrow> c) in
          case cl_processing_token cl of
            None \<Rightarrow>
              handle_existing_pull_operation S (cl_operation cl) user key request_hash
                (uuid_str (rc_event_id x)) (rc_amount_minor x) request_id (context_metadata x)
          | Some token \<Rightarrow>
              execute_claimed_pull S user (cl_operation_key cl) request_hash token x)"

section \<open>The request\<close>

text \<open>
  \<open>create_pull\<close> after the catalog lookup: \<open>snapshot\<close> is the current catalog, \<open>found\<close> what
  \<open>banner_config_at\<close> returned.
\<close>

definition pull_seed :: "'g services \<Rightarrow> uuid \<Rightarrow> string \<Rightarrow> pull_request \<Rightarrow> string" where
  "pull_seed S user key rq = str_or (pq_seed rq) (deterministic_pull_seed (sv_lib S) user key)"

definition resume_without_banner ::
    "'g services \<Rightarrow> uuid \<Rightarrow> string \<Rightarrow> string \<Rightarrow> pull_request \<Rightarrow> string \<Rightarrow> pull_response svc" where
  "resume_without_banner S user key request_hash rq request_id =
     eff_bind
       (eff_catch (st_get_pull_operation (sv_env S) (sv_lib S) user key)
          (on_store_error (state_store_http_exception ''pull idempotency is unavailable'')))
       (\<lambda>existing. case existing of
          None \<Rightarrow> eff_raise (HTTPException 404 ''banner_not_found'' ''banner was not found'')
        | Some po \<Rightarrow>
            (case po_recovery_context po of
               None \<Rightarrow> handle_existing_pull_request S po user key request_hash rq request_id
             | Some x \<Rightarrow> claim_or_resume_pull S user key request_hash x request_id))"

definition pull_on_config ::
    "'g services \<Rightarrow> catalog_snapshot \<Rightarrow> banner_config \<Rightarrow> uuid \<Rightarrow> string \<Rightarrow> string \<Rightarrow> pull_request
     \<Rightarrow> py_datetime \<Rightarrow> string \<Rightarrow> pull_response svc" where
  "pull_on_config S snapshot c user key request_hash rq accepted request_id =
     (case build_pull_audit_metadata (sv_lib S) snapshot c (sv_engine_version S) (sv_engine_build_sha S) of
        Inl (ValueError _) \<Rightarrow>
          eff_raise (HTTPException 503 ''gacha_config_evidence_missing''
            ''gacha configuration audit evidence is incomplete'')
      | Inl ValidationError \<Rightarrow>
          eff_raise (HTTPException 503 ''gacha_config_evidence_missing''
            ''gacha configuration audit evidence is incomplete'')
      | Inl e \<Rightarrow> eff_raise e
      | Inr audit \<Rightarrow>
          eff_bind (eff_lift (from_banner_config c (pq_count rq) (pull_seed S user key rq)
              (deterministic_pull_event_id (sv_lib S) user key) (pq_count rq * astrite_per_pull)
              request_id (Some accepted) (Some audit)))
            (\<lambda>x. claim_or_resume_pull S user key request_hash x request_id))"

definition create_pull ::
    "'g services \<Rightarrow> catalog_snapshot result \<Rightarrow> pull_request \<Rightarrow> uuid \<Rightarrow> string \<Rightarrow> py_datetime \<Rightarrow> string
     \<Rightarrow> pull_response svc" where
  "create_pull S current rq user key accepted request_id =
     (let request_hash = pull_request_hash (sv_lib S) (pq_banner_id rq) (pq_count rq) (pull_seed S user key rq) in
      case current of
        Inl (CatalogLoadError _) \<Rightarrow>
          eff_raise (HTTPException 503 ''gacha_config_unavailable'' ''gacha config is unavailable'')
      | Inl e \<Rightarrow> eff_raise e
      | Inr snapshot \<Rightarrow>
          eff_bind (eff_lift (banner_config_at snapshot (pq_banner_id rq) accepted)) (\<lambda>found.
          case found of
            None \<Rightarrow> resume_without_banner S user key request_hash rq request_id
          | Some c \<Rightarrow> pull_on_config S snapshot c user key request_hash rq accepted request_id))"

end
