(* ===== verification/Service_Props.thy ===== *)
theory Service_Props
  imports Pull_Service Postgres_Props
begin

text \<open>
  Reasoning about runs of the service. \<open>world_le\<close> relates any earlier world to any later one, and
  \<open>quiet\<close> is \<open>world_le\<close> with no request and no message sent; every store call is quiet. The rules
  \<open>wp_...\<close> give, call by call, what holds after a return and after an exception, in any lawful
  environment: the handler proofs push \<open>wp\<close> through the code with \<open>wp_simps\<close> and close each call
  with its rule. The facts that survive a quiet step are collected in \<open>stable_intros\<close>.
\<close>

named_theorems stable_intros

section \<open>The order of worlds\<close>

definition world_le :: "world \<Rightarrow> world \<Rightarrow> bool" where
  "world_le w w' \<longleftrightarrow>
     store_steps (w_db w) (w_db w') \<and> (\<exists>ms. w_topic w' = w_topic w @ ms) \<and>
     (\<exists>qs. w_http w' = w_http w @ qs) \<and> w_clock w \<le> w_clock w'"

definition quiet :: "world \<Rightarrow> world \<Rightarrow> bool" where
  "quiet w w' \<longleftrightarrow>
     store_steps (w_db w) (w_db w') \<and> w_topic w' = w_topic w \<and> w_http w' = w_http w"

lemma quiet_refl [simp]: "quiet w w"
  by (simp add: quiet_def)

lemma quiet_trans: "quiet u v \<Longrightarrow> quiet v w \<Longrightarrow> quiet u w"
  by (auto simp: quiet_def)

lemma preorder_quiet [simp]: "preorder_rel quiet"
  by (auto simp: preorder_rel_def intro!: reflpI transpI dest: quiet_trans)

lemma preorder_world_le [simp]: "preorder_rel world_le"
  by (fastforce simp: preorder_rel_def world_le_def intro!: reflpI transpI)

lemma lawful_step: "lawful_env E \<Longrightarrow> store_steps db (e_others E n db)"
  by (simp add: lawful_env_def)

lemma tick_quiet: "lawful_env E \<Longrightarrow> quiet w (tick E w)"
  by (simp add: quiet_def tick_def lawful_step)

section \<open>Store calls\<close>

text \<open>What a store call is: other sessions act, then the method runs, unless the call fails.\<close>

lemma db_call_InrD:
  assumes "lawful_env E" "db_call E msg m w = (Inr x, w')"
  shows "\<exists>d. store_steps (w_db w) d \<and> m (w_clock w) d = (Inr x, w_db w')"
  using assms
  by (auto simp: db_call_def Let_def tick_def lawful_step intro!: exI[of _ "e_others E (w_clock w) (w_db w)"]
      split: db_outcome.splits prod.splits)

lemma db_call_InlD:
  assumes "lawful_env E" "db_call E msg m w = (Inl e, w')"
  shows "(\<exists>s. e = GachaStateStoreError s) \<or>
    (\<exists>d. store_steps (w_db w) d \<and> m (w_clock w) d = (Inl e, w_db w'))"
  using assms
  by (auto simp: db_call_def Let_def tick_def lawful_step intro!: exI[of _ "e_others E (w_clock w) (w_db w)"]
      split: db_outcome.splits prod.splits)

lemma db_call_quiet:
  assumes E: "lawful_env E" and m: "\<And>n. guarantees store_steps (m n)"
  shows "guarantees quiet (db_call E msg m)"
proof (rule guaranteesI)
  fix w r w'
  assume c: "db_call E msg m w = (r, w')"
  let ?d = "e_others E (w_clock w) (w_db w)"
  obtain x d where x: "m (w_clock w) ?d = (x, d)" by force
  have "store_steps ?d d" using guaranteesD[OF m x] .
  then have "store_steps (w_db w) d" "store_steps (w_db w) ?d"
    using lawful_step[OF E, of "w_db w" "w_clock w"] by (auto intro: rtranclp_trans)
  with c x show "quiet w w'"
    by (auto simp: db_call_def Let_def tick_def quiet_def split: db_outcome.splits)
qed

lemma pass_quiet: "guarantees quiet m \<Longrightarrow> guarantees quiet (pass k m)"
  by (auto simp: pass_def guarantees_def quiet_def split: prod.splits) (metis prod.collapse snd_conv)+

lemma st_quiet [guarantees_intros]:
  assumes E: "lawful_env E"
  shows "guarantees quiet (st_get_snapshot E user grp)"
    "guarantees quiet (st_begin_pull_operation E L user key h lease ctx)"
    "guarantees quiet (st_get_pull_operation E L user key)"
    "guarantees quiet (st_list_pull_operations E user limit)"
    "guarantees quiet (st_get_pull_operation_record E user oid)"
    "guarantees quiet (st_get_pull_operation_by_key E k)"
    "guarantees quiet (st_get_pull_operation_by_event_id E user ev)"
    "guarantees quiet (st_commit E k user grp h v p po token)"
    "guarantees quiet (st_transition E k user h token po)"
    "guarantees quiet (st_save E L user key po)"
    "guarantees quiet (st_save_by_key E k po)"
    "guarantees quiet (st_iter_event_pending E limit)"
    "guarantees quiet (st_iter_refund_pending E limit)"
    "guarantees quiet (st_iter_expired_processing E limit)"
    "guarantees quiet (st_claim_expired_processing E k lease)"
    "guarantees quiet (st_claim_recovery E k st ttl)"
    "guarantees quiet (st_release_recovery E k)"
    "guarantees quiet (svc_sleep E)"
  unfolding st_defs
  by (auto intro!: pass_quiet db_call_quiet E guarantees_methods guarantees_commits guarantees_begin lawful_step)
     (simp add: guarantees_def svc_sleep_def tick_quiet E)

section \<open>What a quiet step keeps\<close>

text \<open>The row of an operation, by its key.\<close>

definition row_of :: "string \<Rightarrow> op_row \<Rightarrow> world \<Rightarrow> bool" where
  "row_of k r w \<longleftrightarrow> r \<in> set (db_ops (w_db w)) \<and> uuid_str (op_id r) = k"

text \<open>The operation named by \<open>k\<close> is that of this user and this idempotency key hash.\<close>

definition owned :: "string \<Rightarrow> uuid \<Rightarrow> string \<Rightarrow> world \<Rightarrow> bool" where
  "owned k user kh w \<longleftrightarrow> (\<exists>r. row_of k r w \<and> op_user_id r = user \<and> op_key_hash r = kh)"

text \<open>A response, and an event, that are the evidence of a stored operation.\<close>

definition stored :: "uuid \<Rightarrow> string \<Rightarrow> string \<Rightarrow> pull_response \<Rightarrow> world \<Rightarrow> bool" where
  "stored user kh h resp w \<longleftrightarrow>
     (\<exists>r \<in> set (db_ops (w_db w)). op_user_id r = user \<and> op_key_hash r = kh \<and> op_request_hash r = h \<and>
        has_evidence r \<and> op_response r = Some resp)"

definition committed_event :: "pull_completed_event \<Rightarrow> world \<Rightarrow> bool" where
  "committed_event ev w \<longleftrightarrow> (\<exists>r \<in> set (db_ops (w_db w)). has_evidence r \<and> op_event r = Some ev)"

text \<open>The outbox invariant: every message on the topic is the event of a committed operation.\<close>

definition topic_ok :: "world \<Rightarrow> bool" where
  "topic_ok w \<longleftrightarrow> (\<forall>m \<in> set (w_topic w). committed_event (km_event m) w)"

definition service_inv :: "world \<Rightarrow> bool" where
  "service_inv w \<longleftrightarrow> wf_db (w_db w) \<and> topic_ok w"

lemma later_row:
  assumes "store_steps db db'" "r \<in> set (db_ops db)"
  shows "\<exists>s \<in> set (db_ops db'). row_le r s"
  using rows_le_member[of row_le "db_ops db" "db_ops db'"] store_steps_le[OF assms(1)] assms(2)
  by (auto simp: db_le_def)

lemma row_le_evidence:
  "row_le r s \<Longrightarrow> has_evidence r \<Longrightarrow> has_evidence s \<and> op_response s = op_response r \<and> op_event s = op_event r"
  by (auto simp: row_le_def has_evidence_rank)

lemma owned_steps:
  assumes "owned k user kh w" "store_steps (w_db w) (w_db w')"
  shows "owned k user kh w'"
proof -
  from assms(1) obtain r where r: "r \<in> set (db_ops (w_db w))" "uuid_str (op_id r) = k"
    "op_user_id r = user" "op_key_hash r = kh"
    by (auto simp: owned_def row_of_def)
  from later_row[OF assms(2) r(1)] obtain s where s: "s \<in> set (db_ops (w_db w'))" "row_le r s" by blast
  from s(2) r have "uuid_str (op_id s) = k" "op_user_id s = user" "op_key_hash s = kh"
    by (simp_all add: row_le_def)
  with s(1) show ?thesis by (auto simp: owned_def row_of_def)
qed

lemma stored_steps:
  assumes "stored user kh h resp w" "store_steps (w_db w) (w_db w')"
  shows "stored user kh h resp w'"
proof -
  from assms(1) obtain r where r: "r \<in> set (db_ops (w_db w))" "has_evidence r" "op_response r = Some resp"
    "op_user_id r = user" "op_key_hash r = kh" "op_request_hash r = h"
    by (auto simp: stored_def)
  from later_row[OF assms(2) r(1)] obtain s where s: "s \<in> set (db_ops (w_db w'))" "row_le r s" by blast
  from row_le_evidence[OF s(2) r(2)] s(2) r have "has_evidence s" "op_response s = Some resp"
    "op_user_id s = user" "op_key_hash s = kh" "op_request_hash s = h"
    by (simp_all add: row_le_def)
  with s(1) show ?thesis by (auto simp: stored_def)
qed

lemma committed_event_steps:
  "committed_event ev w \<Longrightarrow> store_steps (w_db w) (w_db w') \<Longrightarrow> committed_event ev w'"
  unfolding committed_event_def by (metis later_row row_le_evidence)

lemma quiet_stable [stable_intros]:
  "quiet w w' \<Longrightarrow> owned k user kh w \<Longrightarrow> owned k user kh w'"
  "quiet w w' \<Longrightarrow> stored user kh h resp w \<Longrightarrow> stored user kh h resp w'"
  "quiet w w' \<Longrightarrow> committed_event ev w \<Longrightarrow> committed_event ev w'"
  "quiet w w' \<Longrightarrow> service_inv w \<Longrightarrow> service_inv w'"
  by (auto simp: quiet_def service_inv_def topic_ok_def
      intro: owned_steps stored_steps committed_event_steps dest: store_steps_wf)


section \<open>Rules for the calls\<close>

lemma wp_quiet:
  assumes "guarantees quiet m"
    and "\<And>x w'. quiet w w' \<Longrightarrow> m w = (Inr x, w') \<Longrightarrow> Q x w'"
    and "\<And>e w'. quiet w w' \<Longrightarrow> m w = (Inl e, w') \<Longrightarrow> X e w'"
  shows "wp m Q X w"
  using assms by (intro wpI) (auto dest: guaranteesD)

lemma pass_result: "pass k m w = (r, w') \<Longrightarrow> \<exists>v. m w = (r, v) \<and> w_db w' = w_db v"
  by (auto simp: pass_def split: prod.splits)

lemma wp_begin:
  assumes E: "lawful_env E"
    and Q: "\<And>cl w' r. quiet w w' \<Longrightarrow> row_of (cl_operation_key cl) r w' \<Longrightarrow> op_user_id r = user \<Longrightarrow>
      op_key_hash r = idempotency_key_hash L key \<Longrightarrow> cl_operation cl = operation_from_row r \<Longrightarrow>
      (cl_processing_token cl \<noteq> None \<longrightarrow> op_request_hash r = h \<and> op_status r = Processing) \<Longrightarrow> Q cl w'"
    and X: "\<And>e w'. quiet w w' \<Longrightarrow> X e w'"
  shows "wp (st_begin_pull_operation E L user key h lease ctx) Q X w"
proof (rule wp_quiet)
  show "guarantees quiet (st_begin_pull_operation E L user key h lease ctx)" by (rule st_quiet[OF E])
next
  fix cl w'
  assume q: "quiet w w'" and b: "st_begin_pull_operation E L user key h lease ctx w = (Inr cl, w')"
  let ?n = "w_clock w"
  from pass_result[OF b[unfolded st_begin_pull_operation_def]] obtain v where
    v: "db_call E ''begin pull operation in postgres failed'' (\<lambda>n.
       begin_pull_operation L (e_now E n, e_now E (n + 1)) (e_others E (n + 1), e_others E (n + 2))
         (e_uuid4 E (n + 1), e_uuid4 E n) user key h lease ctx) w = (Inr cl, v)" "w_db w' = w_db v"
    by blast
  from db_call_InrD[OF E v(1)] obtain d where
    "begin_pull_operation L (e_now E ?n, e_now E (?n + 1)) (e_others E (?n + 1), e_others E (?n + 2))
       (e_uuid4 E (?n + 1), e_uuid4 E ?n) user key h lease ctx d = (Inr cl, w_db v)"
    by blast
  from begin_claim_facts[OF this] v(2) obtain r where
    r: "r \<in> set (db_ops (w_db w'))" "cl_operation_key cl = uuid_str (op_id r)"
      "cl_operation cl = operation_from_row r" "op_user_id r = user"
      "op_key_hash r = idempotency_key_hash L key"
      "cl_processing_token cl \<noteq> None \<longrightarrow> op_request_hash r = h \<and> op_status r = Processing"
    by auto
  show "Q cl w'"
    by (rule Q[OF q, of cl r]) (use r in \<open>simp_all add: row_of_def\<close>)
qed (rule X)

lemma wp_get_operation:
  assumes E: "lawful_env E"
    and N: "\<And>w'. quiet w w' \<Longrightarrow> Q None w'"
    and S: "\<And>r w'. quiet w w' \<Longrightarrow> r \<in> set (db_ops (w_db w')) \<Longrightarrow> op_user_id r = user \<Longrightarrow>
      op_key_hash r = idempotency_key_hash L key \<Longrightarrow> Q (Some (operation_from_row r)) w'"
    and X: "\<And>e w'. quiet w w' \<Longrightarrow> X e w'"
  shows "wp (st_get_pull_operation E L user key) Q X w"
proof (rule wp_quiet)
  show "guarantees quiet (st_get_pull_operation E L user key)" by (rule st_quiet[OF E])
next
  fix found w'
  assume q: "quiet w w'" and g: "st_get_pull_operation E L user key w = (Inr found, w')"
  from db_call_InrD[OF E g[unfolded st_get_pull_operation_def]] obtain d where
    "get_pull_operation L user key d = (Inr found, w_db w')" by blast
  then show "Q found w'"
    using N[OF q] S[OF q] by (cases found) (auto dest: get_operation_row)
qed (rule X)

lemma wp_get_by_key:
  assumes E: "lawful_env E" and k: "owned k user kh w"
    and N: "\<And>w'. quiet w w' \<Longrightarrow> Q None w'"
    and S: "\<And>r w'. quiet w w' \<Longrightarrow> row_of k r w' \<Longrightarrow> Q (Some (operation_from_row r)) w'"
    and X: "\<And>e w'. quiet w w' \<Longrightarrow> X e w'"
  shows "wp (st_get_pull_operation_by_key E k) Q X w"
proof (rule wp_quiet)
  show "guarantees quiet (st_get_pull_operation_by_key E k)" by (rule st_quiet[OF E])
next
  fix found w'
  assume q: "quiet w w'" and g: "st_get_pull_operation_by_key E k w = (Inr found, w')"
  from k obtain oid where oid: "k = uuid_str oid" by (auto simp: owned_def row_of_def)
  from db_call_InrD[OF E g[unfolded st_get_pull_operation_by_key_def oid]] obtain d where
    d: "get_pull_operation_by_key (uuid_str oid) d = (Inr found, w_db w')" by blast
  show "Q found w'"
  proof (cases found)
    case None
    then show ?thesis using N[OF q] by simp
  next
    case (Some po)
    with get_by_key_row[of oid d po "w_db w'"] d show ?thesis
      using S[OF q] by (auto simp: row_of_def oid)
  qed
qed (rule X)

lemma op_id_unique:
  "wf_db db \<Longrightarrow> r \<in> set (db_ops db) \<Longrightarrow> s \<in> set (db_ops db) \<Longrightarrow> op_id r = op_id s \<Longrightarrow> r = s"
  by (auto simp: wf_db_def distinct_map dest: inj_onD)

lemma owned_row:
  assumes "wf_db (w_db w)" "owned k user kh w" "row_of k r w"
  shows "op_user_id r = user \<and> op_key_hash r = kh"
  using assms by (auto simp: owned_def row_of_def dest: op_id_unique[OF assms(1)])

lemma wp_commit:
  assumes E: "lawful_env E" and inv: "service_inv w" and k: "owned k user kh w"
    and po: "po_status po = Event_Pending" "po_response po = Some resp" "po_event po = Some ev"
    and Q: "\<And>n w'. quiet w w' \<Longrightarrow> stored user kh h resp w' \<Longrightarrow> committed_event ev w' \<Longrightarrow> Q n w'"
    and X: "\<And>e w'. quiet w w' \<Longrightarrow> X e w'"
  shows "wp (st_commit E k user grp h v p po token) Q X w"
proof (rule wp_quiet)
  show "guarantees quiet (st_commit E k user grp h v p po token)" by (rule st_quiet[OF E])
next
  fix n w'
  assume q: "quiet w w'" and c: "st_commit E k user grp h v p po token w = (Inr n, w')"
  from db_call_InrD[OF E c[unfolded st_commit_def]] obtain d where
    "compare_and_set_with_pull_operation (e_now E (w_clock w)) k user grp h v p po token d = (Inr n, w_db w')"
    by blast
  from commit_stores[OF this] obtain r where
    r: "r \<in> set (db_ops (w_db w'))" "uuid_parse k = Some (op_id r)" "op_user_id r = user"
      "op_request_hash r = h" "op_status r = Event_Pending" "op_response r = Some resp" "op_event r = Some ev"
    using po by auto
  have k': "owned k user kh w'" and inv': "service_inv w'"
    using quiet_stable(1,4)[OF q] k inv by blast+
  from k' obtain oid where "k = uuid_str oid" by (auto simp: owned_def row_of_def)
  with r(1,2) have "row_of k r w'" by (simp add: row_of_def uuid_parse_str)
  with owned_row[OF _ k'] inv' have "op_key_hash r = kh" by (simp add: service_inv_def)
  with r show "Q n w'"
    by (intro Q[OF q]) (auto simp: stored_def committed_event_def has_evidence_def)
qed (rule X)

section \<open>Other services and the topic\<close>

lemma wp_http:
  assumes E: "lawful_env E"
    and Q: "\<And>out w'. out = e_http E (w_clock w) \<Longrightarrow> store_steps (w_db w) (w_db w') \<Longrightarrow> w_topic w' = w_topic w
      \<Longrightarrow> w_http w' = w_http w @ [q] \<Longrightarrow> Q out w'"
  shows "wp (http_call E q) Q X w"
  using E by (auto simp: wp_def http_call_def tick_def lawful_step intro!: Q)

text \<open>Publication appends copies of one message and nothing else of this process.\<close>

definition published :: "kafka_message \<Rightarrow> world \<Rightarrow> world \<Rightarrow> bool" where
  "published m w w' \<longleftrightarrow> store_steps (w_db w) (w_db w') \<and> w_http w' = w_http w \<and>
     (\<exists>k \<le> 3. w_topic w' = w_topic w @ replicate k m)"

definition mostly_quiet :: "world \<Rightarrow> world \<Rightarrow> bool" where
  "mostly_quiet w w' \<longleftrightarrow> store_steps (w_db w) (w_db w') \<and> w_http w' = w_http w"

lemma preorder_mostly_quiet [simp]: "preorder_rel mostly_quiet"
  by (auto simp: preorder_rel_def mostly_quiet_def intro!: reflpI transpI)

lemma mostly_quiet_publish [guarantees_intros]:
  assumes E: "lawful_env E"
  shows "guarantees mostly_quiet (publish_pull_completed E topic ev)"
    "guarantees mostly_quiet (svc_sleep E)"
  using lawful_step[OF E]
  by (auto simp: guarantees_def publish_pull_completed_def eff_then_def eff_bind_def ensure_started_def
      send_and_wait_def Let_def svc_sleep_def tick_def mostly_quiet_def
      intro: rtranclp_trans split: prod.splits sum.splits send_outcome.splits)

lemma guarantees_publish_attempts [guarantees_intros]:
  assumes "preorder_rel R" "guarantees R send" "guarantees R sleep"
  shows "guarantees R (publish_attempts send sleep n)"
proof (induction n)
  case (Suc n)
  show ?case
    unfolding publish_attempts.simps
    by (auto intro!: guarantees_intros assms Suc.IH split: exn.splits)
qed (simp add: guarantees_pure assms)

lemma wp_publish:
  assumes E: "lawful_env (sv_env S)"
    and Q: "\<And>w'. published (kafka_message_of (sv_kafka_topic S) ev) w w' \<Longrightarrow> Q () w'"
    and X: "\<And>e w'. published (kafka_message_of (sv_kafka_topic S) ev) w w' \<Longrightarrow> X e w'"
  shows "wp (publish_pull_completed_with_retry S ev) Q X w"
proof -
  have "published (kafka_message_of (sv_kafka_topic S) ev) w w'"
    if p: "publish_pull_completed_with_retry S ev w = (r, w')" for r w'
  proof -
    have "guarantees mostly_quiet (publish_pull_completed_with_retry S ev)"
      unfolding publish_pull_completed_with_retry_def
      by (intro guarantees_intros mostly_quiet_publish E) simp
    from guaranteesD[OF this p] kafka_sender.publish_attempts_log[OF p[unfolded publish_pull_completed_with_retry_def]]
    show ?thesis by (auto simp: published_def mostly_quiet_def)
  qed
  then show ?thesis by (intro wpI) (auto intro: Q X)
qed

lemma published_stable [stable_intros]:
  assumes "published m w w'"
  shows "owned k user kh w \<Longrightarrow> owned k user kh w'" "stored user kh h resp w \<Longrightarrow> stored user kh h resp w'"
    "committed_event ev w \<Longrightarrow> committed_event ev w'"
    "committed_event (km_event m) w \<Longrightarrow> service_inv w \<Longrightarrow> service_inv w'"
proof -
  from assms obtain j where st: "store_steps (w_db w) (w_db w')" and
    t: "w_topic w' = w_topic w @ replicate j m"
    by (auto simp: published_def)
  note c = committed_event_steps[OF _ st]
  show "owned k user kh w \<Longrightarrow> owned k user kh w'" "stored user kh h resp w \<Longrightarrow> stored user kh h resp w'"
    "committed_event ev w \<Longrightarrow> committed_event ev w'"
    by (rule owned_steps[OF _ st] stored_steps[OF _ st] c, assumption)+
  show "service_inv w'" if "committed_event (km_event m) w" "service_inv w"
    using that c store_steps_wf[OF st] by (auto simp: service_inv_def topic_ok_def t)
qed

lemma http_stable [stable_intros]:
  assumes "store_steps (w_db w) (w_db w')" "w_topic w' = w_topic w"
  shows "owned k user kh w \<Longrightarrow> owned k user kh w'" "stored user kh h resp w \<Longrightarrow> stored user kh h resp w'"
    "committed_event ev w \<Longrightarrow> committed_event ev w'" "service_inv w \<Longrightarrow> service_inv w'"
  using assms
  by (auto simp: service_inv_def topic_ok_def
      intro: owned_steps stored_steps committed_event_steps dest: store_steps_wf)

end
