(* ===== verification/Service_Guarantees.thy ===== *)
theory Service_Guarantees
  imports Service_Props Store_Guarantees
begin

text \<open>
  One lemma per handler of the pull flow, in every lawful environment: it keeps the invariant that
  every message on the topic is a committed event, and it answers with committed
  evidence (\<open>handler_ok\<close>). The properties of the whole flow are in \<open>Flow_Guarantees\<close>.
\<close>

section \<open>Every handler keeps the invariant and answers with evidence\<close>

definition handler_ok :: "uuid \<Rightarrow> string \<Rightarrow> string \<Rightarrow> pull_response svc \<Rightarrow> world \<Rightarrow> bool" where
  "handler_ok user kh h m w \<longleftrightarrow>
     wp m (\<lambda>resp w'. service_inv w' \<and> stored user kh h resp w') (\<lambda>e w'. service_inv w') w"

lemma handler_ok_raise [simp]: "handler_ok user kh h (eff_raise e) w \<longleftrightarrow> service_inv w"
  by (simp add: handler_ok_def wp_simps)

lemma quiet_inv:
  assumes "guarantees quiet m" "service_inv w"
  shows "wp m (\<lambda>_. service_inv) (\<lambda>_. service_inv) w"
  by (rule wp_quiet[OF assms(1)]) (use assms(2) in \<open>blast dest: quiet_stable\<close>)+

lemma ignore_store_quiet [guarantees_intros]:
  "guarantees quiet m \<Longrightarrow> guarantees quiet (ignore_store_error m)"
  unfolding ignore_store_error_def
  by (auto intro!: guarantees_intros split: exn.splits)

lemma publish_and_complete_ok:
  assumes E: "lawful_env (sv_env S)" and inv: "service_inv w" "committed_event ev w"
    and st: "stored user kh h resp w"
  shows "handler_ok user kh h (publish_and_complete_claimed_pull S k h' resp ev) w"
proof -
  let ?p = "published (kafka_message_of (sv_kafka_topic S) ev) w"
  have keep: "service_inv w'" "stored user kh h resp w'" if "?p w'" for w'
    using published_stable[OF that] inv st by (auto simp: kafka_message_of_def)
  have "wp (ignore_store_error (st_save_by_key (sv_env S) k po))
      (\<lambda>_ w''. service_inv w'' \<and> stored user kh h resp w'') (\<lambda>_. service_inv) w'" if "?p w'" for w' po
    by (rule wp_quiet[OF ignore_store_quiet[OF st_quiet(11)[OF E]]])
       (use keep[OF that] in \<open>blast dest: quiet_stable\<close>)+
  then show ?thesis
    unfolding handler_ok_def publish_and_complete_claimed_pull_def wp_simps
    by (intro wp_publish[OF E]) (auto simp: on_publish_error_def wp_simps keep split: exn.splits)
qed

lemma post_entry_inv:
  assumes E: "lawful_env E" and inv: "service_inv w" "owned k user kh w"
  shows "wp (post_entry E L c path u a key reason md rid)
    (\<lambda>_ w'. service_inv w' \<and> owned k user kh w') (\<lambda>_ w'. service_inv w' \<and> owned k user kh w') w"
  unfolding post_entry_def wp_simps
  by (rule wp_http[OF E])
     (use http_stable inv in \<open>auto simp: wp_simps Let_def split: http_outcome.splits prod.splits\<close>)

lemma refund_claimed_ok:
  assumes E: "lawful_env (sv_env S)" and inv: "service_inv w" "owned k user kh w"
  shows "wp (refund_claimed_spend S u k' h x md c m) (\<lambda>_. service_inv) (\<lambda>_. service_inv) w"
  unfolding refund_claimed_spend_def wp_simps asset_credit_def
  by (rule wp_mono[OF post_entry_inv[OF E inv]])
     (auto simp: on_refund_error_def wp_simps intro!: quiet_inv st_quiet E split: exn.splits)

lemma refund_spend_ok:
  assumes E: "lawful_env (sv_env S)" and inv: "service_inv w" "owned k user kh w"
  shows "wp (refund_spend S u key h ev a md rid c m) (\<lambda>_. service_inv) (\<lambda>_. service_inv) w"
  unfolding refund_spend_def wp_simps asset_credit_def mark_pull_operation_failed_def
    save_pull_operation_best_effort_def
  by (rule wp_mono[OF post_entry_inv[OF E inv]])
     (auto simp: on_refund_error_def wp_simps intro!: quiet_inv ignore_store_quiet st_quiet E
       split: exn.splits)

lemma evidence_of_row:
  assumes "r \<in> set (db_ops (w_db w))" "has_evidence r"
  shows "op_response r = Some resp \<Longrightarrow> stored (op_user_id r) (op_key_hash r) (op_request_hash r) resp w"
    "op_event r = Some ev \<Longrightarrow> committed_event ev w"
  using assms by (auto simp: stored_def committed_event_def)

lemma handle_claimed_ok:
  assumes E: "lawful_env (sv_env S)" and inv: "service_inv w"
    and r: "row_of k r w" "op_user_id r = user" "op_key_hash r = kh"
  shows "handler_ok user kh h (handle_claimed_pull_operation S (operation_from_row r) user k h x md) w"
proof (cases "op_request_hash r = h")
  case False
  then show ?thesis by (simp add: handle_claimed_pull_operation_def operation_from_row_def inv)
next
  case True
  have own: "owned k user kh w" using r by (auto simp: owned_def)
  have ev: "has_evidence r \<Longrightarrow> op_response r = Some resp \<Longrightarrow> stored user kh h resp w"
    "has_evidence r \<Longrightarrow> op_event r = Some e \<Longrightarrow> committed_event e w" for resp e
    using evidence_of_row[of r w] r True by (auto simp: row_of_def)
  have refund: "handler_ok user kh h (eff_then (refund_claimed_spend S user k h x md c m) (eff_raise e)) w"
    for c m e
    unfolding handler_ok_def wp_simps by (rule wp_mono[OF refund_claimed_ok[OF E inv own]])
  have pub: "handler_ok user kh h (publish_and_complete_claimed_pull S k h resp e) w"
    if "has_evidence r" "op_response r = Some resp" "op_event r = Some e" for resp e
    using that by (intro publish_and_complete_ok E inv ev)
  have ret: "handler_ok user kh h (eff_return resp) w" if "has_evidence r" "op_response r = Some resp" for resp
    using ev(1)[OF that] inv by (simp add: handler_ok_def wp_simps)
  show ?thesis
    using True refund pub ret inv
    by (cases "op_status r"; cases "op_response r"; cases "op_event r")
       (simp_all add: handle_claimed_pull_operation_def operation_from_row_def has_evidence_def)
qed

lemma handle_existing_operation_ok:
  assumes E: "lawful_env (sv_env S)" and inv: "service_inv w"
    and r: "r \<in> set (db_ops (w_db w))" "op_user_id r = user" "op_key_hash r = kh"
  shows "handler_ok user kh h
    (handle_existing_pull_operation S (operation_from_row r) user key h evid a rid md) w"
proof (cases "op_request_hash r = h")
  case False
  then show ?thesis by (simp add: handle_existing_pull_operation_def operation_from_row_def inv)
next
  case True
  have own: "owned (uuid_str (op_id r)) user kh w" using r by (auto simp: owned_def row_of_def)
  have ev: "has_evidence r \<Longrightarrow> op_response r = Some resp \<Longrightarrow> stored user kh h resp w"
    "has_evidence r \<Longrightarrow> op_event r = Some e \<Longrightarrow> committed_event e w" for resp e
    using evidence_of_row[OF r(1)] r True by auto
  have refund: "handler_ok user kh h (eff_then (refund_spend S user key h evid a md rid c m) (eff_raise e)) w"
    for c m e
    unfolding handler_ok_def wp_simps by (rule wp_mono[OF refund_spend_ok[OF E inv own]])
  have ret: "handler_ok user kh h (eff_return resp) w" if "has_evidence r" "op_response r = Some resp" for resp
    using ev(1)[OF that] inv by (simp add: handler_ok_def wp_simps)
  have pub: "handler_ok user kh h (eff_then (eff_catch (publish_pull_completed_with_retry S e) on_publish_error)
      (eff_then (save_pull_operation_best_effort S user key po) (eff_return resp))) w"
    if "has_evidence r" "op_response r = Some resp" "op_event r = Some e" for resp e po
  proof -
    let ?p = "published (kafka_message_of (sv_kafka_topic S) e) w"
    have keep: "service_inv w'" "stored user kh h resp w'" if "?p w'" for w'
      using published_stable[OF that] inv ev \<open>has_evidence r\<close> \<open>op_response r = Some resp\<close>
        \<open>op_event r = Some e\<close> by (auto simp: kafka_message_of_def)
    have "wp (save_pull_operation_best_effort S user key po)
        (\<lambda>_ w''. service_inv w'' \<and> stored user kh h resp w'') (\<lambda>_. service_inv) w'" if "?p w'" for w'
      unfolding save_pull_operation_best_effort_def
      by (rule wp_quiet[OF ignore_store_quiet[OF st_quiet(10)[OF E]]])
         (use keep[OF that] in \<open>blast dest: quiet_stable\<close>)+
    then show ?thesis
      unfolding handler_ok_def wp_simps
      by (intro wp_publish[OF E]) (auto simp: on_publish_error_def wp_simps keep split: exn.splits)
  qed
  show ?thesis
    using True refund pub ret inv
    by (cases "op_status r"; cases "op_response r"; cases "op_event r")
       (simp_all add: handle_existing_pull_operation_def operation_from_row_def has_evidence_def)
qed


lemma commit_once_ok:
  assumes E: "lawful_env (sv_env S)" and keep: "service_inv v" "owned k user kh v"
    and conflict: "\<And>e w'. service_inv w' \<Longrightarrow> owned k user kh w' \<Longrightarrow>
      wp (on_conflict e) (\<lambda>(resp, ev) w'. service_inv w' \<and> owned k user kh w' \<and> stored user kh h resp w' \<and>
        committed_event ev w') (\<lambda>_ w'. service_inv w' \<and> owned k user kh w') w'"
  shows "wp (eff_try (st_commit (sv_env S) k user grp h n nx (operation_with Event_Pending h (Some resp) (Some ev)) token)
      on_conflict (\<lambda>_. eff_return (resp, ev)))
    (\<lambda>(resp, ev) w'. service_inv w' \<and> owned k user kh w' \<and> stored user kh h resp w' \<and> committed_event ev w')
    (\<lambda>_ w'. service_inv w' \<and> owned k user kh w') v"
proof -
  let ?keep = "\<lambda>w'. service_inv w' \<and> owned k user kh w'"
  have "wp (st_commit (sv_env S) k user grp h n nx (operation_with Event_Pending h (Some resp) (Some ev)) token)
      (\<lambda>_ w'. ?keep w' \<and> stored user kh h resp w' \<and> committed_event ev w') (\<lambda>_. ?keep) v"
  proof (rule wp_commit[OF E])
    show "service_inv v" "owned k user kh v" by fact+
    show "?keep w'" if "quiet v w'" for w'
      using quiet_stable(1,4)[OF that] keep by blast
    then show "?keep w' \<and> stored user kh h resp w' \<and> committed_event ev w'"
      if "quiet v w'" "stored user kh h resp w'" "committed_event ev w'" for w'
      using that by blast
  qed (simp_all add: operation_with_def)
  then show ?thesis
    unfolding wp_try by (rule wp_mono) (simp_all add: conflict wp_pure)
qed

lemma commit_attempts_ok:
  assumes E: "lawful_env (sv_env S)" and inv: "service_inv w" "owned k user kh w"
  shows "wp (commit_attempts S user k h token x n)
    (\<lambda>(resp, ev) w'. service_inv w' \<and> owned k user kh w' \<and> stored user kh h resp w' \<and> committed_event ev w')
    (\<lambda>e w'. service_inv w' \<and> owned k user kh w') w"
  using inv
proof (induction n arbitrary: w)
  case 0
  then show ?case by (simp add: wp_simps)
next
  case (Suc n)
  let ?keep = "\<lambda>w'. service_inv w' \<and> owned k user kh w'"
  let ?done = "\<lambda>(resp, ev) w'. service_inv w' \<and> owned k user kh w' \<and> stored user kh h resp w' \<and>
    committed_event ev w'"
  have again: "wp (eff_then (svc_sleep (sv_env S)) (commit_attempts S user k h token x n)) ?done (\<lambda>e. ?keep) v"
    if v: "service_inv v" "owned k user kh v" for v
    unfolding wp_simps
    by (rule wp_quiet[OF st_quiet(18)[OF E]]) (use v quiet_stable(1,4) Suc.IH in blast)+
  let ?conflict = "\<lambda>e. case e of
        PityVersionConflict _ \<Rightarrow>
          (if n = 0
           then eff_raise (HTTPException 503 ''pull_recovery_pending''
                  ''pull is queued behind another pull and will continue automatically'')
           else eff_then (svc_sleep (sv_env S)) (commit_attempts S user k h token x n))
      | _ \<Rightarrow> eff_raise e"
  have on_conflict: "wp (?conflict e) ?done (\<lambda>e. ?keep) v" if "service_inv v" "owned k user kh v" for e v
    using that again[OF that] by (cases e) (simp_all add: wp_pure)
  show ?case
    unfolding commit_attempts.simps wp_simps
  proof (rule wp_quiet[OF st_quiet(1)[OF E]])
    fix previous :: pity_snapshot and v
    assume "quiet w v"
    then have v: "service_inv v" "owned k user kh v" using quiet_stable(1,4) Suc.prems by blast+
    note commit = commit_once_ok[OF E v, where on_conflict = ?conflict, OF on_conflict]
    show "case generate_pull (sv_lib S) user x previous of
        Inl e \<Rightarrow> ?keep v
      | Inr y \<Rightarrow> wp (case y of (nx, resp, ev) \<Rightarrow>
          eff_try (st_commit (sv_env S) k user (rc_pity_group_id x) h (version previous) nx
             (operation_with Event_Pending h (Some resp) (Some ev)) token) ?conflict
           (\<lambda>_. eff_return (resp, ev))) ?done (\<lambda>e. ?keep) v"
      using v commit by (simp only: split: sum.splits prod.splits) blast
  qed (use quiet_stable(1,4) Suc.prems in blast)
qed

lemma on_commit_error_ok:
  assumes E: "lawful_env (sv_env S)" and inv: "service_inv w" "owned k user kh w"
  shows "handler_ok user kh h (on_commit_error S user k h x e) w"
proof -
  have "handler_ok user kh h (eff_bind
      (eff_catch (st_get_pull_operation_by_key (sv_env S) k)
         (\<lambda>e'. case e' of GachaStateStoreError _ \<Rightarrow> eff_return None | _ \<Rightarrow> eff_raise e'))
      (\<lambda>reconciled. case reconciled of
         Some po \<Rightarrow>
           (if po_status po \<noteq> Processing
            then handle_claimed_pull_operation S po user k h x (context_metadata x)
            else eff_raise (state_store_http_exception ''pull outcome is being reconciled''))
       | None \<Rightarrow> eff_raise (state_store_http_exception ''pull outcome is being reconciled''))) w"
    unfolding handler_ok_def wp_simps
  proof (rule wp_get_by_key[OF E inv(2)])
    fix r w'
    assume q: "quiet w w'" and r: "row_of k r w'"
    from quiet_stable(1,4)[OF q] inv have inv': "service_inv w'" "owned k user kh w'" by blast+
    with owned_row[OF _ inv'(2) r] have "op_user_id r = user" "op_key_hash r = kh"
      by (simp_all add: service_inv_def)
    from handle_claimed_ok[OF E inv'(1) r this, of h x "context_metadata x"]
    show "wp (case Some (operation_from_row r) of
          None \<Rightarrow> eff_raise (state_store_http_exception ''pull outcome is being reconciled'')
        | Some po \<Rightarrow>
            (if po_status po \<noteq> Processing
             then handle_claimed_pull_operation S po user k h x (context_metadata x)
             else eff_raise (state_store_http_exception ''pull outcome is being reconciled'')))
        (\<lambda>resp w'. service_inv w' \<and> stored user kh h resp w') (\<lambda>e. service_inv) w'"
      using inv'(1) by (simp add: handler_ok_def wp_simps)
  qed (use quiet_stable(4) inv in \<open>auto simp: wp_simps split: exn.splits\<close>)
  then show ?thesis
    using inv by (auto simp: on_commit_error_def split: exn.splits)
qed

lemma on_spend_error_ok:
  assumes E: "lawful_env (sv_env S)" and inv: "service_inv w"
  shows "handler_ok user kh h (on_spend_error S user k h token e) w"
  using inv
  by (auto simp: on_spend_error_def handler_ok_def wp_simps split: exn.splits
      intro!: wp_quiet[OF st_quiet(9)[OF E]] dest: quiet_stable)

lemma execute_claimed_ok:
  assumes E: "lawful_env (sv_env S)" and inv: "service_inv w" "owned k user kh w"
  shows "handler_ok user kh h (execute_claimed_pull S user k h token x) w"
proof -
  have commit: "wp (generate_and_commit_pull_with_retry S user k h token x)
      (\<lambda>y. wp (case y of (resp, ev) \<Rightarrow> publish_and_complete_claimed_pull S k h resp ev)
         (\<lambda>resp w'. service_inv w' \<and> stored user kh h resp w') (\<lambda>e. service_inv))
      (\<lambda>e. wp (on_commit_error S user k h x e)
         (\<lambda>resp w'. service_inv w' \<and> stored user kh h resp w') (\<lambda>e. service_inv)) v"
    if "service_inv v" "owned k user kh v" for v
    unfolding generate_and_commit_pull_with_retry_def
    by (rule wp_mono[OF commit_attempts_ok[OF E that]])
       (use publish_and_complete_ok[OF E] on_commit_error_ok[OF E] in \<open>auto simp: handler_ok_def\<close>)
  show ?thesis
    unfolding handler_ok_def execute_claimed_pull_def wp_simps asset_spend_def
    by (rule wp_mono[OF post_entry_inv[OF E inv]])
       (use commit on_spend_error_ok[OF E] in \<open>auto simp: handler_ok_def\<close>)
qed

lemma claim_or_resume_ok:
  assumes E: "lawful_env (sv_env S)" and inv: "service_inv w"
  shows "handler_ok user (idempotency_key_hash (sv_lib S) key) h
    (claim_or_resume_pull S user key h x rid) w"
  unfolding handler_ok_def claim_or_resume_pull_def wp_simps
proof (rule wp_begin[OF E])
  fix cl w' r
  assume q: "quiet w w'" and r: "row_of (cl_operation_key cl) r w'" "op_user_id r = user"
    "op_key_hash r = idempotency_key_hash (sv_lib S) key" "cl_operation cl = operation_from_row r"
  have inv': "service_inv w'" using quiet_stable(4)[OF q inv] .
  have own: "owned (cl_operation_key cl) user (idempotency_key_hash (sv_lib S) key) w'"
    using r by (auto simp: owned_def)
  show "wp (let y = case po_recovery_context (cl_operation cl) of None \<Rightarrow> x | Some c \<Rightarrow> c in
        case cl_processing_token cl of
          None \<Rightarrow> handle_existing_pull_operation S (cl_operation cl) user key h
            (uuid_str (rc_event_id y)) (rc_amount_minor y) rid (context_metadata y)
        | Some token \<Rightarrow> execute_claimed_pull S user (cl_operation_key cl) h token y)
      (\<lambda>resp w'. service_inv w' \<and> stored user (idempotency_key_hash (sv_lib S) key) h resp w')
      (\<lambda>e. service_inv) w'"
    using execute_claimed_ok[OF E inv' own] handle_existing_operation_ok[OF E inv' _ r(2,3)] r(1,4)
    by (auto simp: handler_ok_def Let_def row_of_def split: option.splits)
next
  fix e w'
  assume "quiet w w'"
  then show "wp (on_store_error (state_store_http_exception ''pull idempotency is unavailable'') e)
      (\<lambda>y. wp (let z = case po_recovery_context (cl_operation y) of None \<Rightarrow> x | Some c \<Rightarrow> c in
          case cl_processing_token y of
            None \<Rightarrow> handle_existing_pull_operation S (cl_operation y) user key h
              (uuid_str (rc_event_id z)) (rc_amount_minor z) rid (context_metadata z)
          | Some token \<Rightarrow> execute_claimed_pull S user (cl_operation_key y) h token z)
        (\<lambda>resp w'. service_inv w' \<and> stored user (idempotency_key_hash (sv_lib S) key) h resp w')
        (\<lambda>e. service_inv)) (\<lambda>e. service_inv) w'"
    using quiet_stable(4)[OF _ inv] by (auto simp: on_store_error_def wp_simps split: exn.splits)
qed

lemma create_pull_ok:
  assumes E: "lawful_env (sv_env S)" and inv: "service_inv w"
  shows "handler_ok user (idempotency_key_hash (sv_lib S) key)
    (pull_request_hash (sv_lib S) (pq_banner_id rq) (pq_count rq) (pull_seed S user key rq))
    (create_pull S current rq user key accepted rid) w"
proof -
  let ?h = "pull_request_hash (sv_lib S) (pq_banner_id rq) (pq_count rq) (pull_seed S user key rq)"
  let ?kh = "idempotency_key_hash (sv_lib S) key"
  have resume: "handler_ok user ?kh ?h (resume_without_banner S user key ?h rq rid) w"
    unfolding handler_ok_def resume_without_banner_def wp_simps
  proof (rule wp_get_operation[OF E])
    fix r w'
    assume q: "quiet w w'" and r: "r \<in> set (db_ops (w_db w'))" "op_user_id r = user" "op_key_hash r = ?kh"
    from quiet_stable(4)[OF q inv] claim_or_resume_ok[OF E] handle_existing_operation_ok[OF E _ r]
    show "wp (case Some (operation_from_row r) of
          None \<Rightarrow> eff_raise (HTTPException 404 ''banner_not_found'' ''banner was not found'')
        | Some po \<Rightarrow> (case po_recovery_context po of
            None \<Rightarrow> handle_existing_pull_request S po user key ?h rq rid
          | Some x \<Rightarrow> claim_or_resume_pull S user key ?h x rid))
        (\<lambda>resp w'. service_inv w' \<and> stored user ?kh ?h resp w') (\<lambda>e. service_inv) w'"
      by (auto simp: handler_ok_def handle_existing_pull_request_def Let_def split: option.splits)
  qed (use quiet_stable(4) inv in \<open>auto simp: wp_simps on_store_error_def split: exn.splits\<close>)
  have config: "handler_ok user ?kh ?h (pull_on_config S snapshot c user key ?h rq accepted rid) w"
    for snapshot c
    using claim_or_resume_ok[OF E inv] inv
    by (auto simp: pull_on_config_def handler_ok_def wp_simps split: sum.splits exn.splits)
  show ?thesis
    using resume config inv
    by (auto simp: create_pull_def Let_def handler_ok_def wp_simps split: sum.splits exn.splits option.splits)
qed

end
