(* ===== verification/Service_Costs.thy ===== *)
theory Service_Costs
  imports Pull_Service
begin

text \<open>
  How much of a resource a request can use. \<open>uses f k m\<close> bounds the growth of the measure \<open>f\<close> over
  a run of \<open>m\<close>. The locale \<open>service_cost\<close> takes the price of each primitive call and gives the
  price of each handler; its interpretations are the awaits, the spend and credit requests, and the
  messages on the topic. No assumption on the environment is needed.
\<close>

section \<open>Budgets\<close>

definition uses :: "('s \<Rightarrow> nat) \<Rightarrow> nat \<Rightarrow> ('s, 'a) eff \<Rightarrow> bool" where
  "uses f k m \<longleftrightarrow> (\<forall>s. f (snd (m s)) \<le> f s + k)"

lemma usesI: "(\<And>s r s'. m s = (r, s') \<Longrightarrow> f s' \<le> f s + k) \<Longrightarrow> uses f k m"
  unfolding uses_def by (metis prod.collapse)

lemma usesD: "uses f k m \<Longrightarrow> m s = (r, s') \<Longrightarrow> f s' \<le> f s + k"
  unfolding uses_def by (metis snd_conv)

lemma uses_le: "uses f j m \<Longrightarrow> j \<le> k \<Longrightarrow> uses f k m"
  unfolding uses_def by (meson add_left_mono le_trans)

lemma uses_pure [simp]:
  "uses f k (eff_return x)" "uses f k (eff_raise e)" "uses f k (eff_lift r)"
  by (simp_all add: uses_def eff_defs)

lemma uses_bind: "uses f a m \<Longrightarrow> (\<And>x. uses f b (g x)) \<Longrightarrow> uses f (a + b) (eff_bind m g)"
  by (rule usesI)
     (fastforce simp: eff_bind_def dest: usesD split: prod.splits sum.splits)

lemma uses_then: "uses f a m \<Longrightarrow> uses f b n \<Longrightarrow> uses f (a + b) (eff_then m n)"
  unfolding eff_then_def by (rule uses_bind)

lemma uses_catch: "uses f a m \<Longrightarrow> (\<And>e. uses f b (h e)) \<Longrightarrow> uses f (a + b) (eff_catch m h)"
  by (rule usesI)
     (fastforce simp: eff_catch_def dest: usesD split: prod.splits sum.splits)

lemma uses_try:
  "uses f a m \<Longrightarrow> (\<And>e. uses f b (h e)) \<Longrightarrow> (\<And>x. uses f b (k x)) \<Longrightarrow> uses f (a + b) (eff_try m h k)"
  by (rule usesI)
     (fastforce simp: eff_try_def dest: usesD split: prod.splits sum.splits)

lemma uses_lift_bind: "(\<And>x. uses f b (g x)) \<Longrightarrow> uses f b (eff_bind (eff_lift r) g)"
  using uses_bind[of f 0 "eff_lift r" b g] by simp

section \<open>The price of a request\<close>

locale service_cost =
  fixes S :: "'g services" and f :: "world \<Rightarrow> nat"
    and db begin_op sleep send spend credit :: nat
  assumes get_snapshot: "uses f db (st_get_snapshot (sv_env S) user grp)"
    and begin_operation: "uses f begin_op (st_begin_pull_operation (sv_env S) (sv_lib S) user key h lease ctx)"
    and get_operation: "uses f db (st_get_pull_operation (sv_env S) (sv_lib S) user key)"
    and get_by_key: "uses f db (st_get_pull_operation_by_key (sv_env S) k)"
    and commit: "uses f db (st_commit (sv_env S) k user grp h v p po token)"
    and transition: "uses f db (st_transition (sv_env S) k user h token po)"
    and save: "uses f db (st_save (sv_env S) (sv_lib S) user key po)"
    and save_by_key: "uses f db (st_save_by_key (sv_env S) k po)"
    and pause: "uses f sleep (svc_sleep (sv_env S))"
    and publish: "uses f send (publish_pull_completed (sv_env S) topic ev)"
    and spend_call: "uses f spend (asset_spend (sv_env S) (sv_lib S) (sv_asset_client S) user amount key reason md rid)"
    and credit_call: "uses f credit (asset_credit (sv_env S) (sv_lib S) (sv_asset_client S) user amount key reason md rid)"
begin

abbreviation deliver :: nat where
  "deliver \<equiv> 3 * send + 2 * sleep"

abbreviation settle :: nat where
  "settle \<equiv> max deliver credit + db"

abbreviation commit_loop :: nat where
  "commit_loop \<equiv> 5 * (2 * db) + 4 * sleep"

abbreviation execute :: nat where
  "execute \<equiv> spend + (commit_loop + (db + settle))"

lemma attempts_uses: "uses f (n * send + (n - 1) * sleep)
    (publish_attempts (publish_pull_completed (sv_env S) topic ev) (svc_sleep (sv_env S)) n)"
proof (induction n)
  case (Suc n)
  let ?p = "publish_attempts (publish_pull_completed (sv_env S) topic ev) (svc_sleep (sv_env S))"
  let ?rest = "n * (send + sleep)"
  have "uses f ?rest (case e of
      EventPublishError _ \<Rightarrow> (if n = 0 then eff_raise e else eff_then (svc_sleep (sv_env S)) (?p n))
    | _ \<Rightarrow> eff_raise e)" for e
    using uses_le[OF uses_then[OF pause Suc.IH], of ?rest]
    by (cases n) (auto simp: algebra_simps split: exn.splits)
  from uses_le[OF uses_catch[OF publish this]] show ?case
    by (simp add: algebra_simps)
qed simp

lemma publish_uses: "uses f deliver (publish_pull_completed_with_retry S ev)"
  using attempts_uses[of 3] by (simp add: publish_pull_completed_with_retry_def)

lemma on_publish_uses: "uses f deliver (eff_catch (publish_pull_completed_with_retry S ev) on_publish_error)"
  using uses_catch[OF publish_uses, of 0 on_publish_error]
  by (auto simp: on_publish_error_def split: exn.splits)

lemma ignore_uses: "uses f k m \<Longrightarrow> uses f k (ignore_store_error m)"
  unfolding ignore_store_error_def
  using uses_catch[of f k m 0] by (auto split: exn.splits)

lemma publish_and_complete_uses: "uses f settle (publish_and_complete_claimed_pull S k h resp ev)"
  unfolding publish_and_complete_claimed_pull_def
  by (rule uses_le[OF uses_then[OF on_publish_uses uses_then[OF ignore_uses[OF save_by_key] uses_pure(1)], of 0]])
     simp

lemma on_refund_uses:
  "uses f credit (eff_catch (asset_credit (sv_env S) (sv_lib S) (sv_asset_client S) user amount key reason md rid) on_refund_error)"
  using uses_catch[OF credit_call, of 0 on_refund_error]
  by (auto simp: on_refund_error_def split: exn.splits)

lemma refund_claimed_uses: "uses f settle (refund_claimed_spend S user k h x md c m)"
  unfolding refund_claimed_spend_def
  by (rule uses_le[OF uses_then[OF on_refund_uses save_by_key]]) simp

lemma refund_spend_uses: "uses f settle (refund_spend S user key h ev a md rid c m)"
  unfolding refund_spend_def mark_pull_operation_failed_def save_pull_operation_best_effort_def
  by (rule uses_le[OF uses_then[OF on_refund_uses ignore_uses[OF save]]]) simp

lemma handle_claimed_uses: "uses f settle (handle_claimed_pull_operation S po user k h x md)"
  using publish_and_complete_uses uses_then[OF refund_claimed_uses uses_pure(2), of 0]
  by (auto simp: handle_claimed_pull_operation_def split: option.splits pull_operation_status.splits)

lemma handle_existing_uses: "uses f settle (handle_existing_pull_operation S po user key h ev a rid md)"
proof -
  have "uses f settle (eff_then (eff_catch (publish_pull_completed_with_retry S e) on_publish_error)
      (eff_then (save_pull_operation_best_effort S user key po') (eff_return resp)))" for e po' resp
    unfolding save_pull_operation_best_effort_def
    by (rule uses_le[OF uses_then[OF on_publish_uses uses_then[OF ignore_uses[OF save] uses_pure(1)], of 0]])
       simp
  then show ?thesis
    using uses_then[OF refund_spend_uses uses_pure(2), of 0]
    by (auto simp: handle_existing_pull_operation_def split: option.splits pull_operation_status.splits)
qed

lemma commit_attempts_uses: "uses f (n * (2 * db) + (n - 1) * sleep) (commit_attempts S user k h token x n)"
proof (induction n)
  case (Suc n)
  let ?rest = "n * (2 * db + sleep)"
  have again: "uses f ?rest (case e of
      PityVersionConflict _ \<Rightarrow>
        (if n = 0
         then eff_raise (HTTPException 503 ''pull_recovery_pending''
                ''pull is queued behind another pull and will continue automatically'')
         else eff_then (svc_sleep (sv_env S)) (commit_attempts S user k h token x n))
    | _ \<Rightarrow> eff_raise e)" for e
    using uses_le[OF uses_then[OF pause Suc.IH], of ?rest]
    by (cases n) (auto simp: algebra_simps split: exn.splits)
  show ?case
    unfolding commit_attempts.simps case_prod_beta
    by (rule uses_le[OF uses_bind[OF get_snapshot uses_lift_bind[OF uses_try[OF commit again uses_pure(1)]]]])
       (simp add: algebra_simps)
qed simp

lemma on_commit_error_uses: "uses f (db + settle) (on_commit_error S user k h x e)"
proof -
  have read: "uses f db (eff_catch (st_get_pull_operation_by_key (sv_env S) k)
      (\<lambda>e'. case e' of GachaStateStoreError _ \<Rightarrow> eff_return None | _ \<Rightarrow> eff_raise e'))"
    using uses_catch[OF get_by_key, of 0] by (auto split: exn.splits)
  show ?thesis
    unfolding on_commit_error_def
    using handle_claimed_uses by (auto intro!: uses_bind[OF read] split: exn.splits option.splits)
qed

lemma on_spend_error_uses: "uses f db (on_spend_error S user k h token e)"
proof -
  have "uses f db (eff_try (st_transition (sv_env S) k user h token po)
      (\<lambda>se. case se of
         PullOperationOwnershipLost \<Rightarrow> eff_raise pull_in_progress_http_exception
       | GachaStateStoreError _ \<Rightarrow>
           eff_raise (state_store_http_exception ''pull failure could not be persisted'')
       | _ \<Rightarrow> eff_raise se)
      (\<lambda>_. eff_raise e'))" for po e'
    by (rule uses_le[OF uses_try[OF transition, of 0]]) (auto split: exn.splits)
  then show ?thesis by (auto simp: on_spend_error_def split: exn.splits)
qed

lemma execute_uses: "uses f execute (execute_claimed_pull S user k h token x)"
proof -
  have work: "uses f (commit_loop + (db + settle))
      (eff_try (generate_and_commit_pull_with_retry S user k h token x) (on_commit_error S user k h x)
         (\<lambda>(resp, ev). publish_and_complete_claimed_pull S k h resp ev))"
    unfolding generate_and_commit_pull_with_retry_def pity_commit_max_attempts_def case_prod_beta
    using uses_try[OF commit_attempts_uses[of 5] on_commit_error_uses uses_le[OF publish_and_complete_uses]]
    by simp
  have fail: "uses f (commit_loop + (db + settle)) (on_spend_error S user k h token e)" for e
    by (rule uses_le[OF on_spend_error_uses]) simp
  show ?thesis
    unfolding execute_claimed_pull_def by (rule uses_try[OF spend_call fail work])
qed

lemma on_store_uses: "uses f k m \<Longrightarrow> uses f k (eff_catch m (on_store_error e))"
  using uses_catch[of f k m 0 "on_store_error e"] by (auto simp: on_store_error_def split: exn.splits)

lemma claim_or_resume_uses: "uses f (begin_op + execute) (claim_or_resume_pull S user key h x rid)"
  unfolding claim_or_resume_pull_def Let_def
proof (rule uses_bind[OF on_store_uses[OF begin_operation]])
  fix cl
  show "uses f execute (case cl_processing_token cl of
      None \<Rightarrow> handle_existing_pull_operation S (cl_operation cl) user key h
        (uuid_str (rc_event_id (case po_recovery_context (cl_operation cl) of None \<Rightarrow> x | Some c \<Rightarrow> c)))
        (rc_amount_minor (case po_recovery_context (cl_operation cl) of None \<Rightarrow> x | Some c \<Rightarrow> c)) rid
        (context_metadata (case po_recovery_context (cl_operation cl) of None \<Rightarrow> x | Some c \<Rightarrow> c))
    | Some token \<Rightarrow> execute_claimed_pull S user (cl_operation_key cl) h token
        (case po_recovery_context (cl_operation cl) of None \<Rightarrow> x | Some c \<Rightarrow> c))"
    using execute_uses by (cases "cl_processing_token cl") (auto intro: uses_le[OF handle_existing_uses])
qed

lemma create_pull_uses: "uses f (db + (begin_op + execute)) (create_pull S current rq user key accepted rid)"
proof -
  let ?all = "db + (begin_op + execute)"
  have resume: "uses f ?all (resume_without_banner S user key h rq rid)" for h
    unfolding resume_without_banner_def
  proof (rule uses_bind[OF on_store_uses[OF get_operation]])
    fix existing
    show "uses f (begin_op + execute) (case existing of
        None \<Rightarrow> eff_raise (HTTPException 404 ''banner_not_found'' ''banner was not found'')
      | Some po \<Rightarrow> (case po_recovery_context po of
          None \<Rightarrow> handle_existing_pull_request S po user key h rq rid
        | Some x \<Rightarrow> claim_or_resume_pull S user key h x rid))"
      using claim_or_resume_uses uses_le[OF handle_existing_uses, of "begin_op + execute"]
      by (auto simp: handle_existing_pull_request_def Let_def split: option.splits)
  qed
  have claim: "uses f ?all (claim_or_resume_pull S user key h x rid)" for h x
    by (rule uses_le[OF claim_or_resume_uses]) simp
  have config: "uses f ?all (pull_on_config S snapshot c user key h rq accepted rid)" for snapshot c h
    unfolding pull_on_config_def
    by (simp only: split: sum.split exn.split) (intro conjI allI impI uses_lift_bind claim uses_pure)
  show ?thesis
    unfolding create_pull_def Let_def
    by (simp only: split: sum.split exn.split option.split)
       (intro conjI allI impI uses_lift_bind uses_pure; simp only: resume config split: option.split; simp)
qed

end

section \<open>Prices\<close>

lemma uses_db_call:
  assumes "\<And>w w'. w_topic w' = w_topic w \<Longrightarrow> w_http w' = w_http w \<Longrightarrow> w_clock w' = w_clock w + 1 \<Longrightarrow>
    f w' \<le> f w + k"
  shows "uses f k (db_call E msg m)"
  by (rule usesI)
     (auto simp: db_call_def Let_def tick_def intro!: assms split: db_outcome.splits prod.splits)

lemma uses_pass:
  "uses w_clock k m \<Longrightarrow> uses w_clock (k + j) (pass j m)"
  "(\<And>w c. f (w\<lparr>w_clock := c\<rparr>) = f w) \<Longrightarrow> uses f k m \<Longrightarrow> uses f k (pass j m)"
  by (rule usesI; fastforce simp: pass_def dest: usesD split: prod.splits)+


text \<open>The measures: awaits, requests to spend, requests to credit, messages on the topic.\<close>

definition posts :: "'g services \<Rightarrow> string \<Rightarrow> world \<Rightarrow> nat" where
  "posts S path w = length (filter (\<lambda>q. hq_url q = sc_base_url (sv_asset_client S) @ path) (w_http w))"

abbreviation spend_posts :: "'g services \<Rightarrow> world \<Rightarrow> nat" where
  "spend_posts S \<equiv> posts S ''/v1/me/spends''"

abbreviation credit_posts :: "'g services \<Rightarrow> world \<Rightarrow> nat" where
  "credit_posts S \<equiv> posts S ''/v1/me/credits''"

definition messages :: "world \<Rightarrow> nat" where
  "messages w = length (w_topic w)"

lemma measures_db [simp]:
  "uses w_clock (Suc 0) (db_call E msg m)" "uses (posts S path) 0 (db_call E msg m)"
  "uses messages 0 (db_call E msg m)"
  by (rule uses_db_call, simp add: posts_def messages_def)+

lemma measures_begin:
  "uses w_clock 3 (st_begin_pull_operation E L user key h lease ctx)"
  "uses (posts S path) 0 (st_begin_pull_operation E L user key h lease ctx)"
  "uses messages 0 (st_begin_pull_operation E L user key h lease ctx)"
  unfolding st_begin_pull_operation_def
  using uses_pass(1)[OF measures_db(1), of 2]
  by (auto simp: posts_def messages_def numeral_3_eq_3 intro: uses_pass(2))

lemma measures_sleep:
  "uses w_clock (Suc 0) (svc_sleep E)" "uses (posts S path) 0 (svc_sleep E)" "uses messages 0 (svc_sleep E)"
  by (simp_all add: uses_def svc_sleep_def tick_def posts_def messages_def)

lemma measures_publish:
  "uses w_clock 2 (publish_pull_completed E topic ev)"
  "uses (posts S path) 0 (publish_pull_completed E topic ev)"
  "uses messages (Suc 0) (publish_pull_completed E topic ev)"
  by (auto simp: uses_def publish_pull_completed_def eff_then_def eff_bind_def ensure_started_def
      send_and_wait_def Let_def tick_def posts_def messages_def
      split: prod.splits sum.splits send_outcome.splits)

lemma post_entry_world:
  "snd (post_entry E L c path user a key reason md rid w) =
     (tick E w)\<lparr>w_http := w_http w @ [asset_request c path user a key reason md rid]\<rparr>"
  by (simp add: post_entry_def http_call_def eff_defs Let_def split: http_outcome.splits prod.splits)

lemma measures_post:
  "uses w_clock (Suc 0) (post_entry E L c path user a key reason md rid)"
  "uses (posts S path) (Suc 0) (post_entry E L (sv_asset_client S) path user a key reason md rid)"
  "path \<noteq> path' \<Longrightarrow>
     uses (posts S path') 0 (post_entry E L (sv_asset_client S) path user a key reason md rid)"
  "uses messages 0 (post_entry E L c path user a key reason md rid)"
  by (simp_all add: uses_def post_entry_world tick_def posts_def messages_def asset_request_def)

lemmas measures = measures_begin measures_sleep measures_publish measures_post


interpretation awaits: service_cost S w_clock 1 3 1 2 1 1 for S
  by unfold_locales (simp_all add: st_defs(1,3-17) measures asset_spend_def asset_credit_def)

interpretation spends: service_cost S "spend_posts S" 0 0 0 0 1 0 for S
  by unfold_locales (simp_all add: st_defs(1,3-17) measures asset_spend_def asset_credit_def)

interpretation credits: service_cost S "credit_posts S" 0 0 0 0 0 1 for S
  by unfold_locales (simp_all add: st_defs(1,3-17) measures asset_spend_def asset_credit_def)

interpretation topic: service_cost S messages 0 0 0 1 0 0 for S
  by unfold_locales (simp_all add: st_defs(1,3-17) measures asset_spend_def asset_credit_def)

end
