(* ===== verification/Service_Errors.thy ===== *)
theory Service_Errors
  imports Pull_Service
begin

text \<open>
  Which exceptions a call can raise. \<open>raises P m\<close> says that every exception of \<open>m\<close> satisfies \<open>P\<close>;
  its rules follow the combinators, a handler being examined only for the exceptions that reach it.
  The chain ends with the error contract of the pull endpoint: what leaves it is an
  \<open>HTTPException\<close> or an exception of the pull computation itself.
\<close>

named_theorems raises_intros

section \<open>Rules\<close>

definition raises :: "(exn \<Rightarrow> bool) \<Rightarrow> ('s, 'a) eff \<Rightarrow> bool" where
  "raises P m \<longleftrightarrow> (\<forall>s e s'. m s = (Inl e, s') \<longrightarrow> P e)"

lemma raisesI: "(\<And>s e s'. m s = (Inl e, s') \<Longrightarrow> P e) \<Longrightarrow> raises P m"
  by (auto simp: raises_def)

lemma raisesD: "raises P m \<Longrightarrow> m s = (Inl e, s') \<Longrightarrow> P e"
  by (auto simp: raises_def)

lemma raises_mono: "raises P m \<Longrightarrow> (\<And>e. P e \<Longrightarrow> Q e) \<Longrightarrow> raises Q m"
  by (auto simp: raises_def)

lemma raises_pure [raises_intros]:
  "raises P (eff_return x)" "P e \<Longrightarrow> raises P (eff_raise e)"
  "(\<And>e. r = Inl e \<Longrightarrow> P e) \<Longrightarrow> raises P (eff_lift r)"
  by (auto simp: raises_def eff_defs)

lemma raises_bind [raises_intros]: "raises P m \<Longrightarrow> (\<And>x. raises P (g x)) \<Longrightarrow> raises P (eff_bind m g)"
  by (rule raisesI) (auto simp: eff_bind_def dest: raisesD split: prod.splits sum.splits)

lemma raises_then [raises_intros]: "raises P m \<Longrightarrow> raises P n \<Longrightarrow> raises P (eff_then m n)"
  unfolding eff_then_def by (rule raises_bind)

lemma raises_catch: "raises P m \<Longrightarrow> (\<And>e. P e \<Longrightarrow> raises Q (h e)) \<Longrightarrow> raises Q (eff_catch m h)"
  by (rule raisesI) (auto simp: eff_catch_def dest: raisesD split: prod.splits sum.splits)

lemma raises_try:
  "raises P m \<Longrightarrow> (\<And>e. P e \<Longrightarrow> raises Q (h e)) \<Longrightarrow> (\<And>x. raises Q (k x)) \<Longrightarrow> raises Q (eff_try m h k)"
  by (rule raisesI) (force simp: eff_try_def dest: raisesD split: prod.splits sum.splits)

lemma raises_transaction: "raises P m \<Longrightarrow> raises P (transaction m)"
  by (rule raisesI) (auto simp: transaction_def dest: raisesD split: prod.splits sum.splits)

lemma raises_map_error: "raises P m \<Longrightarrow> (\<And>e. P e \<Longrightarrow> Q (f e)) \<Longrightarrow> raises Q (eff_map_error f m)"
  by (rule raisesI) (auto simp: eff_map_error_def dest: raisesD split: prod.splits sum.splits)

lemma raises_query [raises_intros]: "raises P (db_query q)" "raises P (db_other_sessions f)"
  by (auto simp: raises_def db_query_def db_other_sessions_def)

section \<open>The store\<close>

definition state_error :: "exn \<Rightarrow> bool" where
  "state_error e = (case e of GachaStateStoreError _ \<Rightarrow> True | _ \<Rightarrow> False)"

definition store_exn :: "exn \<Rightarrow> bool" where
  "store_exn e = (case e of
     GachaStateStoreError _ \<Rightarrow> True | PityVersionConflict _ \<Rightarrow> True | PullOperationOwnershipLost \<Rightarrow> True
   | _ \<Rightarrow> False)"

definition plain_exn :: "exn \<Rightarrow> bool" where
  "plain_exn e = (case e of GachaStateStoreError _ \<Rightarrow> True | OtherException _ \<Rightarrow> True | _ \<Rightarrow> False)"

lemma raises_map_plain:
  "raises plain_exn m \<Longrightarrow> raises state_error (eff_map_error (store_error msg) m)"
  by (erule raises_map_error) (auto simp: store_error_def plain_exn_def state_error_def split: exn.splits)

lemma state_error_simp [simp]: "state_error (GachaStateStoreError s)"
  by (simp add: state_error_def)

lemma state_errorE: "state_error e \<Longrightarrow> \<exists>s. e = GachaStateStoreError s"
  by (cases e) (simp_all add: state_error_def)

lemma store_exnE:
  "store_exn e \<Longrightarrow> (\<exists>s. e = GachaStateStoreError s) \<or> (\<exists>v. e = PityVersionConflict v) \<or>
     e = PullOperationOwnershipLost"
  by (cases e) (simp_all add: store_exn_def)

lemma store_error_exn: "store_exn (store_error msg e)"
  by (cases e) (simp_all add: store_error_def store_exn_def)

lemma raises_operation_id: "raises state_error (eff_lift (operation_id_of key))"
  by (auto simp: raises_def eff_lift_def operation_id_of_def split: option.splits)

lemma raises_update: "raises plain_exn (update_ops sel upd)"
  by (auto simp: raises_def update_ops_def Let_def plain_exn_def immutable_evidence_error_def
      constraint_violation_def split: if_splits)

lemma raises_insert: "raises plain_exn (insert_pull_operation_sql r)"
  by (auto simp: raises_def insert_pull_operation_sql_def plain_exn_def constraint_violation_def
      split: if_splits)

lemma raises_request_id: "raises plain_exn (eff_lift (request_id_column s))"
  by (auto simp: raises_def eff_lift_def request_id_column_def plain_exn_def split: option.splits if_splits)

lemma raises_begin:
  "raises state_error (begin_pull_operation L nows others fresh user key h lease ctx)"
  unfolding begin_pull_operation_def Let_def case_prod_beta claim_processing_operation_sql_def
  by (rule raises_map_plain)
     (auto intro!: raises_intros raises_update raises_insert raises_request_id
       simp: plain_exn_def split: option.splits list.splits)

lemma raises_save: "raises state_error (save_pull_operation L now user key po)"
  unfolding save_pull_operation_def save_pull_operation_sql_def
  by (rule raises_map_plain)
     (auto intro!: raises_intros raises_update simp: plain_exn_def split: if_splits)

lemma raises_save_by_key: "raises state_error (save_pull_operation_by_key now k po)"
  unfolding save_pull_operation_by_key_def update_pull_operation_sql_def
  by (rule raises_bind[OF raises_operation_id], rule raises_map_plain)
     (auto intro!: raises_intros raises_update simp: plain_exn_def split: if_splits)

definition claim_exn :: "exn \<Rightarrow> bool" where
  "claim_exn e \<longleftrightarrow> state_error e \<or> e = PullOperationOwnershipLost"

lemma raises_commit: "raises store_exn (compare_and_set_with_pull_operation now k user grp h v p po token)"
  unfolding compare_and_set_with_pull_operation_def
  by (auto intro!: raises_bind raises_mono[OF raises_operation_id]
      raises_map_error[of "\<lambda>_. True"] store_error_exn simp: raises_def[of "\<lambda>_. True"]
      dest: state_errorE simp: store_exn_def)

lemma raises_transition:
  "raises claim_exn (transition_pull_operation_from_processing now k user h token po)"
  unfolding transition_pull_operation_from_processing_def transition_processing_operation_sql_def
proof (intro raises_bind raises_map_error[where P = "\<lambda>e. plain_exn e \<or> e = PullOperationOwnershipLost"])
  show "claim_exn (store_error msg e)" if "plain_exn e \<or> e = PullOperationOwnershipLost" for msg e
    using that by (cases e) (auto simp: claim_exn_def store_error_def plain_exn_def)
qed (auto simp: claim_exn_def intro: raises_mono[OF raises_operation_id] raises_mono[OF raises_update]
    raises_pure)

lemma raises_reads:
  "raises state_error (get_snapshot user grp)" "raises state_error (get_pull_operation L user key)"
  "raises state_error (get_pull_operation_by_key k)"
  unfolding get_snapshot_def get_pull_operation_def get_pull_operation_by_key_def
  by (intro raises_query raises_bind[OF raises_operation_id])+

lemma raises_db_call:
  assumes "\<And>n. raises P (m n)" "\<And>s. P (GachaStateStoreError s)"
  shows "raises P (db_call E msg m)"
  by (rule raisesI)
     (auto simp: db_call_def Let_def assms(2) dest: raisesD[OF assms(1)]
       split: db_outcome.splits prod.splits)

lemma raises_pass: "raises P m \<Longrightarrow> raises P (pass k m)"
  by (rule raisesI) (auto simp: pass_def dest: raisesD split: prod.splits)

lemma raises_st [raises_intros]:
  "raises state_error (st_get_snapshot E user grp)"
  "raises state_error (st_begin_pull_operation E L user key h lease ctx)"
  "raises state_error (st_get_pull_operation E L user key)"
  "raises state_error (st_get_pull_operation_by_key E k)"
  "raises state_error (st_save E L user key po)"
  "raises state_error (st_save_by_key E k po)"
  "raises store_exn (st_commit E k user grp h v p po token)"
  "raises claim_exn (st_transition E k user h token po)"
  unfolding st_defs
  by (auto intro!: raises_pass raises_db_call raises_reads raises_begin raises_save raises_save_by_key
      raises_commit raises_transition simp: store_exn_def claim_exn_def)

section \<open>The other services\<close>

definition asset_exn :: "exn \<Rightarrow> bool" where
  "asset_exn e = (case e of AssetServiceError _ _ _ \<Rightarrow> True | _ \<Rightarrow> False)"

definition publish_exn :: "exn \<Rightarrow> bool" where
  "publish_exn e = (case e of EventPublishError _ \<Rightarrow> True | _ \<Rightarrow> False)"

definition http_exn :: "exn \<Rightarrow> bool" where
  "http_exn e = (case e of HTTPException _ _ _ \<Rightarrow> True | _ \<Rightarrow> False)"

lemma http_exn_simp [simp]: "http_exn (HTTPException st c m)"
  by (simp add: http_exn_def)

lemma raises_sleep [raises_intros]: "raises P (svc_sleep E)"
  by (simp add: raises_def svc_sleep_def)

lemma raises_post: "raises asset_exn (post_entry E L c path user a key reason md rid)"
  by (rule raisesI)
     (auto simp: post_entry_def http_call_def eff_defs Let_def asset_exn_def asset_service_unavailable_def
       split: http_outcome.splits prod.splits if_splits)

lemma raises_send: "raises publish_exn (publish_pull_completed E topic ev)"
  by (rule raisesI)
     (auto simp: publish_pull_completed_def eff_then_def eff_bind_def ensure_started_def send_and_wait_def
       Let_def publish_exn_def split: prod.splits sum.splits send_outcome.splits if_splits)

lemma raises_publish_attempts:
  "raises publish_exn send \<Longrightarrow> (\<And>P. raises P sleep) \<Longrightarrow> raises publish_exn (publish_attempts send sleep n)"
  by (induction n)
     (auto intro!: raises_intros raises_catch[of publish_exn] split: exn.splits simp: publish_exn_def)

lemma raises_publish: "raises http_exn (eff_catch (publish_pull_completed_with_retry S ev) on_publish_error)"
  unfolding publish_pull_completed_with_retry_def
  by (rule raises_catch[OF raises_publish_attempts[OF raises_send raises_sleep]])
     (auto simp: on_publish_error_def publish_exn_def intro!: raises_intros split: exn.splits)

lemma raises_ignore: "raises state_error m \<Longrightarrow> raises P (ignore_store_error m)"
  unfolding ignore_store_error_def
  by (erule raises_catch) (auto dest!: state_errorE intro!: raises_intros)

lemma raises_on_refund:
  "raises http_exn (eff_catch (asset_credit E L c user a key reason md rid) on_refund_error)"
  unfolding asset_credit_def
  by (rule raises_catch[OF raises_post])
     (auto simp: on_refund_error_def asset_exn_def intro!: raises_intros split: exn.splits)


section \<open>The handlers\<close>

lemma raises_publish_and_complete: "raises http_exn (publish_and_complete_claimed_pull S k h resp ev)"
  unfolding publish_and_complete_claimed_pull_def
  by (auto intro!: raises_intros raises_publish raises_ignore)

lemma raises_refund_claimed:
  "raises (\<lambda>e. http_exn e \<or> state_error e) (refund_claimed_spend S user k h x md c m)"
  unfolding refund_claimed_spend_def
  by (intro raises_then raises_mono[OF raises_on_refund] raises_mono[OF raises_st(6)]) auto

lemma raises_handle_claimed:
  "raises (\<lambda>e. http_exn e \<or> state_error e) (handle_claimed_pull_operation S po user k h x md)"
  unfolding handle_claimed_pull_operation_def state_store_http_exception_def
  by (auto intro!: raises_intros raises_mono[OF raises_publish_and_complete] raises_refund_claimed
      split: option.splits pull_operation_status.splits)

lemma raises_handle_existing:
  "raises http_exn (handle_existing_pull_operation S po user key h ev a rid md)"
  unfolding handle_existing_pull_operation_def refund_spend_def mark_pull_operation_failed_def
    save_pull_operation_best_effort_def
  by (auto intro!: raises_intros raises_publish raises_on_refund raises_ignore
      split: option.splits pull_operation_status.splits)

definition engine_exn :: "'g services \<Rightarrow> uuid \<Rightarrow> exn \<Rightarrow> bool" where
  "engine_exn S user e \<longleftrightarrow> (\<exists>x previous. generate_pull (sv_lib S) user x previous = Inl e)"

lemma raises_commit_attempts:
  "raises (\<lambda>e. http_exn e \<or> state_error e \<or> e = PullOperationOwnershipLost \<or> engine_exn S user e)
     (commit_attempts S user k h token x (Suc n))"
proof (induction n)
  case 0
  show ?case
    unfolding commit_attempts.simps(2)
    by (auto intro!: raises_bind raises_mono[OF raises_st(1)] raises_try[OF raises_st(7)] raises_pure
        simp: engine_exn_def dest!: store_exnE)
next
  case (Suc n)
  show ?case
    unfolding commit_attempts.simps(2)[of S user k h token x "Suc n"] case_prod_beta
  proof (intro raises_bind raises_try[OF raises_st(7)] raises_pure)
    fix e assume "store_exn e"
    then show "raises (\<lambda>e. http_exn e \<or> state_error e \<or> e = PullOperationOwnershipLost \<or> engine_exn S user e)
      (case e of
         PityVersionConflict _ \<Rightarrow>
           (if Suc n = 0
            then eff_raise (HTTPException 503 ''pull_recovery_pending''
                   ''pull is queued behind another pull and will continue automatically'')
            else eff_then (svc_sleep (sv_env S)) (commit_attempts S user k h token x (Suc n)))
       | _ \<Rightarrow> eff_raise e)"
      using Suc.IH raises_then[OF raises_sleep Suc.IH]
      by (auto dest!: store_exnE simp: raises_pure simp del: commit_attempts.simps)
  qed (auto intro: raises_mono[OF raises_st(1)] simp: engine_exn_def)
qed

lemma raises_on_commit_error:
  assumes "http_exn e \<or> state_error e \<or> e = PullOperationOwnershipLost \<or> engine_exn S user e"
  shows "raises (\<lambda>e. http_exn e \<or> state_error e \<or> engine_exn S user e) (on_commit_error S user k h x e)"
proof -
  let ?P = "\<lambda>e. http_exn e \<or> state_error e \<or> engine_exn S user e"
  have read: "raises ?P (eff_catch (st_get_pull_operation_by_key (sv_env S) k)
      (\<lambda>e'. case e' of GachaStateStoreError _ \<Rightarrow> eff_return None | _ \<Rightarrow> eff_raise e'))"
    by (rule raises_catch[OF raises_st(4)]) (auto dest!: state_errorE intro: raises_pure)
  have "raises ?P (handle_claimed_pull_operation S po user k h x md)" for po md
    by (rule raises_mono[OF raises_handle_claimed]) auto
  then show ?thesis
    using assms unfolding on_commit_error_def state_store_http_exception_def pull_in_progress_http_exception_def
    by (auto intro!: raises_bind[OF read] raises_pure split: exn.splits option.splits)
qed

lemma raises_on_spend_error:
  assumes "asset_exn e"
  shows "raises http_exn (on_spend_error S user k h token e)"
proof -
  obtain st c m where e: "e = AssetServiceError st c m"
    using assms by (cases e) (simp_all add: asset_exn_def)
  have "http_exn (asset_http_exception st c m)" by (simp add: asset_http_exception_def)
  then have "raises http_exn (eff_try (st_transition (sv_env S) k user h token po)
      (\<lambda>se. case se of
         PullOperationOwnershipLost \<Rightarrow> eff_raise pull_in_progress_http_exception
       | GachaStateStoreError _ \<Rightarrow>
           eff_raise (state_store_http_exception ''pull failure could not be persisted'')
       | _ \<Rightarrow> eff_raise se)
      (\<lambda>_. eff_raise (asset_http_exception st c m)))" for po
    by (intro raises_try[OF raises_st(8)])
       (auto intro!: raises_pure dest!: state_errorE
         simp: claim_exn_def state_store_http_exception_def pull_in_progress_http_exception_def)
  then show ?thesis
    by (auto simp: on_spend_error_def e intro: raises_pure)
qed

definition pull_exn :: "'g services \<Rightarrow> uuid \<Rightarrow> exn \<Rightarrow> bool" where
  "pull_exn S user e \<longleftrightarrow> http_exn e \<or> state_error e \<or> engine_exn S user e"

lemma raises_execute: "raises (pull_exn S user) (execute_claimed_pull S user k h token x)"
proof -
  have commit: "raises (\<lambda>e. http_exn e \<or> state_error e \<or> e = PullOperationOwnershipLost \<or> engine_exn S user e)
      (generate_and_commit_pull_with_retry S user k h token x)"
    using raises_commit_attempts[where n = 4]
    by (simp add: generate_and_commit_pull_with_retry_def pity_commit_max_attempts_def eval_nat_numeral
        del: commit_attempts.simps)
  have "raises (pull_exn S user)
      (eff_try (generate_and_commit_pull_with_retry S user k h token x) (on_commit_error S user k h x)
         (\<lambda>(resp, ev). publish_and_complete_claimed_pull S k h resp ev))"
    unfolding pull_exn_def case_prod_beta
    by (intro raises_try[OF commit] raises_on_commit_error raises_mono[OF raises_publish_and_complete]) auto
  moreover have "asset_exn e \<Longrightarrow> raises (pull_exn S user) (on_spend_error S user k h token e)" for e
    by (rule raises_mono[OF raises_on_spend_error]) (auto simp: pull_exn_def)
  ultimately show ?thesis
    unfolding execute_claimed_pull_def asset_spend_def by (intro raises_try[OF raises_post])
qed

lemma raises_on_store:
  "raises state_error m \<Longrightarrow> raises http_exn (eff_catch m (on_store_error (HTTPException st c msg)))"
  by (erule raises_catch) (auto dest!: state_errorE simp: on_store_error_def intro!: raises_pure(2))

lemma raises_claim_or_resume: "raises (pull_exn S user) (claim_or_resume_pull S user key h x rid)"
  unfolding claim_or_resume_pull_def Let_def state_store_http_exception_def
proof (rule raises_bind)
  show "raises (pull_exn S user) (eff_catch (st_begin_pull_operation (sv_env S) (sv_lib S) user key h
      pull_processing_lease_seconds x)
      (on_store_error (HTTPException 503 ''state_store_unavailable'' ''pull idempotency is unavailable'')))"
    by (rule raises_mono[OF raises_on_store[OF raises_st(2)]]) (simp add: pull_exn_def)
qed (auto intro: raises_execute raises_mono[OF raises_handle_existing] simp: pull_exn_def
    split: option.split)

end
