(* ===== verification/Flow_Guarantees.thy ===== *)
theory Flow_Guarantees
  imports Service_Guarantees Service_Costs Service_Errors
begin

text \<open>
  The properties of the pull flow, over every lawful environment: what reaches the topic or the
  caller is committed evidence, a request is bounded in awaits, charges, refunds and messages, a
  failed spend leaves nothing behind, every charge carries the key of its operation, a committed
  pull is never charged or computed again, and only the expected exceptions leave the endpoint.
\<close>

section \<open>A worked run\<close>

text \<open>A published pull, and a request for it after its banner has left the catalog.\<close>

definition sample_services :: "nat services" where
  "sample_services =
     \<lparr>sv_env = calm_env None, sv_lib = sample_lib,
      sv_asset_client = service_client_init ''http://asset/'' ''t'',
      sv_backpack_receipt_client = Some (service_client_init ''http://backpack/'' ''t''),
      sv_kafka_topic = ''gacha.pull.completed'', sv_engine_version = ''1'', sv_engine_build_sha = ''b''\<rparr>"

definition sample_request :: pull_request where
  "sample_request = \<lparr>pq_banner_id = ''b'', pq_count = 1, pq_seed = Some ''s''\<rparr>"

definition sample_event :: pull_completed_event where
  "sample_event = pull_event_of 2 sample_context [] (with_version create_initial_pity 0)
     (with_version create_initial_pity 1)"

definition published_row :: op_row where
  "published_row =
     (new_op_row 1 2 (idempotency_key_hash sample_lib ''k'')
        (pull_request_hash sample_lib ''b'' 1 ''s'') 3 0 30 sample_context None)
     \<lparr>op_status := Event_Published, op_response := Some sample_response, op_event := Some sample_event,
      op_recovery_context := None, op_processing_token := None, op_processing_lease_until := None\<rparr>"

definition published_world :: world where
  "published_world = \<lparr>w_db = \<lparr>db_pity = [sample_pity_row], db_ops = [published_row]\<rparr>,
     w_topic = [kafka_message_of ''gacha.pull.completed'' sample_event], w_http = [],
     w_producer_started = True, w_clock = 0\<rparr>"

definition empty_catalog :: catalog_snapshot where
  "empty_catalog = \<lparr>cs_source = ''static'', cs_loaded_at = 0, cs_items = [], cs_banners = [],
     cs_banner_configs_by_id = [], cs_banner_schedules_by_id = [], cs_release_id = None,
     cs_release_number = None, cs_snapshot_sha256 = None\<rparr>"

lemma published_world_wf: "wf_db (w_db published_world)"
  using sample_sha_lawful
  by (simp add: published_world_def wf_db_def published_row_def new_op_row_def event_ids_def map_filter_def
      op_checks_def sha_lawful_def idempotency_key_hash_def pull_request_hash_def sample_pity_row_def
      pity_checks_def py_len_def pity_key_def)

lemma published_world_inv: "service_inv published_world"
  unfolding service_inv_def using published_world_wf
  by (simp add: topic_ok_def committed_event_def published_world_def kafka_message_of_def
      published_row_def new_op_row_def has_evidence_def)

lemma sample_services_lawful: "lawful_env (sv_env sample_services)"
  by (simp add: sample_services_def calm_env_lawful)

lemma sample_replay:
  "create_pull sample_services (Inr empty_catalog) sample_request 2 ''k'' (Aware 0) [] published_world =
     (Inr sample_response, published_world\<lparr>w_clock := 1\<rparr>)"
  by (simp add: create_pull_def banner_config_at_def empty_catalog_def eff_defs resume_without_banner_def
      st_get_pull_operation_def db_call_def sample_services_def calm_env_def tick_def Let_def
      get_pull_operation_def db_query_def select_pull_operation_sql_def published_world_def
      published_row_def new_op_row_def operation_from_row_def sample_request_def pull_seed_def str_or_def
      handle_existing_pull_request_def handle_existing_pull_operation_def)


section \<open>The transactional outbox\<close>

text \<open>Every message that \<open>create_pull\<close> leaves on the Kafka topic is the event of a pull that is
  committed in the database, whatever the other sessions, the other services and the broker do, and
  whether the request succeeds or fails. The invariant of the database is kept as well.\<close>

theorem published_events_are_committed:
  assumes "lawful_env (sv_env S)" "wf_db (w_db w)"
    and "\<forall>m \<in> set (w_topic w). \<exists>r \<in> set (db_ops (w_db w)). has_evidence r \<and> op_event r = Some (km_event m)"
    and "create_pull S current rq user key accepted request_id w = (res, w')"
  shows "wf_db (w_db w') \<and>
    (\<forall>m \<in> set (w_topic w'). \<exists>r \<in> set (db_ops (w_db w')). has_evidence r \<and> op_event r = Some (km_event m))"
proof -
  have "service_inv w"
    using assms(2,3) by (simp add: service_inv_def topic_ok_def committed_event_def)
  from create_pull_ok[OF assms(1) this, of user key rq current accepted request_id] assms(4)
  have "service_inv w'"
    by (auto simp: handler_ok_def wp_def split: sum.splits)
  then show ?thesis by (simp add: service_inv_def topic_ok_def committed_event_def)
qed

lemma published_events_are_committed_witness:
  "\<exists>r \<in> set (db_ops (w_db (published_world\<lparr>w_clock := 1\<rparr>))). has_evidence r \<and> op_event r = Some sample_event"
  using published_events_are_committed[OF sample_services_lawful _ _ sample_replay] published_world_inv
  by (simp add: service_inv_def topic_ok_def committed_event_def published_world_def kafka_message_of_def)

text \<open>C11: a pull response is durable before it is returned. When \<open>create_pull\<close> answers, the database
  holds an operation of this user and this idempotency key, with the hash of this request, that
  carries exactly the returned response as frozen audit evidence.\<close>

theorem response_is_committed:
  assumes "lawful_env (sv_env S)" "wf_db (w_db w)"
    and "\<forall>m \<in> set (w_topic w). \<exists>r \<in> set (db_ops (w_db w)). has_evidence r \<and> op_event r = Some (km_event m)"
    and "create_pull S current rq user key accepted request_id w = (Inr response, w')"
  shows "\<exists>r \<in> set (db_ops (w_db w')). op_user_id r = user \<and>
    op_key_hash r = idempotency_key_hash (sv_lib S) key \<and>
    op_request_hash r = pull_request_hash (sv_lib S) (pq_banner_id rq) (pq_count rq) (pull_seed S user key rq) \<and>
    op_status r \<in> {Event_Pending, Event_Published, Succeeded} \<and> op_response r = Some response"
proof -
  have "service_inv w"
    using assms(2,3) by (simp add: service_inv_def topic_ok_def committed_event_def)
  from wpD(1)[OF create_pull_ok[OF assms(1) this, unfolded handler_ok_def] assms(4)]
  show ?thesis by (auto simp: stored_def has_evidence_def)
qed

lemma response_is_committed_witness:
  "\<exists>r \<in> set (db_ops (w_db (published_world\<lparr>w_clock := 1\<rparr>))). op_user_id r = 2 \<and>
     op_response r = Some sample_response"
  using response_is_committed[OF sample_services_lawful _ _ sample_replay] published_world_inv
  by (fastforce simp: service_inv_def topic_ok_def committed_event_def)

section \<open>Budgets\<close>

text \<open>C29: the work of one request is bounded in every environment: \<open>create_pull\<close> returns after at most
  29 awaited calls, sends at most one spend and one credit to the asset service and puts at most
  three messages on the topic.\<close>

theorem request_budget:
  "w_clock (snd (create_pull S current rq user key accepted request_id w)) \<le> w_clock w + 29 \<and>
   spend_posts S (snd (create_pull S current rq user key accepted request_id w)) \<le> spend_posts S w + 1 \<and>
   credit_posts S (snd (create_pull S current rq user key accepted request_id w)) \<le> credit_posts S w + 1 \<and>
   length (w_topic (snd (create_pull S current rq user key accepted request_id w))) \<le> length (w_topic w) + 3"
  using awaits.create_pull_uses[of S current rq user key accepted request_id]
    spends.create_pull_uses[of S current rq user key accepted request_id]
    credits.create_pull_uses[of S current rq user key accepted request_id]
    topic.create_pull_uses[of S current rq user key accepted request_id]
  by (simp add: uses_def messages_def)

section \<open>The error contract\<close>

text \<open>C30: only expected exceptions leave a claimed or resumed pull: an \<open>HTTPException\<close> (which the
  handler of the application turns into an error response), a state store error of a refund that
  could not be recorded, or an exception of the pull computation itself.\<close>

theorem pull_error_contract:
  assumes "claim_or_resume_pull S user key request_hash x request_id w = (Inl e, w')"
  shows "(\<exists>status code message. e = HTTPException status code message) \<or>
    (\<exists>message. e = GachaStateStoreError message) \<or>
    (\<exists>y previous. generate_pull (sv_lib S) user y previous = Inl e)"
  using raisesD[OF raises_claim_or_resume assms]
  by (cases e) (auto simp: pull_exn_def http_exn_def state_error_def engine_exn_def)

text \<open>A hash that no request of the sample library has.\<close>

definition other_hash :: string where
  "other_hash = replicate 64 (CHR ''f'')"

lemma other_hash_facts: "sha256_text other_hash" "pull_request_hash sample_lib b n s \<noteq> other_hash"
proof -
  show "sha256_text other_hash" by (simp add: other_hash_def sha256_text_def)
  have "hd (pull_request_hash sample_lib b n s) = CHR ''0''"
    unfolding pull_request_hash_def by (simp add: sample_lib_def)
  moreover have "hd other_hash = CHR ''f''" by (simp add: other_hash_def)
  ultimately show "pull_request_hash sample_lib b n s \<noteq> other_hash" by auto
qed

lemma published_row_fields [simp]:
  "op_user_id published_row = 2" "op_key_hash published_row = idempotency_key_hash sample_lib ''k''"
  "op_request_hash published_row = pull_request_hash sample_lib ''b'' 1 ''s''"
  "op_status published_row = Event_Published" "op_response published_row = Some sample_response"
  "op_event published_row = Some sample_event" "op_recovery_context published_row = None"
  by (simp_all add: published_row_def new_op_row_def)

lemma sample_begin_published:
  assumes "sha256_text h"
  shows "begin_pull_operation sample_lib (t1, t2) (\<lambda>d. d, \<lambda>d. d) (oid, token) 2 ''k'' h lease sample_context
     \<lparr>db_pity = ps, db_ops = [published_row]\<rparr> =
   (Inr (claim_of_row None published_row), \<lparr>db_pity = ps, db_ops = [published_row]\<rparr>)"
proof -
  have "insert_pull_operation_sql (new_op_row oid 2 (idempotency_key_hash sample_lib ''k'') h token t1
      (max 1 lease) sample_context None) \<lparr>db_pity = ps, db_ops = [published_row]\<rparr>
      = (Inr None, \<lparr>db_pity = ps, db_ops = [published_row]\<rparr>)"
    using assms sample_sha_lawful
    by (simp add: insert_pull_operation_sql_def new_op_row_def op_checks_def sha_lawful_def
        idempotency_key_hash_def)
  moreover have "claim_processing_operation_sql t2 2 (idempotency_key_hash sample_lib ''k'') h token
      (max 1 lease) sample_context \<lparr>db_pity = ps, db_ops = [published_row]\<rparr>
      = (Inr [], \<lparr>db_pity = ps, db_ops = [published_row]\<rparr>)"
    by (simp add: claim_processing_operation_sql_def update_ops_def event_ids_def map_filter_def)
  moreover have "request_id_column (rc_request_id sample_context) = Inr None"
    by (simp add: sample_context_def request_id_column_def)
  ultimately show ?thesis
    by (simp add: begin_pull_operation_def eff_defs Let_def db_other_sessions_def db_query_def
        select_pull_operation_sql_def)
qed

lemma sample_conflict:
  "claim_or_resume_pull sample_services 2 ''k'' other_hash sample_context [] published_world =
     (Inl (HTTPException 409 ''idempotency_conflict''
        ''Idempotency-Key was already used with a different request''),
      published_world\<lparr>w_clock := 3\<rparr>)"
proof -
  have "st_begin_pull_operation (sv_env sample_services) (sv_lib sample_services) 2 ''k'' other_hash
      pull_processing_lease_seconds sample_context published_world =
    (Inr (claim_of_row None published_row), published_world\<lparr>w_clock := 3\<rparr>)"
    by (simp add: st_begin_pull_operation_def pass_def db_call_def tick_def Let_def sample_services_def
        calm_env_def published_world_def sample_begin_published other_hash_facts(1))
  then show ?thesis
    using other_hash_facts(2)[of "''b''" 1 "''s''"]
    by (simp add: claim_or_resume_pull_def eff_bind_def eff_catch_def claim_of_row_def operation_from_row_def
        handle_existing_pull_operation_def eff_raise_def Let_def)
qed

lemma pull_error_contract_witness:
  "\<exists>e w'. claim_or_resume_pull sample_services 2 ''k'' other_hash sample_context [] published_world = (Inl e, w') \<and>
     (\<exists>status code message. e = HTTPException status code message)"
  using pull_error_contract[OF sample_conflict] by (simp add: sample_conflict)

section \<open>A committed pull is final\<close>

lemma begin_finished:
  assumes wf: "wf_db db" and r: "r \<in> set (db_ops db)" "op_user_id r = user" "op_key_hash r = idempotency_key_hash L key"
    and fin: "has_evidence r"
    and others: "\<And>d. store_steps d (o1 d)" "\<And>d. store_steps d (o2 d)"
    and b: "begin_pull_operation L (t1, t2) (o1, o2) (oid, token) user key h lease ctx db = (Inr cl, db')"
  shows "cl_processing_token cl = None \<and> (\<exists>s. row_le r s \<and> cl_operation cl = operation_from_row s)"
proof -
  note facts = begin_claim_facts[OF b]
  from facts obtain s where s: "s \<in> set (db_ops db')" "cl_operation cl = operation_from_row s"
      "op_user_id s = user" "op_key_hash s = idempotency_key_hash L key"
    and tok: "cl_processing_token cl \<noteq> None \<longrightarrow> op_status s = Processing"
    by auto
  have steps: "store_steps db db'"
    using guarantees_begin[of "(o1, o2)" L "(t1, t2)" "(oid, token)" user key h lease ctx] others b
    by (auto simp: guarantees_def) (metis snd_conv)
  from later_row[OF steps r(1)] obtain r' where r': "r' \<in> set (db_ops db')" "row_le r r'" by blast
  have "op_key r' = op_key s" using r r' s by (simp add: op_key_def row_le_def)
  moreover have "distinct (map op_key (db_ops db'))"
    using store_steps_wf[OF steps wf] by (simp add: wf_db_def)
  ultimately have "s = r'" using r'(1) s(1) by (auto simp: distinct_map dest: inj_onD)
  moreover have "op_status r' \<noteq> Processing"
    using row_le_evidence[OF r'(2) fin] by (auto simp: has_evidence_def)
  ultimately show ?thesis using r'(2) s(2) tok by auto
qed

lemma handle_existing_finished:
  assumes E: "lawful_env (sv_env S)" and s: "has_evidence s" "op_response s = Some resp" "op_event s = Some ev"
    and run: "handle_existing_pull_operation S (operation_from_row s) user key h evid a rid md w = (res, w')"
  shows "w_http w' = w_http w \<and>
    (\<exists>k \<le> 3. w_topic w' = w_topic w @ replicate k (kafka_message_of (sv_kafka_topic S) ev)) \<and>
    (case res of Inr y \<Rightarrow> y = resp \<and> op_request_hash s = h | Inl e \<Rightarrow> http_exn e)"
proof -
  let ?m = "kafka_message_of (sv_kafka_topic S) ev"
  let ?Q = "\<lambda>w'. w_http w' = w_http w \<and> (\<exists>k \<le> 3. w_topic w' = w_topic w @ replicate k ?m)"
  have pub: "wp (eff_then (eff_catch (publish_pull_completed_with_retry S ev) on_publish_error)
      (eff_then (save_pull_operation_best_effort S user key po) (eff_return resp)))
      (\<lambda>y w'. ?Q w' \<and> y = resp) (\<lambda>e w'. ?Q w') w" for po
  proof -
    have "wp (save_pull_operation_best_effort S user key po) (\<lambda>_. ?Q) (\<lambda>_. ?Q) v" if "published ?m w v" for v
      unfolding save_pull_operation_best_effort_def
      by (rule wp_quiet[OF ignore_store_quiet[OF st_quiet(10)[OF E]]])
         (use that in \<open>auto simp: published_def quiet_def\<close>)
    then show ?thesis
      unfolding wp_simps
      by (intro wp_publish[OF E])
         (auto simp: on_publish_error_def published_def wp_pure split: exn.splits)
  qed
  have "case res of Inr y \<Rightarrow> True | Inl e \<Rightarrow> http_exn e"
    using raisesD[OF raises_handle_existing] run by (auto split: sum.splits)
  moreover have "?Q w' \<and> (case res of Inr y \<Rightarrow> y = resp \<and> op_request_hash s = h | Inl e \<Rightarrow> True)"
  proof (cases "op_request_hash s = h")
    case True
    show ?thesis
    proof (cases "op_status s = Event_Pending")
      case True
      with run s \<open>op_request_hash s = h\<close> pub[of "operation_with Event_Published h (Some resp) (Some ev)"]
      show ?thesis
        by (auto simp: handle_existing_pull_operation_def operation_from_row_def wp_def split: sum.splits)
    next
      case False
      with run s \<open>op_request_hash s = h\<close> show ?thesis
        by (auto simp: handle_existing_pull_operation_def operation_from_row_def has_evidence_def eff_defs)
    qed
  next
    case False
    with run show ?thesis
      by (auto simp: handle_existing_pull_operation_def operation_from_row_def eff_defs)
  qed
  ultimately show ?thesis by (auto split: sum.splits)
qed

text \<open>The claim on a committed operation finds its evidence and hands out no token.\<close>

lemma begin_finds_evidence:
  assumes E: "lawful_env (sv_env S)" and wf: "wf_db (w_db w)"
    and r: "r \<in> set (db_ops (w_db w))" "op_user_id r = user"
      "op_key_hash r = idempotency_key_hash (sv_lib S) key" "has_evidence r"
    and br: "st_begin_pull_operation (sv_env S) (sv_lib S) user key request_hash lease x w = (Inr cl, w1)"
  obtains s where "row_le r s" "cl_operation cl = operation_from_row s" "cl_processing_token cl = None"
proof -
  from pass_result[OF br[unfolded st_begin_pull_operation_def]] obtain v where
    "db_call (sv_env S) ''begin pull operation in postgres failed'' (\<lambda>n.
      begin_pull_operation (sv_lib S) (e_now (sv_env S) n, e_now (sv_env S) (n + 1))
        (e_others (sv_env S) (n + 1), e_others (sv_env S) (n + 2))
        (e_uuid4 (sv_env S) (n + 1), e_uuid4 (sv_env S) n) user key request_hash lease x) w = (Inr cl, v)"
    by blast
  from db_call_InrD[OF E this] obtain d where d: "store_steps (w_db w) d" and
    b: "begin_pull_operation (sv_lib S) (e_now (sv_env S) (w_clock w), e_now (sv_env S) (w_clock w + 1))
        (e_others (sv_env S) (w_clock w + 1), e_others (sv_env S) (w_clock w + 2))
        (e_uuid4 (sv_env S) (w_clock w + 1), e_uuid4 (sv_env S) (w_clock w)) user key request_hash lease x d
      = (Inr cl, w_db v)" by blast
  from later_row[OF d r(1)] obtain r' where r': "r' \<in> set (db_ops d)" "row_le r r'" by blast
  have id': "op_user_id r' = user" "op_key_hash r' = idempotency_key_hash (sv_lib S) key" "has_evidence r'"
    using r' r row_le_evidence[OF r'(2) r(4)] by (simp_all add: row_le_def)
  from begin_finished[OF _ r'(1) id' lawful_step[OF E] lawful_step[OF E] b] store_steps_wf[OF d wf]
  obtain s where "row_le r' s" "cl_operation cl = operation_from_row s" "cl_processing_token cl = None"
    by blast
  with that show thesis using row_le_trans[OF r'(2)] by blast
qed

text \<open>C2: a committed pull is final. Once the operation of an idempotency key carries evidence, every
  later request with that key, in every environment, sends no request to the asset service (so
  nothing is charged or refunded again), puts nothing on the topic but copies of the stored event,
  and either returns exactly the stored response, to a request with the same hash, or raises an
  \<open>HTTPException\<close>.\<close>

theorem committed_pull_is_final:
  assumes E: "lawful_env (sv_env S)" and wf: "wf_db (w_db w)"
    and r: "r \<in> set (db_ops (w_db w))" "op_user_id r = user"
      "op_key_hash r = idempotency_key_hash (sv_lib S) key"
    and fin: "op_status r \<in> {Event_Pending, Event_Published, Succeeded}"
      "op_response r = Some response" "op_event r = Some ev"
    and run: "claim_or_resume_pull S user key request_hash x request_id w = (res, w')"
  shows "w_http w' = w_http w \<and>
    (\<exists>k \<le> 3. w_topic w' = w_topic w @ replicate k (kafka_message_of (sv_kafka_topic S) ev)) \<and>
    (case res of
       Inr y \<Rightarrow> y = response \<and> op_request_hash r = request_hash
     | Inl e \<Rightarrow> (\<exists>status code message. e = HTTPException status code message))"
proof -
  have ev: "has_evidence r" using fin(1) by (simp add: has_evidence_def)
  obtain br w1 where br: "st_begin_pull_operation (sv_env S) (sv_lib S) user key request_hash
      pull_processing_lease_seconds x w = (br, w1)" by force
  have q: "quiet w w1" using guaranteesD[OF st_quiet(2)[OF E] br] .
  show ?thesis
  proof (cases br)
    case (Inl e)
    with raisesD[OF raises_st(2)] br obtain msg where "e = GachaStateStoreError msg"
      by (blast dest: state_errorE)
    with run br Inl q show ?thesis
      by (auto simp: claim_or_resume_pull_def eff_bind_def eff_catch_def on_store_error_def eff_raise_def
          state_store_http_exception_def quiet_def intro!: exI[of _ 0])
  next
    case (Inr cl)
    from begin_finds_evidence[OF E wf r ev br[unfolded Inr]] obtain s where
      rs: "row_le r s" and s: "cl_operation cl = operation_from_row s" "cl_processing_token cl = None" .
    have "has_evidence s" "op_response s = Some response" "op_event s = Some ev" "op_request_hash s = op_request_hash r"
      using row_le_evidence[OF rs ev] fin rs by (simp_all add: row_le_def)
    moreover have "\<exists>evid a md. handle_existing_pull_operation S (operation_from_row s) user key request_hash
        evid a request_id md w1 = (res, w')"
      using run br Inr s by (auto simp: claim_or_resume_pull_def eff_bind_def eff_catch_def Let_def)
    ultimately have "w_http w' = w_http w1 \<and>
      (\<exists>k \<le> 3. w_topic w' = w_topic w1 @ replicate k (kafka_message_of (sv_kafka_topic S) ev)) \<and>
      (case res of Inr y \<Rightarrow> y = response \<and> op_request_hash s = request_hash | Inl e \<Rightarrow> http_exn e)"
      using handle_existing_finished[OF E] by blast
    moreover have "http_exn e \<Longrightarrow> \<exists>status code message. e = HTTPException status code message" for e
      by (cases e) (simp_all add: http_exn_def)
    ultimately show ?thesis
      using q \<open>op_request_hash s = op_request_hash r\<close> by (auto simp: quiet_def split: sum.splits)
  qed
qed

lemma committed_pull_is_final_witness:
  "w_http (snd (claim_or_resume_pull sample_services 2 ''k'' other_hash sample_context [] published_world)) = []"
proof -
  have "published_row \<in> set (db_ops (w_db published_world))" by (simp add: published_world_def)
  moreover have "sv_lib sample_services = sample_lib" by (simp add: sample_services_def)
  ultimately have "w_http (published_world\<lparr>w_clock := 3\<rparr>) = w_http published_world"
    using committed_pull_is_final[OF sample_services_lawful published_world_wf _ _ _ _ _ _ sample_conflict,
        of published_row sample_response sample_event]
    by simp
  then show ?thesis unfolding sample_conflict by (simp add: published_world_def)
qed


section \<open>Charges\<close>

definition spend_request :: "'g services \<Rightarrow> uuid \<Rightarrow> pull_recovery_context \<Rightarrow> http_request" where
  "spend_request S user x =
     asset_request (sv_asset_client S) ''/v1/me/spends'' user (rc_amount_minor x)
       (spend_idempotency_key (uuid_str (rc_event_id x))) ''gacha_pull'' (context_metadata x)
       (rc_request_id x)"

lemma post_entry_run:
  "post_entry E L c path user a key reason md rid w =
     (case e_http E (w_clock w) of
        Transport_Error \<Rightarrow> Inl asset_service_unavailable
      | Http_Response status body \<Rightarrow>
          (if is_success status then Inr ()
           else case error_fields L body ''asset_request_failed'' ''asset request failed'' of
             (code, message) \<Rightarrow> Inl (AssetServiceError status code message)),
      (tick E w)\<lparr>w_http := w_http w @ [asset_request c path user a key reason md rid]\<rparr>)"
  by (simp add: post_entry_def http_call_def eff_defs Let_def split: http_outcome.splits prod.splits)

lemma transition_rows:
  assumes "transition_pull_operation_from_processing now k user h token po d = (r, d')"
  shows "db_pity d' = db_pity d \<and> (\<forall>s \<in> set (db_ops d'). s \<in> set (db_ops d) \<or>
    op_status s = po_status po \<and> uuid_parse k = Some (op_id s))"
proof (cases "operation_id_of k")
  case (Inl e)
  with assms show ?thesis
    by (auto simp: transition_pull_operation_from_processing_def eff_defs)
next
  case (Inr oid)
  then have k: "uuid_parse k = Some oid"
    by (simp add: operation_id_of_def split: option.splits)
  obtain rows d2 where u: "transition_processing_operation_sql now oid user h token po d = (rows, d2)" by force
  have "d' = d2" using assms Inr u
    by (auto simp: transition_pull_operation_from_processing_def eff_defs split: sum.splits if_splits)
  from u[unfolded transition_processing_operation_sql_def] show ?thesis
  proof (cases rule: update_ops_cases)
    case ok
    then show ?thesis
      using \<open>d' = d2\<close> k by (auto simp: updated_def release_claim_def with_operation_def)
  qed (simp add: \<open>d' = d2\<close>)
qed

text \<open>C21: a spend that fails commits nothing. When the asset service does not confirm the spend, the
  handler raises an \<open>HTTPException\<close> after exactly that one request; with no other session at work no
  pity snapshot changes, no message is sent, and the only operation that may have changed is the
  claimed one, which is then failed.\<close>

theorem failed_spend_commits_nothing:
  assumes idle: "\<And>n d. e_others (sv_env S) n d = d"
    and fail: "\<And>status body. e_http (sv_env S) (w_clock w) = Http_Response status body \<Longrightarrow> \<not> is_success status"
    and run: "execute_claimed_pull S user k h token x w = (res, w')"
  shows "(\<exists>status code message. res = Inl (HTTPException status code message)) \<and>
    w_topic w' = w_topic w \<and> w_http w' = w_http w @ [spend_request S user x] \<and>
    db_pity (w_db w') = db_pity (w_db w) \<and>
    (\<forall>s \<in> set (db_ops (w_db w')). s \<in> set (db_ops (w_db w)) \<or>
       op_status s = Failed \<and> uuid_parse k = Some (op_id s))"
proof -
  let ?w1 = "(tick (sv_env S) w)\<lparr>w_http := w_http w @ [spend_request S user x]\<rparr>"
  have w1: "w_db ?w1 = w_db w" "w_topic ?w1 = w_topic w" by (simp_all add: tick_def idle)
  obtain status code message where
    run1: "on_spend_error S user k h token (AssetServiceError status code message) ?w1 = (res, w')"
    using run fail
    by (auto simp: execute_claimed_pull_def eff_try_def asset_spend_def post_entry_run spend_request_def
        asset_service_unavailable_def split: http_outcome.splits prod.splits)
  from raises_on_spend_error[of "AssetServiceError status code message"]
  have exn: "raises http_exn (on_spend_error S user k h token (AssetServiceError status code message))"
    by (simp add: asset_exn_def)
  show ?thesis
  proof (cases "status \<ge> 500")
    case True
    with run1 w1 show ?thesis by (auto simp: on_spend_error_def eff_raise_def)
  next
    case False
    let ?po = "failed_operation h (asset_error_code code) (asset_error_message code message)"
    obtain r w2 where tr: "st_transition (sv_env S) k user h token ?po ?w1 = (r, w2)" by force
    have w2: "w_topic w2 = w_topic w \<and> w_http w2 = w_http ?w1 \<and> db_pity (w_db w2) = db_pity (w_db w) \<and>
      (\<forall>s \<in> set (db_ops (w_db w2)). s \<in> set (db_ops (w_db w)) \<or>
         op_status s = Failed \<and> uuid_parse k = Some (op_id s))"
      using tr by (auto simp: st_transition_def db_call_def Let_def tick_def idle failed_operation_def
          split: db_outcome.splits prod.splits dest!: transition_rows)
    have "w' = w2 \<and> (\<exists>e. res = Inl e)"
      using run1 False tr by (auto simp: on_spend_error_def eff_try_def eff_raise_def
          split: sum.splits exn.splits)
    then obtain e where e: "w' = w2" "res = Inl e" by blast
    with raisesD[OF exn] run1 have "http_exn e" by blast
    then obtain st c m where "e = HTTPException st c m" by (cases e) (simp_all add: http_exn_def)
    with e w2 show ?thesis by simp
  qed
qed

definition refused_services :: "nat services" where
  "refused_services = sample_services\<lparr>sv_env := (calm_env None)\<lparr>e_http := \<lambda>_. Transport_Error\<rparr>\<rparr>"

lemma failed_spend_commits_nothing_witness:
  "w_http (snd (execute_claimed_pull refused_services 2 (uuid_str 1) sample_hash 3 sample_context published_world))
     = [spend_request refused_services 2 sample_context]"
proof -
  obtain res w' where "execute_claimed_pull refused_services 2 (uuid_str 1) sample_hash 3 sample_context
      published_world = (res, w')" by force
  moreover have "e_others (sv_env refused_services) n d = d"
    "e_http (sv_env refused_services) n = Transport_Error" for n d
    by (simp_all add: refused_services_def sample_services_def calm_env_def)
  ultimately show ?thesis
    using failed_spend_commits_nothing[of refused_services published_world 2 "uuid_str 1" sample_hash 3
        sample_context res w']
    by (simp add: published_world_def)
qed

section \<open>Every charge carries the key of its operation\<close>

definition posts_of :: "'g services \<Rightarrow> uuid \<Rightarrow> pull_recovery_context \<Rightarrow> http_request \<Rightarrow> bool" where
  "posts_of S user x q \<longleftrightarrow>
     q = spend_request S user x \<or>
     (\<exists>code rid. q = asset_request (sv_asset_client S) ''/v1/me/credits'' user (rc_amount_minor x)
        (refund_idempotency_key (uuid_str (rc_event_id x))) ''gacha_pull_refund''
        (AList.update ''refund_reason'' (JStr code) (context_metadata x)) rid)"

definition sends_only :: "(http_request \<Rightarrow> bool) \<Rightarrow> world \<Rightarrow> world \<Rightarrow> bool" where
  "sends_only P w w' \<longleftrightarrow> (\<exists>qs. w_http w' = w_http w @ qs \<and> list_all P qs)"

lemma preorder_sends_only [simp]: "preorder_rel (sends_only P)"
  unfolding preorder_rel_def reflp_def transp_def sends_only_def
  by (auto intro: exI[of _ "[]"])


lemma sends_primitives [guarantees_intros]:
  "guarantees (sends_only P) (db_call E msg m)" "guarantees (sends_only P) (svc_sleep E)"
  "guarantees (sends_only P) (publish_pull_completed E topic ev)"
  by (auto simp: guarantees_def sends_only_def db_call_def Let_def tick_def svc_sleep_def
      publish_pull_completed_def eff_then_def eff_bind_def ensure_started_def send_and_wait_def
      split: db_outcome.splits prod.splits sum.splits send_outcome.splits)

lemma sends_post:
  "P (asset_request c path user a key reason md rid) \<Longrightarrow>
   guarantees (sends_only P) (post_entry E L c path user a key reason md rid)"
  by (simp add: guarantees_def sends_only_def post_entry_run tick_def)

lemma sends_publish [guarantees_intros]:
  "guarantees (sends_only P) (eff_catch (publish_pull_completed_with_retry S ev) on_publish_error)"
  unfolding publish_pull_completed_with_retry_def
  by (auto intro!: guarantees_intros simp: on_publish_error_def split: exn.splits)

lemma sends_ignore [guarantees_intros]:
  "guarantees (sends_only P) m \<Longrightarrow> guarantees (sends_only P) (ignore_store_error m)"
  unfolding ignore_store_error_def by (auto intro!: guarantees_intros split: exn.splits)

lemma sends_refund:
  "guarantees (sends_only (posts_of S user x))
     (refund_claimed_spend S user k h x (context_metadata x) code message)"
proof -
  have "posts_of S user x (asset_request (sv_asset_client S) ''/v1/me/credits'' user (rc_amount_minor x)
      (refund_idempotency_key (uuid_str (rc_event_id x))) ''gacha_pull_refund''
      (AList.update ''refund_reason'' (JStr code) (context_metadata x)) (rc_request_id x))"
    unfolding posts_of_def by blast
  then show ?thesis
    unfolding refund_claimed_spend_def asset_credit_def st_save_by_key_def
    by (auto intro!: guarantees_intros sends_post simp: on_refund_error_def split: exn.splits)
qed

lemma sends_handle_claimed:
  "guarantees (sends_only (posts_of S user x))
     (handle_claimed_pull_operation S po user k h x (context_metadata x))"
  unfolding handle_claimed_pull_operation_def publish_and_complete_claimed_pull_def st_save_by_key_def
  by (auto intro!: guarantees_intros sends_refund split: option.splits pull_operation_status.splits)

lemma sends_commit_attempts: "guarantees (sends_only P) (commit_attempts S user k h token x n)"
proof (induction n)
  case (Suc n)
  then show ?case
    unfolding commit_attempts.simps st_get_snapshot_def st_commit_def
    by (auto intro!: guarantees_intros split: exn.splits)
qed (simp add: guarantees_pure)

text \<open>Every charge carries the key of its operation. Each request that the execution of a claimed
  pull sends to the asset service is the spend of the stored amount under the key
  \<open>gacha-pull:\<close> with the event id of the operation, or the refund of the same amount under
  \<open>gacha-refund:\<close> with the same event id, so a repeated attempt repeats the key and the amount.\<close>

theorem charges_carry_operation_key:
  "\<exists>qs. w_http (snd (execute_claimed_pull S user k h token x w)) = w_http w @ qs \<and>
     list_all (posts_of S user x) qs"
proof -
  have "guarantees (sends_only (posts_of S user x)) (execute_claimed_pull S user k h token x)"
    unfolding execute_claimed_pull_def asset_spend_def
  proof (rule guarantees_try[OF preorder_sends_only])
    show "guarantees (sends_only (posts_of S user x))
        (post_entry (sv_env S) (sv_lib S) (sv_asset_client S) ''/v1/me/spends'' user (rc_amount_minor x)
           (spend_idempotency_key (uuid_str (rc_event_id x))) ''gacha_pull'' (context_metadata x)
           (rc_request_id x))"
      by (rule sends_post) (simp add: posts_of_def spend_request_def)
    show "guarantees (sends_only (posts_of S user x)) (on_spend_error S user k h token e)" for e
      unfolding on_spend_error_def st_transition_def
      by (auto intro!: guarantees_intros split: exn.splits)
    show "guarantees (sends_only (posts_of S user x))
        (eff_try (generate_and_commit_pull_with_retry S user k h token x) (on_commit_error S user k h x)
          (\<lambda>(response, ev). publish_and_complete_claimed_pull S k h response ev))" for u
      unfolding generate_and_commit_pull_with_retry_def on_commit_error_def
        publish_and_complete_claimed_pull_def st_save_by_key_def st_get_pull_operation_by_key_def
      by (auto intro!: guarantees_intros sends_commit_attempts sends_handle_claimed
          split: exn.splits option.splits)
  qed
  then show ?thesis by (simp add: guarantees_def sends_only_def)
qed

end
