(* ===== verification/Catalog_Repository.thy ===== *)
theory Catalog_Repository
  imports Static_Catalog
begin

text \<open>
  \<open>catalog_repository.py\<close>: how a published release becomes the catalog snapshot the service runs
  on. Release payloads are JSON values, so every missing key, wrong type and failed validation is an
  exception of the model. The config database is the two tables the queries read; the outcome of
  the connection and of the query is an argument. What the caching provider and the audit endpoint
  rely on is stated in \<open>Catalog_Guarantees\<close>, for the static and the Postgres repository.
\<close>

section \<open>Values of a row\<close>

definition json_member :: "json \<Rightarrow> string \<Rightarrow> json option" where
  "json_member j k = (case j of JObj kvs \<Rightarrow> map_of (rev kvs) k | _ \<Rightarrow> None)"

text \<open>\<open>row[key]\<close> and \<open>int(value)\<close>.\<close>

definition json_index :: "json \<Rightarrow> string \<Rightarrow> json result" where
  "json_index j k = (case json_member j k of None \<Rightarrow> Inl KeyError | Some v \<Rightarrow> Inr v)"

definition rat_trunc :: "rat \<Rightarrow> int" where
  "rat_trunc r = (if 0 \<le> r then \<lfloor>r\<rfloor> else - \<lfloor>- r\<rfloor>)"

definition json_int :: "json \<Rightarrow> int result" where
  "json_int j =
     (case j of
        JInt i \<Rightarrow> Inr i
      | JBool b \<Rightarrow> Inr (if b then 1 else 0)
      | JFloat r \<Rightarrow> Inr (rat_trunc r)
      | JStr s \<Rightarrow> (case py_int s of None \<Rightarrow> Inl (ValueError ''invalid literal for int()'') | Some i \<Rightarrow> Inr i)
      | _ \<Rightarrow> Inl TypeError)"

definition row_str :: "'g lib \<Rightarrow> json \<Rightarrow> string \<Rightarrow> string result" where
  "row_str L row k = res_bind (json_index row k) (\<lambda>v. Inr (json_str L v))"

definition row_int :: "json \<Rightarrow> string \<Rightarrow> int result" where
  "row_int row k = res_bind (json_index row k) json_int"

definition row_bool :: "json \<Rightarrow> string \<Rightarrow> bool result" where
  "row_bool row k = res_bind (json_index row k) (\<lambda>v. Inr (json_truthy v))"

text \<open>
  Fields the rule dataclasses take as they are, declared \<open>int | None\<close> and \<open>str | None\<close>; a value
  of another type, which Python would only reject at its first use, is a \<open>TypeError\<close> here.
\<close>

definition row_opt_int :: "json \<Rightarrow> string \<Rightarrow> int option result" where
  "row_opt_int row k = res_bind (json_index row k) (\<lambda>v.
     case v of JNull \<Rightarrow> Inr None | JInt i \<Rightarrow> Inr (Some i) | _ \<Rightarrow> Inl TypeError)"

definition row_opt_str :: "json \<Rightarrow> string \<Rightarrow> string option result" where
  "row_opt_str row k = res_bind (json_index row k) (\<lambda>v.
     case v of JNull \<Rightarrow> Inr None | JStr s \<Rightarrow> Inr (Some s) | _ \<Rightarrow> Inl TypeError)"

text \<open>\<open>_optional_row_value\<close> on a dict: \<open>row.get(key)\<close>.\<close>

definition optional_row_value :: "json \<Rightarrow> string \<Rightarrow> json option" where
  "optional_row_value row k =
     (case json_member row k of None \<Rightarrow> None | Some JNull \<Rightarrow> None | Some v \<Rightarrow> Some v)"

definition json_object :: "'g lib \<Rightarrow> json \<Rightarrow> json result" where
  "json_object L v =
     (case v of
        JNull \<Rightarrow> Inr (JObj [])
      | JObj kvs \<Rightarrow> Inr (JObj kvs)
      | JStr s \<Rightarrow>
          (case lib_json_loads L s of
             None \<Rightarrow> Inl (ValueError ''Expecting value'')
           | Some (JObj kvs) \<Rightarrow> Inr (JObj kvs)
           | Some _ \<Rightarrow> Inl (CatalogLoadError ''expected JSON object from catalog query''))
      | _ \<Rightarrow> Inl (CatalogLoadError ''expected JSON object from catalog query''))"

definition release_array :: "json \<Rightarrow> string \<Rightarrow> json list result" where
  "release_array payload key =
     (case json_member payload key of
        Some (JArr rows) \<Rightarrow>
          (if \<exists>row \<in> set rows. (case row of JObj _ \<Rightarrow> False | _ \<Rightarrow> True)
           then Inl (CatalogLoadError (''release snapshot field '' @ key @ '' must be an array of objects''))
           else Inr rows)
      | _ \<Rightarrow> Inl (CatalogLoadError (''release snapshot field '' @ key @ '' must be an array of objects'')))"

definition release_timestamp :: "'g lib \<Rightarrow> json \<Rightarrow> string \<Rightarrow> instant result" where
  "release_timestamp L value field_name =
     (case value of
        JStr s \<Rightarrow>
          (case lib_fromisoformat L (py_replace_char (CHR ''Z'') ''+00:00'' s) of
             None \<Rightarrow> Inl (CatalogLoadError (''release '' @ field_name @ '' is not a valid timestamp''))
           | Some (Naive _) \<Rightarrow>
               Inl (CatalogLoadError (''release '' @ field_name @ '' must include a timezone''))
           | Some (Aware t) \<Rightarrow> Inr t)
      | _ \<Rightarrow> Inl (CatalogLoadError (''release '' @ field_name @ '' is not a valid timestamp'')))"

definition optional_release_timestamp :: "'g lib \<Rightarrow> json \<Rightarrow> string \<Rightarrow> instant option result" where
  "optional_release_timestamp L row field_name =
     (case optional_row_value row field_name of
        None \<Rightarrow> Inr None
      | Some v \<Rightarrow> res_bind (release_timestamp L v field_name) (\<lambda>t. Inr (Some t)))"

definition version_is_effective :: "'g lib \<Rightarrow> json \<Rightarrow> instant \<Rightarrow> bool result" where
  "version_is_effective L release_version now =
     res_bind (release_timestamp L (json_get release_version ''effective_from'') ''effective_from'') (\<lambda>effective_from.
     res_bind (if json_get release_version ''effective_to'' \<noteq> JNull
               then res_bind (release_timestamp L (json_get release_version ''effective_to'') ''effective_to'')
                      (\<lambda>t. Inr (Some t))
               else Inr None) (\<lambda>effective_to.
       Inr (effective_from \<le> now \<and>
         (case effective_to of None \<Rightarrow> True | Some t \<Rightarrow> now < t))))"

section \<open>Rows as models\<close>

definition item_type_of :: "string \<Rightarrow> gacha_item_type result" where
  "item_type_of s =
     (if s = ''character'' then Inr Character else if s = ''weapon'' then Inr Weapon else Inl ValidationError)"

definition banner_type_of :: "string \<Rightarrow> banner_type result" where
  "banner_type_of s =
     (if s = ''limited-character'' then Inr Limited_Character
      else if s = ''standard'' then Inr Standard else Inl ValidationError)"

definition item_from_row :: "'g lib \<Rightarrow> json \<Rightarrow> gacha_item result" where
  "item_from_row L row =
     res_bind (row_str L row ''id'') (\<lambda>i.
     res_bind (row_str L row ''name'') (\<lambda>name.
     res_bind (row_str L row ''subtitle'') (\<lambda>subtitle.
     res_bind (row_int row ''rarity'') (\<lambda>rarity.
     res_bind (row_str L row ''item_type'') (\<lambda>item_type.
     res_bind (row_str L row ''element'') (\<lambda>element.
     res_bind (row_str L row ''role'') (\<lambda>role.
     res_bind (row_str L row ''faction'') (\<lambda>faction.
     res_bind (row_str L row ''accent'') (\<lambda>accent.
     res_bind (row_str L row ''quote'') (\<lambda>quote.
     res_bind (item_type_of item_type) (\<lambda>t.
       if rarity \<noteq> 3 \<and> rarity \<noteq> 4 \<and> rarity \<noteq> 5 then Inl ValidationError
       else Inr \<lparr>gi_id = i, gi_name = name, gi_subtitle = subtitle, gi_rarity = rarity, gi_type = t,
              gi_element = element, gi_role = role, gi_faction = faction, gi_accent = accent,
              gi_quote = quote\<rparr>)))))))))))"

definition rarity_rate_from_row :: "json \<Rightarrow> rarity_rate result" where
  "rarity_rate_from_row row =
     res_bind (row_int row ''rarity'') (\<lambda>rarity.
     res_bind (row_int row ''base_rate_ppm'') (\<lambda>base.
     res_bind (row_int row ''roll_order'') (\<lambda>order.
       Inr \<lparr>rr_rarity = rarity, rr_base_rate_ppm = base, rr_roll_order = order\<rparr>)))"

definition featured_rule_from_row :: "'g lib \<Rightarrow> json \<Rightarrow> featured_rule result" where
  "featured_rule_from_row L row =
     res_bind (row_int row ''rarity'') (\<lambda>rarity.
     res_bind (row_str L row ''featured_group'') (\<lambda>grp.
     res_bind (row_int row ''featured_rate_ppm'') (\<lambda>rate.
     res_bind (row_bool row ''guarantee_after_miss'') (\<lambda>guarantee.
     res_bind (row_bool row ''miss_sets_guarantee'') (\<lambda>miss.
     res_bind (row_opt_str row ''guarantee_state_key'') (\<lambda>key.
       Inr \<lparr>fr_rarity = rarity, fr_featured_group = grp, fr_featured_rate_ppm = rate,
         fr_guarantee_after_miss = guarantee, fr_miss_sets_guarantee = miss,
         fr_guarantee_state_key = key\<rparr>))))))"

definition pity_rule_from_row :: "'g lib \<Rightarrow> json \<Rightarrow> pity_rule result" where
  "pity_rule_from_row L row =
     res_bind (row_int row ''rarity'') (\<lambda>rarity.
     res_bind (row_str L row ''counter_key'') (\<lambda>key.
     res_bind (row_int row ''hard_pity'') (\<lambda>hard.
     res_bind (row_opt_int row ''soft_pity_start'') (\<lambda>soft.
     res_bind (row_int row ''soft_pity_increment_ppm'') (\<lambda>increment.
     res_bind (row_bool row ''resets_lower_rarity'') (\<lambda>resets.
       Inr \<lparr>pu_rarity = rarity, pu_counter_key = key, pu_hard_pity = hard, pu_soft_pity_start = soft,
         pu_soft_pity_increment_ppm = increment, pu_resets_lower_rarity = resets\<rparr>))))))"

text \<open>\<open>by_owner.setdefault(str(row[owner_key]), {})[int(row["rarity"])] = rule\<close>.\<close>

type_synonym 'r owner_rules = "(string, (int, 'r) dict) dict"

definition put_rule :: "string \<Rightarrow> int \<Rightarrow> 'r \<Rightarrow> 'r owner_rules \<Rightarrow> 'r owner_rules" where
  "put_rule owner rarity rule d =
     AList.update owner (AList.update rarity rule (case map_of d owner of None \<Rightarrow> [] | Some r \<Rightarrow> r)) d"

definition rules_by_owner ::
    "'g lib \<Rightarrow> (json \<Rightarrow> 'r result) \<Rightarrow> ('r \<Rightarrow> int) \<Rightarrow> string \<Rightarrow> json list \<Rightarrow> 'r owner_rules result" where
  "rules_by_owner L from_row rarity_of owner_key rows =
     fold_result (\<lambda>row d.
       res_bind (row_str L row owner_key) (\<lambda>owner.
       res_bind (from_row row) (\<lambda>rule. Inr (put_rule owner (rarity_of rule) rule d)))) rows []"

definition rarity_rates_by_owner :: "'g lib \<Rightarrow> json list \<Rightarrow> string \<Rightarrow> rarity_rate owner_rules result" where
  "rarity_rates_by_owner L rows owner_key = rules_by_owner L rarity_rate_from_row rr_rarity owner_key rows"

definition featured_rules_by_owner ::
    "'g lib \<Rightarrow> json list \<Rightarrow> string \<Rightarrow> featured_rule owner_rules result" where
  "featured_rules_by_owner L rows owner_key =
     rules_by_owner L (featured_rule_from_row L) fr_rarity owner_key rows"

definition pity_rules_by_owner :: "'g lib \<Rightarrow> json list \<Rightarrow> string \<Rightarrow> pity_rule owner_rules result" where
  "pity_rules_by_owner L rows owner_key = rules_by_owner L (pity_rule_from_row L) pu_rarity owner_key rows"

definition theme_from_json :: "json \<Rightarrow> banner_theme result" where
  "theme_from_json j =
     (case (json_member j ''primary'', json_member j ''secondary'', json_member j ''glow'') of
        (Some (JStr p), Some (JStr s), Some (JStr g)) \<Rightarrow>
          Inr \<lparr>bt_primary = p, bt_secondary = s, bt_glow = g\<rparr>
      | _ \<Rightarrow> Inl ValidationError)"


section \<open>Snapshots\<close>

text \<open>The fields of a banner row, as \<open>_build_snapshot_from_release\<close> collects them.\<close>

record banner_row =
  br_banner_version_id :: string
  br_banner_id :: string
  br_pity_group_id :: json
  br_rule_set_id :: "json option"
  br_version :: json
  br_name :: json
  br_short_name :: json
  br_banner_type :: json
  br_description :: json
  br_theme :: json
  br_effective_from :: "json option"
  br_effective_to :: "json option"

definition pity_group_id_from_row :: "'g lib \<Rightarrow> json \<Rightarrow> string \<Rightarrow> string result" where
  "pity_group_id_from_row L raw banner_id =
     (let pity_group_id = (case raw of JNull \<Rightarrow> banner_id | _ \<Rightarrow> json_str L raw) in
      if pity_group_id = [] \<or> pity_group_id \<noteq> py_strip pity_group_id \<or> py_len pity_group_id > 100
      then Inl (CatalogLoadError (''banner '' @ banner_id @ '' has an invalid pity group id''))
      else Inr pity_group_id)"

definition validate_rarity ::
    "string \<Rightarrow> (int, rarity_rate) dict \<Rightarrow> (int, pity_rule) dict \<Rightarrow> int \<Rightarrow> unit result" where
  "validate_rarity version_id rates pity_rules rarity =
     (if map_of rates rarity = None
      then Inl (CatalogLoadError (''banner version '' @ version_id @ '' missing '' @ show_int rarity @ ''-star rate''))
      else if map_of pity_rules rarity = None
      then Inl (CatalogLoadError
             (''banner version '' @ version_id @ '' missing '' @ show_int rarity @ ''-star pity rule''))
      else Inr ())"

definition validate_runtime_banner_config ::
    "banner \<Rightarrow> string \<Rightarrow> (int, rarity_rate) dict \<Rightarrow> (int, pity_rule) dict \<Rightarrow> unit result" where
  "validate_runtime_banner_config b version_id rates pity_rules =
     res_bind (validate_rarity version_id rates pity_rules 5) (\<lambda>_.
     res_bind (validate_rarity version_id rates pity_rules 4) (\<lambda>_.
       if b_item_pool b = []
       then Inl (CatalogLoadError (''banner version '' @ version_id @ '' item_pool is empty''))
       else Inr ()))"

text \<open>The inner loop over the items of one version: the pool and the featured ids by rarity.\<close>

definition add_banner_item ::
    "'g lib \<Rightarrow> string \<Rightarrow> (string, gacha_item) dict \<Rightarrow> json
     \<Rightarrow> string list \<times> (int, string list) dict \<Rightarrow> (string list \<times> (int, string list) dict) result" where
  "add_banner_item L version_id item_by_id row = (\<lambda>(item_pool, featured_by_rarity).
     res_bind (row_str L row ''item_id'') (\<lambda>item_id.
     case map_of item_by_id item_id of
       None \<Rightarrow> Inl (CatalogLoadError
         (''banner version '' @ version_id @ '' references disabled item '' @ item_id))
     | Some item \<Rightarrow>
         res_bind (json_index row ''featured_group'') (\<lambda>featured_group.
           Inr (item_pool @ [item_id],
             (if json_truthy featured_group
              then dict_append (gi_rarity item) item_id featured_by_rarity else featured_by_rarity)))))"

text \<open>\<open>by_rule_set.get(id, {}) if id is not None and id in by_rule_set else by_version.get(version, {})\<close>.\<close>

definition rules_for :: "'r owner_rules \<Rightarrow> 'r owner_rules \<Rightarrow> string option \<Rightarrow> string \<Rightarrow> (int, 'r) dict" where
  "rules_for by_rule_set by_version rule_set_id version_id =
     (let version_rules = (case map_of by_version version_id of None \<Rightarrow> [] | Some r \<Rightarrow> r) in
      case rule_set_id of
        None \<Rightarrow> version_rules
      | Some i \<Rightarrow> (case map_of by_rule_set i of None \<Rightarrow> version_rules | Some r \<Rightarrow> r))"

record release_tables =
  rt_items :: "gacha_item list"
  rt_banner_items :: "(string, json list) dict"
  rt_rates :: "rarity_rate owner_rules \<times> rarity_rate owner_rules"
  rt_featured :: "featured_rule owner_rules \<times> featured_rule owner_rules"
  rt_pity :: "pity_rule owner_rules \<times> pity_rule owner_rules"

definition config_from_row ::
    "'g lib \<Rightarrow> release_tables \<Rightarrow> banner_row \<Rightarrow> banner_config result" where
  "config_from_row L t row =
     (let version_id = br_banner_version_id row;
          rule_set_id = map_option (json_str L) (br_rule_set_id row);
          item_by_id = dict_comp (map (\<lambda>i. (gi_id i, i)) (rt_items t));
          banner_items = (case map_of (rt_banner_items t) version_id of None \<Rightarrow> [] | Some rows \<Rightarrow> rows) in
      if banner_items = []
      then Inl (CatalogLoadError (''banner version '' @ version_id @ '' has no items''))
      else
        res_bind (fold_result (add_banner_item L version_id item_by_id) banner_items ([], []))
          (\<lambda>(item_pool, featured_by_rarity).
        res_bind (json_object L (br_theme row)) (\<lambda>theme_json.
        res_bind (theme_from_json theme_json) (\<lambda>theme.
        res_bind (banner_type_of (json_str L (br_banner_type row))) (\<lambda>btype.
        let featured = (\<lambda>r. case map_of featured_by_rarity r of None \<Rightarrow> [] | Some ids \<Rightarrow> ids);
            b = \<lparr>b_id = br_banner_id row, b_name = json_str L (br_name row),
              b_short_name = json_str L (br_short_name row), b_type = btype,
              b_description = json_str L (br_description row),
              b_featured_five_id = (case featured 5 of [] \<Rightarrow> None | i # _ \<Rightarrow> Some i),
              b_featured_four_ids = featured 4, b_item_pool = item_pool, b_theme = theme\<rparr>;
            rates = rules_for (fst (rt_rates t)) (snd (rt_rates t)) rule_set_id version_id;
            featured_rules = rules_for (fst (rt_featured t)) (snd (rt_featured t)) rule_set_id version_id;
            pity_rules = rules_for (fst (rt_pity t)) (snd (rt_pity t)) rule_set_id version_id in
        res_bind (validate_runtime_banner_config b version_id rates pity_rules) (\<lambda>_.
        res_bind (pity_group_id_from_row L (br_pity_group_id row) (br_banner_id row)) (\<lambda>pity_group_id.
        res_bind (json_int (br_version row)) (\<lambda>version_number.
          Inr \<lparr>bc_banner = b, bc_pity_group_id = pity_group_id,
            bc_banner_version_id = Some version_id, bc_version = version_number,
            bc_all_items = rt_items t, bc_item_by_id = item_by_id, bc_rarity_rates = rates,
            bc_featured_rules = featured_rules, bc_pity_rules = pity_rules,
            bc_featured_item_ids_by_rarity = featured_by_rarity\<rparr>))))))))"

record snapshot_state =
  ss_banners :: "banner list"
  ss_configs :: "(string, banner_config) dict"
  ss_schedules :: "(string, scheduled_banner_config list) dict"

text \<open>\<open>_optional_release_timestamp\<close> of a field of a banner row.\<close>

definition field_timestamp :: "'g lib \<Rightarrow> json option \<Rightarrow> string \<Rightarrow> instant option result" where
  "field_timestamp L v field_name =
     (case v of
        None \<Rightarrow> Inr None
      | Some j \<Rightarrow> res_bind (release_timestamp L j field_name) (\<lambda>t. Inr (Some t)))"

definition add_banner_row ::
    "'g lib \<Rightarrow> release_tables \<Rightarrow> instant \<Rightarrow> banner_row \<Rightarrow> snapshot_state \<Rightarrow> snapshot_state result" where
  "add_banner_row L t snapshot_time row st =
     res_bind (config_from_row L t row) (\<lambda>c.
     res_bind (field_timestamp L (br_effective_from row) ''effective_from'') (\<lambda>from_time.
     res_bind (field_timestamp L (br_effective_to row) ''effective_to'') (\<lambda>to_time.
     let b = bc_banner c;
         schedule = \<lparr>sc_config = c, sc_effective_from = from_time, sc_effective_to = to_time\<rparr>;
         st' = st\<lparr>ss_schedules := dict_append (b_id b) schedule (ss_schedules st)\<rparr> in
     res_bind (is_effective_at schedule (Aware snapshot_time)) (\<lambda>effective.
       if effective then
         (if map_of (ss_configs st') (b_id b) \<noteq> None
          then Inl (CatalogLoadError
                 (''release contains overlapping active versions for banner '' @ b_id b))
          else Inr (st'\<lparr>ss_banners := ss_banners st' @ [b],
                  ss_configs := AList.update (b_id b) c (ss_configs st')\<rparr>))
       else Inr st'))))"

text \<open>\<open>datetime.min\<close> in UTC, in microseconds.\<close>

definition datetime_min :: instant where
  "datetime_min = - 62135596800000000"

definition effective_from_key :: "scheduled_banner_config \<Rightarrow> instant" where
  "effective_from_key e = (case sc_effective_from e of None \<Rightarrow> datetime_min | Some t \<Rightarrow> t)"

record release_rows =
  rl_items :: "json list"
  rl_banners :: "banner_row list"
  rl_banner_items :: "json list"
  rl_rarity :: "json list"
  rl_featured :: "json list"
  rl_pity :: "json list"
  rl_rule_set_rarity :: "json list"
  rl_rule_set_featured :: "json list"
  rl_rule_set_pity :: "json list"

definition group_banner_items :: "'g lib \<Rightarrow> json list \<Rightarrow> (string, json list) dict result" where
  "group_banner_items L rows =
     fold_result (\<lambda>row d.
       res_bind (row_str L row ''banner_version_id'') (\<lambda>version_id. Inr (dict_append version_id row d)))
       rows []"

definition release_tables_from_rows :: "'g lib \<Rightarrow> release_rows \<Rightarrow> release_tables result" where
  "release_tables_from_rows L rows =
     res_bind (map_result (item_from_row L) (rl_items rows)) (\<lambda>items.
     res_bind (group_banner_items L (rl_banner_items rows)) (\<lambda>banner_items.
     res_bind (rarity_rates_by_owner L (rl_rarity rows) ''banner_version_id'') (\<lambda>rates.
     res_bind (featured_rules_by_owner L (rl_featured rows) ''banner_version_id'') (\<lambda>featured.
     res_bind (pity_rules_by_owner L (rl_pity rows) ''banner_version_id'') (\<lambda>pity.
     res_bind (rarity_rates_by_owner L (rl_rule_set_rarity rows) ''rule_set_id'') (\<lambda>set_rates.
     res_bind (featured_rules_by_owner L (rl_rule_set_featured rows) ''rule_set_id'') (\<lambda>set_featured.
     res_bind (pity_rules_by_owner L (rl_rule_set_pity rows) ''rule_set_id'') (\<lambda>set_pity.
       Inr \<lparr>rt_items = items, rt_banner_items = banner_items, rt_rates = (set_rates, rates),
         rt_featured = (set_featured, featured), rt_pity = (set_pity, pity)\<rparr>))))))))"

text \<open>The snapshot of the rows that have been read, each banner's schedules in the order of their start.\<close>

abbreviation snapshot_of_state ::
    "release_tables \<Rightarrow> snapshot_state \<Rightarrow> instant \<Rightarrow> string option \<Rightarrow> int option \<Rightarrow> string option
     \<Rightarrow> catalog_snapshot" where
  "snapshot_of_state t st snapshot_time release_id release_number snapshot_sha256 \<equiv>
     \<lparr>cs_source = ''postgres'', cs_loaded_at = snapshot_time, cs_items = rt_items t,
      cs_banners = ss_banners st, cs_banner_configs_by_id = ss_configs st,
      cs_banner_schedules_by_id =
        map (\<lambda>(i, entries). (i, sort_key effective_from_key entries)) (ss_schedules st),
      cs_release_id = release_id, cs_release_number = release_number,
      cs_snapshot_sha256 = snapshot_sha256\<rparr>"

definition build_snapshot ::
    "'g lib \<Rightarrow> release_rows \<Rightarrow> instant \<Rightarrow> string option \<Rightarrow> int option \<Rightarrow> string option
     \<Rightarrow> catalog_snapshot result" where
  "build_snapshot L rows snapshot_time release_id release_number snapshot_sha256 =
     res_bind (release_tables_from_rows L rows) (\<lambda>t.
     res_bind (fold_result (add_banner_row L t snapshot_time) (rl_banners rows)
         \<lparr>ss_banners = [], ss_configs = [], ss_schedules = []\<rparr>) (\<lambda>st.
       Inr (snapshot_of_state t st snapshot_time release_id release_number snapshot_sha256)))"

section \<open>Releases\<close>

text \<open>A row of the release queries.\<close>

record release_row =
  rw_release_id :: string
  rw_release_number :: "int option"
  rw_snapshot_sha256 :: "string option"
  rw_snapshot :: json
  rw_checksum_valid :: bool

text \<open>\<open>payload.get("schema_version") != 1\<close>: Python compares numbers and \<open>True\<close> by value.\<close>

definition equals_one :: "json option \<Rightarrow> bool" where
  "equals_one v \<longleftrightarrow> v = Some (JInt 1) \<or> v = Some (JFloat 1) \<or> v = Some (JBool True)"

definition get_str :: "'g lib \<Rightarrow> json \<Rightarrow> string \<Rightarrow> string" where
  "get_str L payload key = (case json_member payload key of None \<Rightarrow> [] | Some v \<Rightarrow> json_str L v)"

definition banner_row_from_version ::
    "'g lib \<Rightarrow> (string, json) dict \<Rightarrow> json \<Rightarrow> banner_row result" where
  "banner_row_from_version L banners_by_id release_version =
     res_bind (row_str L release_version ''id'') (\<lambda>version_id.
     res_bind (row_str L release_version ''banner_id'') (\<lambda>banner_id.
     case map_of banners_by_id banner_id of
       None \<Rightarrow> Inl (CatalogLoadError
         (''release version '' @ version_id @ '' references missing banner '' @ banner_id))
     | Some b \<Rightarrow>
         res_bind (json_index release_version ''version'') (\<lambda>v.
         res_bind (json_index b ''name'') (\<lambda>name.
         res_bind (json_index b ''short_name'') (\<lambda>short_name.
         res_bind (json_index b ''banner_type'') (\<lambda>btype.
         res_bind (json_index b ''description'') (\<lambda>description.
         res_bind (json_index b ''theme'') (\<lambda>theme.
           Inr \<lparr>br_banner_version_id = version_id, br_banner_id = banner_id,
             br_pity_group_id =
               (case json_member b ''pity_group_id'' of
                  None \<Rightarrow> JStr banner_id
                | Some g \<Rightarrow> (if json_truthy g then g else JStr banner_id)),
             br_rule_set_id = optional_row_value release_version ''rule_set_id'', br_version = v,
             br_name = name, br_short_name = short_name, br_banner_type = btype,
             br_description = description, br_theme = theme,
             br_effective_from = optional_row_value release_version ''effective_from'',
             br_effective_to = optional_row_value release_version ''effective_to''\<rparr>))))))))"

text \<open>\<open>version_rows\<close>: the rows of the versions of this release.\<close>

definition version_rows :: "'g lib \<Rightarrow> json \<Rightarrow> string list \<Rightarrow> string \<Rightarrow> json list result" where
  "version_rows L payload version_ids key =
     res_bind (release_array payload key) (\<lambda>rows.
       fold_result (\<lambda>row kept.
         res_bind (row_str L row ''banner_version_id'') (\<lambda>i.
           Inr (if i \<in> set version_ids then kept @ [row] else kept))) rows [])"

definition check_release_payload ::
    "'g lib \<Rightarrow> release_row \<Rightarrow> json \<Rightarrow> string \<Rightarrow> string \<Rightarrow> unit result" where
  "check_release_payload L row payload project environment =
     (if \<not> equals_one (json_member payload ''schema_version'')
      then Inl (CatalogLoadError ''unsupported gacha release snapshot schema'')
      else if ascii_lower (get_str L payload ''project_id'') \<noteq> ascii_lower project
      then Inl (CatalogLoadError ''gacha release project does not match configured project'')
      else if ascii_lower (get_str L payload ''environment_id'') \<noteq> ascii_lower environment
      then Inl (CatalogLoadError ''gacha release environment does not match configured environment'')
      else Inr ())"

definition release_number_of :: "release_row \<Rightarrow> json \<Rightarrow> int option result" where
  "release_number_of row payload =
     (case rw_release_number row of
        Some n \<Rightarrow> Inr (Some n)
      | None \<Rightarrow>
          (case optional_row_value payload ''release_number'' of
             None \<Rightarrow> Inr None
           | Some v \<Rightarrow> res_bind (json_int v) (\<lambda>n. Inr (Some n))))"

definition check_release_identity :: "'g lib \<Rightarrow> release_row \<Rightarrow> json \<Rightarrow> unit result" where
  "check_release_identity L row payload =
     (case optional_row_value payload ''release_id'' of
        None \<Rightarrow> Inr ()
      | Some v \<Rightarrow>
          (if json_str L v \<noteq> rw_release_id row
           then Inl (CatalogLoadError ''gacha release identity does not match its snapshot'')
           else Inr ()))"

definition release_rows_from_payload :: "'g lib \<Rightarrow> json \<Rightarrow> release_rows result" where
  "release_rows_from_payload L payload =
     res_bind (release_array payload ''items'') (\<lambda>items.
     res_bind (release_array payload ''banners'') (\<lambda>banners.
     res_bind (map_result (\<lambda>row. res_bind (row_str L row ''id'') (\<lambda>i. Inr (i, row))) banners) (\<lambda>keyed.
     res_bind (release_array payload ''banner_versions'') (\<lambda>versions.
     res_bind (map_result (banner_row_from_version L (dict_comp keyed)) versions) (\<lambda>banner_rows.
     let version_ids = map br_banner_version_id banner_rows in
     res_bind (version_rows L payload version_ids ''banner_items'') (\<lambda>banner_items.
     res_bind (version_rows L payload version_ids ''rarity_rates'') (\<lambda>rarity.
     res_bind (version_rows L payload version_ids ''featured_rules'') (\<lambda>featured.
     res_bind (version_rows L payload version_ids ''pity_rules'') (\<lambda>pity.
     res_bind (release_array payload ''rule_set_rarity_rates'') (\<lambda>set_rarity.
     res_bind (release_array payload ''rule_set_featured_rules'') (\<lambda>set_featured.
     res_bind (release_array payload ''rule_set_pity_rules'') (\<lambda>set_pity.
       Inr \<lparr>rl_items = items, rl_banners = banner_rows, rl_banner_items = banner_items,
         rl_rarity = rarity, rl_featured = featured, rl_pity = pity, rl_rule_set_rarity = set_rarity,
         rl_rule_set_featured = set_featured, rl_rule_set_pity = set_pity\<rparr>))))))))))))"

definition no_release_rows :: release_rows where
  "no_release_rows = \<lparr>rl_items = [], rl_banners = [], rl_banner_items = [], rl_rarity = [],
     rl_featured = [], rl_pity = [], rl_rule_set_rarity = [], rl_rule_set_featured = [],
     rl_rule_set_pity = []\<rparr>"

definition build_snapshot_from_release ::
    "'g lib \<Rightarrow> release_row option \<Rightarrow> string \<Rightarrow> string \<Rightarrow> instant \<Rightarrow> catalog_snapshot result" where
  "build_snapshot_from_release L release project environment now =
     (case release of
        None \<Rightarrow> build_snapshot L no_release_rows now None None None
      | Some row \<Rightarrow>
          (if \<not> rw_checksum_valid row
           then Inl (CatalogLoadError ''current gacha release checksum is invalid'')
           else
             res_bind (json_object L (rw_snapshot row)) (\<lambda>payload.
             res_bind (check_release_payload L row payload project environment) (\<lambda>_.
             res_bind (release_number_of row payload) (\<lambda>release_number.
             res_bind (check_release_identity L row payload) (\<lambda>_.
             res_bind (release_rows_from_payload L payload) (\<lambda>rows.
               build_snapshot L rows now (Some (rw_release_id row)) release_number
                 (rw_snapshot_sha256 row))))))))"

section \<open>The config database\<close>

text \<open>A stored release keeps its snapshot as the text that the checksum is taken of.\<close>

record stored_release =
  sr_id :: uuid
  sr_project_id :: uuid
  sr_environment_id :: uuid
  sr_release_number :: "int option"
  sr_snapshot_sha256 :: "string option"
  sr_snapshot_text :: string

record config_database =
  cd_releases :: "stored_release list"
  cd_heads :: "((uuid \<times> uuid) \<times> uuid) list"

definition release_row_of :: "'g lib \<Rightarrow> stored_release \<Rightarrow> release_row" where
  "release_row_of L r =
     \<lparr>rw_release_id = uuid_str (sr_id r), rw_release_number = sr_release_number r,
      rw_snapshot_sha256 = sr_snapshot_sha256 r, rw_snapshot = JStr (sr_snapshot_text r),
      rw_checksum_valid = (sr_snapshot_sha256 r = Some (lib_sha256 L (sr_snapshot_text r)))\<rparr>"

definition release_by_id_sql ::
    "'g lib \<Rightarrow> uuid \<Rightarrow> uuid \<Rightarrow> uuid \<Rightarrow> config_database \<Rightarrow> release_row option" where
  "release_by_id_sql L project environment release_id db =
     map_option (release_row_of L)
       (find (\<lambda>r. sr_project_id r = project \<and> sr_environment_id r = environment \<and> sr_id r = release_id)
         (cd_releases db))"

definition current_release_sql :: "'g lib \<Rightarrow> uuid \<Rightarrow> uuid \<Rightarrow> config_database \<Rightarrow> release_row option" where
  "current_release_sql L project environment db =
     (case map_of (cd_heads db) (project, environment) of
        None \<Rightarrow> None
      | Some release_id \<Rightarrow> release_by_id_sql L project environment release_id db)"

section \<open>Repositories\<close>

datatype catalog_io = Pool_Failed | Query_Failed | Query_Ok

record postgres_repository =
  pg_project_id :: string
  pg_environment_id :: string

text \<open>The parameters are cast to \<open>uuid\<close>; a text that is none fails the query.\<close>

definition pg_query ::
    "catalog_io \<Rightarrow> string \<Rightarrow> postgres_repository \<Rightarrow> (uuid \<Rightarrow> uuid \<Rightarrow> 'a result) \<Rightarrow> 'a result" where
  "pg_query io message repo query =
     (case io of
        Pool_Failed \<Rightarrow> Inl (CatalogLoadError ''connect to gacha config database failed'')
      | Query_Failed \<Rightarrow> Inl (CatalogLoadError message)
      | Query_Ok \<Rightarrow>
          (case (uuid_parse (pg_project_id repo), uuid_parse (pg_environment_id repo)) of
             (Some p, Some e) \<Rightarrow> query p e
           | _ \<Rightarrow> Inl (CatalogLoadError message)))"

definition pg_load_snapshot ::
    "'g lib \<Rightarrow> postgres_repository \<Rightarrow> config_database \<Rightarrow> catalog_io \<Rightarrow> instant \<Rightarrow> catalog_snapshot result" where
  "pg_load_snapshot L repo db io now =
     res_bind (pg_query io ''load gacha catalog from postgres failed'' repo
         (\<lambda>p e. Inr (current_release_sql L p e db)))
       (\<lambda>row. build_snapshot_from_release L row (pg_project_id repo) (pg_environment_id repo) now)"

definition pg_load_release_snapshot ::
    "'g lib \<Rightarrow> postgres_repository \<Rightarrow> config_database \<Rightarrow> catalog_io \<Rightarrow> instant \<Rightarrow> string
     \<Rightarrow> catalog_snapshot result" where
  "pg_load_release_snapshot L repo db io now release_id =
     res_bind (pg_query io ''load historical gacha release failed'' repo (\<lambda>p e.
         case uuid_parse release_id of
           None \<Rightarrow> Inl (CatalogLoadError ''load historical gacha release failed'')
         | Some i \<Rightarrow> Inr (release_by_id_sql L p e i db)))
       (\<lambda>row. case row of
          None \<Rightarrow> Inl (CatalogLoadError (''gacha release '' @ release_id @ '' was not found''))
        | Some r \<Rightarrow> build_snapshot_from_release L (Some r) (pg_project_id repo) (pg_environment_id repo) now)"

definition static_load_snapshot :: "instant \<Rightarrow> catalog_snapshot result" where
  "static_load_snapshot now = Inr (static_catalog_snapshot now)"

definition static_load_release_snapshot :: "string \<Rightarrow> catalog_snapshot result" where
  "static_load_release_snapshot release_id =
     Inl (CatalogLoadError (''static catalog has no release '' @ release_id))"

section \<open>The caching provider\<close>

record catalog_provider =
  cp_ttl_seconds :: int
  cp_snapshot :: "catalog_snapshot option"
  cp_expires_at :: instant

definition provider_init :: "int \<Rightarrow> catalog_provider" where
  "provider_init ttl_seconds =
     \<lparr>cp_ttl_seconds = max 0 ttl_seconds, cp_snapshot = None, cp_expires_at = datetime_min\<rparr>"

text \<open>\<open>load\<close> is the answer of \<open>load_snapshot\<close> of the repository.\<close>

definition provider_get_snapshot ::
    "catalog_snapshot result \<Rightarrow> instant \<Rightarrow> catalog_provider \<Rightarrow> catalog_snapshot result \<times> catalog_provider" where
  "provider_get_snapshot load now p =
     (case cp_snapshot p of
        Some s \<Rightarrow>
          (if now < cp_expires_at p then (Inr s, p)
           else case load of
             Inl e \<Rightarrow> (Inl e, p)
           | Inr t \<Rightarrow> (Inr t, p\<lparr>cp_snapshot := Some t, cp_expires_at := now + cp_ttl_seconds p * 1000000\<rparr>))
      | None \<Rightarrow>
          (case load of
             Inl e \<Rightarrow> (Inl e, p)
           | Inr t \<Rightarrow> (Inr t, p\<lparr>cp_snapshot := Some t, cp_expires_at := now + cp_ttl_seconds p * 1000000\<rparr>)))"

definition provider_get_release_snapshot ::
    "(string \<Rightarrow> catalog_snapshot result) \<Rightarrow> string \<Rightarrow> catalog_provider \<Rightarrow> catalog_snapshot result" where
  "provider_get_release_snapshot load_release release_id p =
     (case cp_snapshot p of
        Some s \<Rightarrow> (if cs_release_id s = Some release_id then Inr s else load_release release_id)
      | None \<Rightarrow> load_release release_id)"

end
