(* ===== verification/Catalog_Guarantees.thy ===== *)
theory Catalog_Guarantees
  imports Catalog_Repository Pull_Operations
begin

text \<open>
  What the catalog promises its users: a snapshot built from a published release holds checked
  configurations only, and its current configurations are the ones its schedules select. That the
  snapshot says what the release says is in \<open>Catalog_Publication\<close>.
\<close>

section \<open>Configurations of a release\<close>

lemma in_set_dict_appendD:
  "x \<in> set (dict_append k v d) \<Longrightarrow>
     x = (k, (case map_of d k of None \<Rightarrow> [] | Some vs \<Rightarrow> vs) @ [v]) \<or> x \<in> set d"
  by (simp add: dict_append_def in_set_updateD)

text \<open>What the loop over the items of a version has established.\<close>

definition pool_state_ok ::
    "(string, gacha_item) dict \<Rightarrow> string list \<times> (int, string list) dict \<Rightarrow> bool" where
  "pool_state_ok by_id = (\<lambda>(item_pool, featured).
     (\<forall>i \<in> set item_pool. map_of by_id i \<noteq> None) \<and> distinct (map fst featured) \<and>
     (\<forall>(r, ids) \<in> set featured. \<forall>i \<in> set ids.
        i \<in> set item_pool \<and> (case map_of by_id i of None \<Rightarrow> False | Some item \<Rightarrow> gi_rarity item = r)))"

lemma add_banner_item_ok:
  assumes "add_banner_item L v by_id row st = Inr st'" "pool_state_ok by_id st"
  shows "pool_state_ok by_id st'"
proof -
  obtain pool feat where st: "st = (pool, feat)" by force
  from assms(1) obtain i item fg where i: "map_of by_id i = Some item"
    and st': "st' = (pool @ [i], if json_truthy fg then dict_append (gi_rarity item) i feat else feat)"
    by (auto simp: add_banner_item_def st res_bind_Inr_iff split: option.splits)
  have old: "\<forall>(r, ids) \<in> set feat. \<forall>j \<in> set ids.
      j \<in> set pool \<and> (case map_of by_id j of None \<Rightarrow> False | Some item \<Rightarrow> gi_rarity item = r)"
    using assms(2) by (simp add: st pool_state_ok_def)
  have new: "j \<in> set (pool @ [i]) \<and>
      (case map_of by_id j of None \<Rightarrow> False | Some item \<Rightarrow> gi_rarity item = r)"
    if "(r, ids) \<in> set (dict_append (gi_rarity item) i feat)" "j \<in> set ids" for r ids j
    using in_set_dict_appendD[OF that(1)]
  proof
    assume e: "(r, ids) = (gi_rarity item, (case map_of feat (gi_rarity item) of None \<Rightarrow> [] | Some vs \<Rightarrow> vs) @ [i])"
    show ?thesis
    proof (cases "j = i")
      case True
      with e i show ?thesis by simp
    next
      case False
      with e that(2) obtain vs where "map_of feat r = Some vs" "j \<in> set vs"
        by (auto split: option.splits)
      with old show ?thesis by (auto dest!: map_of_SomeD)
    qed
  next
    assume "(r, ids) \<in> set feat"
    with old that(2) show ?thesis by auto
  qed
  have "\<forall>j \<in> set (pool @ [i]). map_of by_id j \<noteq> None"
    using assms(2) i by (auto simp: st pool_state_ok_def)
  moreover have "\<forall>(r, ids) \<in> set (snd st'). \<forall>j \<in> set ids. j \<in> set (pool @ [i]) \<and>
      (case map_of by_id j of None \<Rightarrow> False | Some item \<Rightarrow> gi_rarity item = r)"
    using new old by (cases "json_truthy fg") (fastforce simp: st')+
  moreover have "distinct (map fst (snd st'))"
    using assms(2) by (simp add: st st' pool_state_ok_def distinct_dict_append)
  ultimately show ?thesis by (simp add: pool_state_ok_def st')
qed

text \<open>The rule tables are filed by rarity.\<close>

definition filed_rules :: "('r \<Rightarrow> int) \<Rightarrow> (int, 'r) dict \<Rightarrow> bool" where
  "filed_rules rarity_of d \<longleftrightarrow> distinct (map fst d) \<and> (\<forall>(k, r) \<in> set d. rarity_of r = k)"

definition filed_owners :: "('r \<Rightarrow> int) \<Rightarrow> 'r owner_rules \<Rightarrow> bool" where
  "filed_owners rarity_of d \<longleftrightarrow> (\<forall>(i, rules) \<in> set d. filed_rules rarity_of rules)"

lemma filed_lookup:
  "filed_owners rarity_of d \<Longrightarrow> filed_rules rarity_of (case map_of d i of None \<Rightarrow> [] | Some r \<Rightarrow> r)"
  by (cases "map_of d i") (auto simp: filed_owners_def filed_rules_def dest!: map_of_SomeD)

lemma rules_by_owner_filed:
  assumes "rules_by_owner L from_row rarity_of owner_key rows = Inr d"
  shows "filed_owners rarity_of d"
proof (rule fold_result_invariant[OF assms[unfolded rules_by_owner_def]])
  fix row and d e :: "'a owner_rules"
  assume d: "filed_owners rarity_of d" and step: "res_bind (row_str L row owner_key) (\<lambda>owner.
    res_bind (from_row row) (\<lambda>rule. Inr (put_rule owner (rarity_of rule) rule d))) = Inr e"
  then obtain owner rule where e: "e = put_rule owner (rarity_of rule) rule d"
    by (auto simp: res_bind_Inr_iff)
  let ?old = "case map_of d owner of None \<Rightarrow> [] | Some r \<Rightarrow> r"
  have "filed_rules rarity_of (AList.update (rarity_of rule) rule ?old)"
    using filed_lookup[OF d, of owner]
    by (auto simp: filed_rules_def distinct_update dest!: in_set_updateD)
  with d show "filed_owners rarity_of e"
    unfolding e put_rule_def filed_owners_def by (fastforce dest!: in_set_updateD)
qed (simp add: filed_owners_def)

lemma rules_for_filed:
  assumes "filed_owners rarity_of a" "filed_owners rarity_of b"
  shows "filed_rules rarity_of (rules_for a b i v)"
proof (cases "\<exists>j r. i = Some j \<and> map_of a j = Some r")
  case True
  then obtain j r where "i = Some j" "map_of a j = Some r" by blast
  with filed_lookup[OF assms(1), of j] show ?thesis by (simp add: rules_for_def)
next
  case False
  then have "rules_for a b i v = (case map_of b v of None \<Rightarrow> [] | Some r \<Rightarrow> r)"
    by (auto simp: rules_for_def Let_def split: option.splits)
  with filed_lookup[OF assms(2), of v] show ?thesis by simp
qed

definition tables_filed :: "release_tables \<Rightarrow> bool" where
  "tables_filed t \<longleftrightarrow>
     filed_owners rr_rarity (fst (rt_rates t)) \<and> filed_owners rr_rarity (snd (rt_rates t)) \<and>
     filed_owners fr_rarity (fst (rt_featured t)) \<and> filed_owners fr_rarity (snd (rt_featured t)) \<and>
     filed_owners pu_rarity (fst (rt_pity t)) \<and> filed_owners pu_rarity (snd (rt_pity t))"

lemma release_tables_filed: "release_tables_from_rows L rows = Inr t \<Longrightarrow> tables_filed t"
  by (auto simp: release_tables_from_rows_def res_bind_Inr_iff tables_filed_def
      rarity_rates_by_owner_def featured_rules_by_owner_def pity_rules_by_owner_def
      intro: rules_by_owner_filed)

text \<open>What \<open>_build_snapshot\<close> guarantees of every configuration it makes.\<close>

definition released_config :: "string \<Rightarrow> banner_config \<Rightarrow> bool" where
  "released_config banner_id c \<longleftrightarrow>
     b_id (bc_banner c) = banner_id \<and> wf_items c \<and> wf_featured c \<and> wf_rules c \<and> filed_config c \<and>
     b_item_pool (bc_banner c) \<noteq> [] \<and>
     (\<forall>i \<in> set (b_item_pool (bc_banner c)). map_of (bc_item_by_id c) i \<noteq> None) \<and>
     bc_pity_group_id c \<noteq> [] \<and> py_strip (bc_pity_group_id c) = bc_pity_group_id c \<and>
     py_len (bc_pity_group_id c) \<le> 100"

lemma config_from_row_released:
  assumes t: "tables_filed t" and made: "config_from_row L t row = Inr c"
  shows "released_config (br_banner_id row) c"
proof -
  let ?by = "dict_comp (map (\<lambda>i. (gi_id i, i)) (rt_items t))"
  from made obtain rows pool feat rid where
    fold: "fold_result (add_banner_item L (br_banner_version_id row) ?by) rows ([], []) = Inr (pool, feat)"
    and c: "b_id (bc_banner c) = br_banner_id row" "bc_item_by_id c = ?by" "bc_all_items c = rt_items t"
      "b_item_pool (bc_banner c) = pool" "bc_featured_item_ids_by_rarity c = feat"
      "bc_rarity_rates c = rules_for (fst (rt_rates t)) (snd (rt_rates t)) rid (br_banner_version_id row)"
      "bc_featured_rules c = rules_for (fst (rt_featured t)) (snd (rt_featured t)) rid (br_banner_version_id row)"
      "bc_pity_rules c = rules_for (fst (rt_pity t)) (snd (rt_pity t)) rid (br_banner_version_id row)"
    and val: "validate_runtime_banner_config (bc_banner c) (br_banner_version_id row)
      (bc_rarity_rates c) (bc_pity_rules c) = Inr ()"
    and grp: "pity_group_id_from_row L (br_pity_group_id row) (br_banner_id row) = Inr (bc_pity_group_id c)"
    by (auto simp: config_from_row_def Let_def res_bind_Inr_iff split: if_splits)
  have ok: "pool_state_ok ?by (pool, feat)"
    by (rule fold_result_invariant[where P = "pool_state_ok ?by", OF fold])
      (simp add: pool_state_ok_def, rule add_banner_item_ok)
  have "wf_items c"
    by (auto simp: wf_items_def c dest!: in_set_dict_compD)
  moreover have "wf_featured c"
    using ok by (fastforce simp: wf_featured_def c pool_state_ok_def)
  moreover have "wf_rules c" "pool \<noteq> []"
    using val by (auto simp: validate_runtime_banner_config_def validate_rarity_def wf_rules_def c
        res_bind_Inr_iff split: if_splits)
  moreover have "bc_pity_group_id c \<noteq> [] \<and> py_strip (bc_pity_group_id c) = bc_pity_group_id c \<and>
      py_len (bc_pity_group_id c) \<le> 100"
    using grp by (auto simp: pity_group_id_from_row_def Let_def split: if_splits)
  moreover have "filed_config c"
    using t ok rules_for_filed[of rr_rarity "fst (rt_rates t)" "snd (rt_rates t)" rid "br_banner_version_id row"]
      rules_for_filed[of fr_rarity "fst (rt_featured t)" "snd (rt_featured t)" rid "br_banner_version_id row"]
      rules_for_filed[of pu_rarity "fst (rt_pity t)" "snd (rt_pity t)" rid "br_banner_version_id row"]
    by (simp add: filed_config_def c tables_filed_def filed_rules_def pool_state_ok_def)
  ultimately show ?thesis
    using ok by (simp add: released_config_def c pool_state_ok_def)
qed

section \<open>The snapshot\<close>

text \<open>
  The state of the loop over the banner rows: every schedule holds released configurations of its
  banner, and the current configuration of a banner is the one entry in force at the load time.
\<close>

definition current_configs :: "snapshot_state \<Rightarrow> instant \<Rightarrow> string \<Rightarrow> banner_config list" where
  "current_configs st now i =
     map sc_config (filter (\<lambda>e. in_window e now)
       (case map_of (ss_schedules st) i of None \<Rightarrow> [] | Some es \<Rightarrow> es))"

definition snapshot_state_ok :: "instant \<Rightarrow> snapshot_state \<Rightarrow> bool" where
  "snapshot_state_ok now st \<longleftrightarrow>
     (\<forall>i es. map_of (ss_schedules st) i = Some es \<longrightarrow>
        es \<noteq> [] \<and> (\<forall>e \<in> set es. released_config i (sc_config e))) \<and>
     (\<forall>i. current_configs st now i = (case map_of (ss_configs st) i of None \<Rightarrow> [] | Some c \<Rightarrow> [c]))"

lemma add_banner_row_cases:
  assumes "add_banner_row L t now row st = Inr st'"
  shows "\<exists>c f u. config_from_row L t row = Inr c \<and>
    field_timestamp L (br_effective_from row) ''effective_from'' = Inr f \<and>
    field_timestamp L (br_effective_to row) ''effective_to'' = Inr u \<and>
    ss_schedules st' = dict_append (b_id (bc_banner c))
      \<lparr>sc_config = c, sc_effective_from = f, sc_effective_to = u\<rparr> (ss_schedules st) \<and>
    (if in_window \<lparr>sc_config = c, sc_effective_from = f, sc_effective_to = u\<rparr> now
     then map_of (ss_configs st) (b_id (bc_banner c)) = None \<and>
       ss_configs st' = AList.update (b_id (bc_banner c)) c (ss_configs st)
     else ss_configs st' = ss_configs st)"
proof -
  from assms obtain c f u where parts: "config_from_row L t row = Inr c"
      "field_timestamp L (br_effective_from row) ''effective_from'' = Inr f"
      "field_timestamp L (br_effective_to row) ''effective_to'' = Inr u"
    by (auto simp: add_banner_row_def Let_def res_bind_Inr_iff)
  show ?thesis
    using assms by (simp add: add_banner_row_def Let_def parts is_effective_at_def split: if_splits) auto
qed

lemma add_banner_row_ok:
  assumes t: "tables_filed t" and step: "add_banner_row L t now row st = Inr st'"
    and ok: "snapshot_state_ok now st"
  shows "snapshot_state_ok now st'"
proof -
  from add_banner_row_cases[OF step] obtain c f u where conf: "config_from_row L t row = Inr c"
    and rest: "ss_schedules st' = dict_append (b_id (bc_banner c))
        \<lparr>sc_config = c, sc_effective_from = f, sc_effective_to = u\<rparr> (ss_schedules st)"
      "if in_window \<lparr>sc_config = c, sc_effective_from = f, sc_effective_to = u\<rparr> now
       then map_of (ss_configs st) (b_id (bc_banner c)) = None \<and>
         ss_configs st' = AList.update (b_id (bc_banner c)) c (ss_configs st)
       else ss_configs st' = ss_configs st"
    by blast
  let ?i = "b_id (bc_banner c)"
  let ?e = "\<lparr>sc_config = c, sc_effective_from = f, sc_effective_to = u\<rparr>"
  let ?old = "case map_of (ss_schedules st) ?i of None \<Rightarrow> [] | Some es \<Rightarrow> es"
  have rel: "released_config ?i c"
    using config_from_row_released[OF t conf] by (simp add: released_config_def)
  have sched: "map_of (ss_schedules st') = (map_of (ss_schedules st))(?i \<mapsto> ?old @ [?e])"
    using rest by (auto simp: map_of_dict_append split: if_splits)
  have conf': "map_of (ss_configs st') =
      (if in_window ?e now then (map_of (ss_configs st))(?i \<mapsto> c) else map_of (ss_configs st))"
    and free: "in_window ?e now \<Longrightarrow> map_of (ss_configs st) ?i = None"
    using rest by (auto simp: update_conv' split: if_splits)
  have "es \<noteq> [] \<and> (\<forall>e \<in> set es. released_config i (sc_config e))"
    if "map_of (ss_schedules st') i = Some es" for i es
  proof (cases "i = ?i")
    case True
    with that have es: "es = ?old @ [?e]" by (simp add: sched)
    have "\<forall>e \<in> set ?old. released_config ?i (sc_config e)"
      using ok by (cases "map_of (ss_schedules st) ?i") (simp_all add: snapshot_state_ok_def)
    with rel True show ?thesis by (simp add: es)
  next
    case False
    with that ok show ?thesis by (simp add: sched snapshot_state_ok_def)
  qed
  moreover have "current_configs st' now i = (case map_of (ss_configs st') i of None \<Rightarrow> [] | Some c \<Rightarrow> [c])" for i
  proof (cases "i = ?i")
    case True
    have "current_configs st' now i = current_configs st now ?i @ (if in_window ?e now then [c] else [])"
      by (simp add: True current_configs_def sched)
    also have "current_configs st now ?i = (case map_of (ss_configs st) ?i of None \<Rightarrow> [] | Some c \<Rightarrow> [c])"
      using ok by (simp add: snapshot_state_ok_def)
    finally show ?thesis by (simp add: True conf' free)
  next
    case False
    then have "current_configs st' now i = current_configs st now i" "map_of (ss_configs st') i = map_of (ss_configs st) i"
      by (simp_all add: current_configs_def sched conf')
    with ok show ?thesis by (simp add: snapshot_state_ok_def)
  qed
  ultimately show ?thesis by (simp add: snapshot_state_ok_def)
qed

lemma map_of_map_values: "map_of (map (\<lambda>(i, x). (i, g x)) d) i = map_option g (map_of d i)"
  by (induction d) auto

text \<open>C37: a published release yields checked configurations only, and its current configurations
  are the scheduled ones. Every configuration that a snapshot built from release rows schedules for a
  banner belongs to that banner, has the rates and pity rules of both rolled rarities, a non-empty
  pool whose items all resolve, featured items of the right rarity, rules filed under their rarity
  (so that it survives a recovery context) and a pity group id that is stripped and has 1 to 100
  characters; and looking a banner up at the load time gives the
  configuration that the snapshot lists as current, without an exception.\<close>

theorem released_configs_checked:
  assumes built: "build_snapshot L rows now release_id release_number sha = Inr s"
  shows "(\<forall>i entries e. map_of (cs_banner_schedules_by_id s) i = Some entries \<and> e \<in> set entries \<longrightarrow>
            released_config i (sc_config e)) \<and>
    (\<forall>i. banner_config_at s i (Aware now) = Inr (map_of (cs_banner_configs_by_id s) i))"
proof -
  from built obtain t st where t: "release_tables_from_rows L rows = Inr t" and loop: "fold_result (add_banner_row L t now) (rl_banners rows)
        \<lparr>ss_banners = [], ss_configs = [], ss_schedules = []\<rparr> = Inr st"
    and s: "cs_banner_configs_by_id s = ss_configs st"
      "cs_banner_schedules_by_id s = map (\<lambda>(i, entries). (i, sort_key effective_from_key entries)) (ss_schedules st)"
    by (auto simp: build_snapshot_def res_bind_Inr_iff)
  have ok: "snapshot_state_ok now st"
    by (rule fold_result_invariant[OF loop])
      (simp add: snapshot_state_ok_def current_configs_def, rule add_banner_row_ok[OF release_tables_filed[OF t]])
  have "banner_config_at s i (Aware now) = Inr (map_of (cs_banner_configs_by_id s) i)" for i
  proof (cases "map_of (ss_schedules st) i")
    case None
    then show ?thesis by (simp add: banner_config_at_def s map_of_map_values)
  next
    case (Some es)
    have cur: "map sc_config (filter (\<lambda>e. in_window e now) es)
        = (case map_of (ss_configs st) i of None \<Rightarrow> [] | Some c \<Rightarrow> [c])"
      using ok Some by (simp add: snapshot_state_ok_def current_configs_def) (metis Some option.simps(5))
    then have "length (filter (\<lambda>e. in_window e now) es) \<le> 1"
      by (cases "map_of (ss_configs st) i") (auto dest: arg_cong[where f = length])
    then have "filter (\<lambda>e. in_window e now) (sort_key effective_from_key es) = filter (\<lambda>e. in_window e now) es"
      unfolding filter_sort by (cases "filter (\<lambda>e. in_window e now) es") auto
    with Some cur ok show ?thesis
      by (auto simp: banner_config_at_def s map_of_map_values effective_configs_aware snapshot_state_ok_def
          split: option.splits)
  qed
  moreover have "released_config i (sc_config e)"
    if "map_of (cs_banner_schedules_by_id s) i = Some entries" "e \<in> set entries" for i entries e
    using ok that by (auto simp: s map_of_map_values snapshot_state_ok_def)
  ultimately show ?thesis by blast
qed

section \<open>A release with a gap\<close>

text \<open>A release with one banner whose only item has five stars, as its rows and as its config.\<close>

definition lonely_item :: gacha_item where
  "lonely_item = \<lparr>gi_id = ''i5'', gi_name = ''n'', gi_subtitle = ''s'', gi_rarity = 5, gi_type = Character,
     gi_element = ''e'', gi_role = ''r'', gi_faction = ''f'', gi_accent = ''a'', gi_quote = ''q''\<rparr>"

definition lonely_rows :: release_rows where
  "lonely_rows = no_release_rows\<lparr>
     rl_items := [JObj [(''id'', JStr ''i5''), (''name'', JStr ''n''), (''subtitle'', JStr ''s''),
       (''rarity'', JInt 5), (''item_type'', JStr ''character''), (''element'', JStr ''e''),
       (''role'', JStr ''r''), (''faction'', JStr ''f''), (''accent'', JStr ''a''), (''quote'', JStr ''q'')]],
     rl_banners := [\<lparr>br_banner_version_id = ''v'', br_banner_id = ''b'', br_pity_group_id = JStr ''b'',
       br_rule_set_id = None, br_version = JInt 1, br_name = JStr ''n'', br_short_name = JStr ''n'',
       br_banner_type = JStr ''standard'', br_description = JStr ''d'',
       br_theme = JObj [(''primary'', JStr ''p''), (''secondary'', JStr ''s''), (''glow'', JStr ''g'')],
       br_effective_from = None, br_effective_to = None\<rparr>],
     rl_banner_items := [JObj [(''banner_version_id'', JStr ''v''), (''item_id'', JStr ''i5''),
       (''featured_group'', JNull)]],
     rl_rarity := [JObj [(''banner_version_id'', JStr ''v''), (''rarity'', JInt 5),
         (''base_rate_ppm'', JInt 6000), (''roll_order'', JInt 1)],
       JObj [(''banner_version_id'', JStr ''v''), (''rarity'', JInt 4),
         (''base_rate_ppm'', JInt 51000), (''roll_order'', JInt 2)]],
     rl_pity := [JObj [(''banner_version_id'', JStr ''v''), (''rarity'', JInt 5), (''counter_key'', JStr ''k''),
         (''hard_pity'', JInt 90), (''soft_pity_start'', JNull), (''soft_pity_increment_ppm'', JInt 0),
         (''resets_lower_rarity'', JBool False)],
       JObj [(''banner_version_id'', JStr ''v''), (''rarity'', JInt 4), (''counter_key'', JStr ''k''),
         (''hard_pity'', JInt 10), (''soft_pity_start'', JNull), (''soft_pity_increment_ppm'', JInt 0),
         (''resets_lower_rarity'', JBool False)]]\<rparr>"

definition lonely_pity_rule :: "int \<Rightarrow> int \<Rightarrow> pity_rule" where
  "lonely_pity_rule rarity hard = \<lparr>pu_rarity = rarity, pu_counter_key = ''k'', pu_hard_pity = hard,
     pu_soft_pity_start = None, pu_soft_pity_increment_ppm = 0, pu_resets_lower_rarity = False\<rparr>"

definition lonely_config :: banner_config where
  "lonely_config =
     \<lparr>bc_banner = \<lparr>b_id = ''b'', b_name = ''n'', b_short_name = ''n'', b_type = Standard,
        b_description = ''d'', b_featured_five_id = None, b_featured_four_ids = [],
        b_item_pool = [''i5''], b_theme = \<lparr>bt_primary = ''p'', bt_secondary = ''s'', bt_glow = ''g''\<rparr>\<rparr>,
      bc_pity_group_id = ''b'', bc_banner_version_id = Some ''v'', bc_version = 1,
      bc_all_items = [lonely_item], bc_item_by_id = [(''i5'', lonely_item)],
      bc_rarity_rates = [(5, \<lparr>rr_rarity = 5, rr_base_rate_ppm = 6000, rr_roll_order = 1\<rparr>),
        (4, \<lparr>rr_rarity = 4, rr_base_rate_ppm = 51000, rr_roll_order = 2\<rparr>)],
      bc_featured_rules = [], bc_pity_rules = [(5, lonely_pity_rule 5 90), (4, lonely_pity_rule 4 10)],
      bc_featured_item_ids_by_rarity = []\<rparr>"

definition lonely_snapshot ::
    "instant \<Rightarrow> string option \<Rightarrow> int option \<Rightarrow> string option \<Rightarrow> catalog_snapshot" where
  "lonely_snapshot now i n sha = \<lparr>cs_source = ''postgres'', cs_loaded_at = now, cs_items = [lonely_item],
     cs_banners = [bc_banner lonely_config], cs_banner_configs_by_id = [(''b'', lonely_config)],
     cs_banner_schedules_by_id =
       [(''b'', [\<lparr>sc_config = lonely_config, sc_effective_from = None, sc_effective_to = None\<rparr>])],
     cs_release_id = i, cs_release_number = n, cs_snapshot_sha256 = sha\<rparr>"

lemmas row_eval =
  row_str_def row_int_def row_bool_def row_opt_int_def row_opt_str_def json_index_def json_member_def
  json_str_def json_int_def json_truthy_def json_object_def

lemma lonely_tables:
  "release_tables_from_rows L lonely_rows =
     Inr \<lparr>rt_items = [lonely_item],
       rt_banner_items = [(''v'', [JObj [(''banner_version_id'', JStr ''v''), (''item_id'', JStr ''i5''),
         (''featured_group'', JNull)]])],
       rt_rates = ([], [(''v'', bc_rarity_rates lonely_config)]), rt_featured = ([], []),
       rt_pity = ([], [(''v'', bc_pity_rules lonely_config)])\<rparr>"
  by (simp add: release_tables_from_rows_def lonely_rows_def no_release_rows_def lonely_item_def
      lonely_config_def lonely_pity_rule_def item_from_row_def item_type_of_def group_banner_items_def
      dict_append_def rarity_rates_by_owner_def featured_rules_by_owner_def pity_rules_by_owner_def
      rules_by_owner_def rarity_rate_from_row_def pity_rule_from_row_def put_rule_def row_eval)

lemma lonely_group: "py_strip ''b'' = ''b''" "py_len ''b'' = 1"
  by (simp_all add: hex_text_strip hex_text_def py_len_def)

lemma lonely_build: "build_snapshot L lonely_rows now i n sha = Inr (lonely_snapshot now i n sha)"
  unfolding build_snapshot_def lonely_tables res_bind_simps
  by (simp add: lonely_rows_def no_release_rows_def add_banner_row_def config_from_row_def
      dict_comp_def add_banner_item_def theme_from_json_def banner_type_of_def rules_for_def
      validate_runtime_banner_config_def validate_rarity_def pity_group_id_from_row_def
      field_timestamp_def is_effective_at_def in_window_def dict_append_def row_eval lonely_snapshot_def
      lonely_config_def lonely_item_def lonely_group Let_def)

lemma released_configs_checked_witness:
  "released_config ''b'' lonely_config \<and>
   banner_config_at (lonely_snapshot 0 None None None) ''b'' (Aware 0) = Inr (Some lonely_config)"
proof
  let ?e = "\<lparr>sc_config = lonely_config, sc_effective_from = None, sc_effective_to = None\<rparr>"
  have "map_of (cs_banner_schedules_by_id (lonely_snapshot 0 None None None)) ''b'' = Some [?e]" "?e \<in> set [?e]"
    by (simp_all add: lonely_snapshot_def)
  then have "released_config ''b'' (sc_config ?e)"
    using released_configs_checked[OF lonely_build[of sample_lib 0 None None None]] by blast
  then show "released_config ''b'' lonely_config" by simp
  show "banner_config_at (lonely_snapshot 0 None None None) ''b'' (Aware 0) = Inr (Some lonely_config)"
    using released_configs_checked[OF lonely_build[of sample_lib 0 None None None], THEN conjunct2, rule_format, of "''b''"]
    by (simp add: lonely_snapshot_def)
qed

text \<open>The gap: the config of this release is accepted, although a three star roll finds no item.\<close>

lemma lonely_gap:
  "roll_item L lonely_config 3 p g = Inl (ValueError ''cannot pick from an empty gacha pool'')"
  by (simp add: roll_item_def lonely_config_def pool_for_rarity_def lonely_item_def pick_random_def
      map_filter_def)

section \<open>Effective versions\<close>

text \<open>The test on a raw version agrees with the one on the schedule that is built from it.\<close>

lemma version_is_effective_agrees:
  assumes "version_is_effective L row now = Inr b"
    and "optional_release_timestamp L row ''effective_from'' = Inr start"
    and "optional_release_timestamp L row ''effective_to'' = Inr stop"
  shows "is_effective_at \<lparr>sc_config = c, sc_effective_from = start, sc_effective_to = stop\<rparr> (Aware now) = Inr b"
  using assms
  by (auto simp: version_is_effective_def optional_release_timestamp_def optional_row_value_def json_get_def
      json_member_def release_timestamp_def res_bind_Inr_iff is_effective_at_def in_window_def
      split: json.splits option.splits if_splits)

end
