(* ===== verification/Catalog_Publication.thy ===== *)
theory Catalog_Publication
  imports Catalog_Guarantees
begin

text \<open>
  What a published release says, and that a snapshot says the same. \<open>published\<close> relates a release
  payload to a snapshot directly: the items are the decoded item rows, every banner version is
  scheduled with the fields, pool, featured items and rules of its own rows, and the current banners
  are the versions in force at the load time. The loader of \<open>catalog_repository.py\<close>, which works through
  dictionaries by version and rule set, refines it. The caching provider then answers with published
  and fresh snapshots, for every repository that satisfies the contract \<open>release_repository\<close>, which the
  static and the Postgres repository do.
\<close>

section \<open>The contents of a release\<close>

definition payload_rows :: "json \<Rightarrow> string \<Rightarrow> json list" where
  "payload_rows payload array = (case json_member payload array of Some (JArr rows) \<Rightarrow> rows | _ \<Rightarrow> [])"

text \<open>The rows of an array that belong to one owner, in their order.\<close>

definition owned_rows :: "'g lib \<Rightarrow> json \<Rightarrow> string \<Rightarrow> string \<Rightarrow> string \<Rightarrow> json list" where
  "owned_rows L payload array owner_key owner =
     filter (\<lambda>row. get_str L row owner_key = owner) (payload_rows payload array)"

text \<open>The rules of a version are those of its rule set when that has any, else its own.\<close>

definition rule_rows :: "'g lib \<Rightarrow> json \<Rightarrow> string \<Rightarrow> json \<Rightarrow> json list" where
  "rule_rows L payload kind v =
     (let set_rows = (case optional_row_value v ''rule_set_id'' of
            None \<Rightarrow> []
          | Some i \<Rightarrow> owned_rows L payload (''rule_set_'' @ kind) ''rule_set_id'' (json_str L i)) in
      if set_rows \<noteq> [] then set_rows
      else owned_rows L payload kind ''banner_version_id'' (get_str L v ''id''))"

text \<open>A rule table holds, for each rarity, the last rule of the rows with that rarity.\<close>

definition published_rules :: "(json \<Rightarrow> 'r result) \<Rightarrow> ('r \<Rightarrow> int) \<Rightarrow> json list \<Rightarrow> (int, 'r) dict \<Rightarrow> bool" where
  "published_rules from_row rarity_of rows d \<longleftrightarrow>
     (\<exists>rules. map from_row rows = map Inr rules \<and>
        (\<forall>r. map_of d r = find (\<lambda>rule. rarity_of rule = r) (rev rules)))"

definition pool_of :: "'g lib \<Rightarrow> json list \<Rightarrow> string list" where
  "pool_of L rows = map (\<lambda>row. get_str L row ''item_id'') rows"

definition featured_of :: "'g lib \<Rightarrow> gacha_item list \<Rightarrow> json list \<Rightarrow> int \<Rightarrow> string list" where
  "featured_of L items rows r =
     pool_of L (filter (\<lambda>row. json_truthy (json_get row ''featured_group'') \<and>
       (\<exists>item. find (\<lambda>i. gi_id i = get_str L row ''item_id'') (rev items) = Some item \<and> gi_rarity item = r)) rows)"

definition published_config ::
    "'g lib \<Rightarrow> json \<Rightarrow> gacha_item list \<Rightarrow> json \<Rightarrow> json \<Rightarrow> banner_config \<Rightarrow> bool" where
  "published_config L payload items v banner_row c \<longleftrightarrow>
     (let b = bc_banner c; version_id = get_str L v ''id'';
          rows = owned_rows L payload ''banner_items'' ''banner_version_id'' version_id;
          featured = featured_of L items rows in
      bc_banner_version_id c = Some version_id \<and> json_int (json_get v ''version'') = Inr (bc_version c) \<and>
      b_id b = get_str L v ''banner_id'' \<and>
      b_name b = get_str L banner_row ''name'' \<and> b_short_name b = get_str L banner_row ''short_name'' \<and>
      b_description b = get_str L banner_row ''description'' \<and>
      banner_type_of (get_str L banner_row ''banner_type'') = Inr (b_type b) \<and>
      res_bind (json_object L (json_get banner_row ''theme'')) theme_from_json = Inr (b_theme b) \<and>
      bc_pity_group_id c =
        (if json_truthy (json_get banner_row ''pity_group_id'') then get_str L banner_row ''pity_group_id''
         else b_id b) \<and>
      bc_all_items c = items \<and> (\<forall>i. map_of (bc_item_by_id c) i = find (\<lambda>item. gi_id item = i) (rev items)) \<and>
      b_item_pool b = pool_of L rows \<and>
      (\<forall>r. (case map_of (bc_featured_item_ids_by_rarity c) r of None \<Rightarrow> [] | Some ids \<Rightarrow> ids) = featured r) \<and>
      b_featured_five_id b = (case featured 5 of [] \<Rightarrow> None | i # _ \<Rightarrow> Some i) \<and>
      b_featured_four_ids b = featured 4 \<and>
      published_rules rarity_rate_from_row rr_rarity (rule_rows L payload ''rarity_rates'' v) (bc_rarity_rates c) \<and>
      published_rules (featured_rule_from_row L) fr_rarity (rule_rows L payload ''featured_rules'' v)
        (bc_featured_rules c) \<and>
      published_rules (pity_rule_from_row L) pu_rarity (rule_rows L payload ''pity_rules'' v) (bc_pity_rules c))"

text \<open>One entry of the schedules for one banner version; its banner is the last with its id.\<close>

definition published_version ::
    "'g lib \<Rightarrow> json \<Rightarrow> gacha_item list \<Rightarrow> json \<Rightarrow> scheduled_banner_config \<Rightarrow> bool" where
  "published_version L payload items v e \<longleftrightarrow>
     (\<exists>banner_row. find (\<lambda>row. get_str L row ''id'' = get_str L v ''banner_id'')
          (rev (payload_rows payload ''banners'')) = Some banner_row \<and>
        published_config L payload items v banner_row (sc_config e)) \<and>
     optional_release_timestamp L v ''effective_from'' = Inr (sc_effective_from e) \<and>
     optional_release_timestamp L v ''effective_to'' = Inr (sc_effective_to e)"

definition published :: "'g lib \<Rightarrow> json \<Rightarrow> catalog_snapshot \<Rightarrow> bool" where
  "published L payload s \<longleftrightarrow>
     map (item_from_row L) (payload_rows payload ''items'') = map Inr (cs_items s) \<and>
     (\<exists>entries. list_all2 (published_version L payload (cs_items s)) (payload_rows payload ''banner_versions'') entries \<and>
        (\<forall>i. (case map_of (cs_banner_schedules_by_id s) i of None \<Rightarrow> [] | Some es \<Rightarrow> es) =
           sort_key effective_from_key (filter (\<lambda>e. b_id (bc_banner (sc_config e)) = i) entries)) \<and>
        cs_banners s = map (\<lambda>e. bc_banner (sc_config e)) (filter (\<lambda>e. in_window e (cs_loaded_at s)) entries) \<and>
        (\<forall>i. map_of (cs_banner_configs_by_id s) i = map_option sc_config
           (find (\<lambda>e. b_id (bc_banner (sc_config e)) = i \<and> in_window e (cs_loaded_at s)) entries)))"

section \<open>The loader refines it\<close>

lemma fold_result_snoc: "fold_result f (xs @ [x]) s = res_bind (fold_result f xs s) (f x)"
  by (induction xs arbitrary: s) (simp_all add: res_bind_def split: sum.splits)

lemma map_result_iff: "map_result f xs = Inr ys \<longleftrightarrow> map f xs = map Inr ys"
proof (induction xs arbitrary: ys)
  case (Cons x xs)
  show ?case by (auto simp: Cons_eq_map_conv simp flip: Cons.IH split: sum.splits)
qed auto

lemma row_str_get: "row_str L row k = Inr s \<Longrightarrow> get_str L row k = s"
  by (auto simp: row_str_def json_index_def get_str_def res_bind_Inr_iff split: option.splits)

lemma json_get_member: "json_get j k = (case json_member j k of None \<Rightarrow> JNull | Some v \<Rightarrow> v)"
  by (simp add: json_get_def json_member_def split: json.splits)

lemma json_index_get: "json_index j k = Inr v \<Longrightarrow> json_get j k = v"
  by (auto simp: json_index_def json_get_member split: option.splits)

lemma json_index_str: "json_index j k = Inr v \<Longrightarrow> get_str L j k = json_str L v"
  by (auto simp: json_index_def get_str_def split: option.splits)

lemma release_array_rows: "release_array payload k = Inr rows \<Longrightarrow> rows = payload_rows payload k"
  by (auto simp: release_array_def payload_rows_def split: option.splits json.splits if_splits)

lemma map_of_keyed: "map_of (rev (map (\<lambda>x. (f x, x)) xs)) k = find (\<lambda>x. f x = k) (rev xs)"
  by (induction xs rule: rev_induct) auto

abbreviation listed :: "('k, 'v list) dict \<Rightarrow> 'k \<Rightarrow> 'v list" where
  "listed d k \<equiv> (case map_of d k of None \<Rightarrow> [] | Some vs \<Rightarrow> vs)"

lemma listed_append: "listed (dict_append k v d) j = (if j = k then listed d k @ [v] else listed d j)"
  by (simp add: map_of_dict_append)

lemma version_rows_filter:
  assumes "version_rows L payload ids key = Inr rows"
  shows "rows = filter (\<lambda>row. get_str L row ''banner_version_id'' \<in> set ids) (payload_rows payload key)"
proof -
  define step where "step = (\<lambda>row kept. res_bind (row_str L row ''banner_version_id'') (\<lambda>i.
    Inr (if i \<in> set ids then kept @ [row] else kept)))"
  have "fold_result step xs [] = Inr out \<Longrightarrow>
      out = filter (\<lambda>row. get_str L row ''banner_version_id'' \<in> set ids) xs" for xs out
  proof (induction xs arbitrary: out rule: rev_induct)
    case (snoc x xs)
    then obtain kept where "fold_result step xs [] = Inr kept" "step x kept = Inr out"
      by (auto simp: fold_result_snoc res_bind_Inr_iff)
    with snoc.IH[OF this(1)] show ?case by (auto simp: step_def res_bind_Inr_iff dest!: row_str_get)
  qed simp
  moreover from assms have "fold_result step (payload_rows payload key) [] = Inr rows"
    by (auto simp: version_rows_def step_def res_bind_Inr_iff dest!: release_array_rows)
  ultimately show ?thesis by blast
qed

lemma grouped_items:
  assumes "group_banner_items L rows = Inr d"
  shows "listed d v = filter (\<lambda>row. get_str L row ''banner_version_id'' = v) rows"
  using assms
proof (induction rows arbitrary: d rule: rev_induct)
  case Nil
  then show ?case by (simp add: group_banner_items_def)
next
  case (snoc row rows)
  then obtain d0 i where "group_banner_items L rows = Inr d0" "row_str L row ''banner_version_id'' = Inr i"
      "d = dict_append i row d0"
    by (auto simp: group_banner_items_def fold_result_snoc res_bind_Inr_iff)
  with snoc.IH[OF this(1)] show ?case by (auto simp: listed_append dest!: row_str_get)
qed

text \<open>The tables of rules: an owner is in the table when it has a row, and its rules are those of its rows.\<close>

lemma published_rules_snoc:
  assumes "published_rules from_row rarity_of rows d" "from_row row = Inr rule"
  shows "published_rules from_row rarity_of (rows @ [row]) (AList.update (rarity_of rule) rule d)"
proof -
  from assms(1) obtain rules where "map from_row rows = map Inr rules"
      "\<forall>r. map_of d r = find (\<lambda>rule. rarity_of rule = r) (rev rules)"
    unfolding published_rules_def by blast
  with assms(2) show ?thesis
    unfolding published_rules_def by (intro exI[of _ "rules @ [rule]"]) (simp add: update_conv')
qed

lemma published_no_rules: "published_rules from_row rarity_of [] []"
  by (simp add: published_rules_def)

lemma owner_rules:
  assumes "rules_by_owner L from_row rarity_of key rows = Inr d"
  shows "(map_of d owner = None \<longleftrightarrow> filter (\<lambda>row. get_str L row key = owner) rows = []) \<and>
    published_rules from_row rarity_of (filter (\<lambda>row. get_str L row key = owner) rows)
      (case map_of d owner of None \<Rightarrow> [] | Some r \<Rightarrow> r)"
  using assms
proof (induction rows arbitrary: d rule: rev_induct)
  case Nil
  then show ?case by (simp add: rules_by_owner_def published_no_rules)
next
  case (snoc row rows)
  then obtain d0 o' rule where step: "rules_by_owner L from_row rarity_of key rows = Inr d0"
      "row_str L row key = Inr o'" "from_row row = Inr rule" "d = put_rule o' (rarity_of rule) rule d0"
    by (auto simp: rules_by_owner_def fold_result_snoc res_bind_Inr_iff)
  note get = row_str_get[OF step(2)]
  show ?case
  proof (cases "owner = o'")
    case True
    with snoc.IH[OF step(1)] step(3) get show ?thesis
      by (auto simp: step(4) put_rule_def update_conv' intro: published_rules_snoc)
  next
    case False
    with snoc.IH[OF step(1)] get show ?thesis by (simp add: step(4) put_rule_def update_conv')
  qed
qed

lemma rules_for_published:
  assumes set: "rules_by_owner L from_row rarity_of ''rule_set_id'' (payload_rows payload (''rule_set_'' @ kind)) = Inr a"
    and own: "rules_by_owner L from_row rarity_of ''banner_version_id''
      (filter (\<lambda>row. get_str L row ''banner_version_id'' \<in> ids) (payload_rows payload kind)) = Inr b"
    and v: "get_str L v ''id'' \<in> ids"
  shows "published_rules from_row rarity_of (rule_rows L payload kind v)
    (rules_for a b (map_option (json_str L) (optional_row_value v ''rule_set_id'')) (get_str L v ''id''))"
proof -
  let ?id = "get_str L v ''id''"
  have "filter (\<lambda>row. get_str L row ''banner_version_id'' = ?id)
      (filter (\<lambda>row. get_str L row ''banner_version_id'' \<in> ids) (payload_rows payload kind)) =
      owned_rows L payload kind ''banner_version_id'' ?id"
    using v by (auto simp: owned_rows_def intro!: filter_cong)
  with owner_rules[OF own, of ?id] have o: "published_rules from_row rarity_of
      (owned_rows L payload kind ''banner_version_id'' ?id) (case map_of b ?id of None \<Rightarrow> [] | Some r \<Rightarrow> r)" by simp
  show ?thesis
  proof (cases "optional_row_value v ''rule_set_id''")
    case None
    with o show ?thesis by (simp add: rules_for_def rule_rows_def)
  next
    case (Some i)
    with o owner_rules[OF set, of "json_str L i"] show ?thesis
      by (auto simp: rules_for_def rule_rows_def owned_rows_def Let_def split: option.splits)
  qed
qed

text \<open>The pool and the featured items of a version.\<close>

lemma added_items:
  assumes "fold_result (add_banner_item L vid (dict_comp (map (\<lambda>i. (gi_id i, i)) items))) rows ([], []) = Inr (pool, feat)"
  shows "pool = pool_of L rows \<and> (\<forall>r. listed feat r = featured_of L items rows r)"
  using assms
proof (induction rows arbitrary: pool feat rule: rev_induct)
  case Nil
  then show ?case by (simp add: pool_of_def featured_of_def)
next
  case (snoc row rows)
  let ?by = "dict_comp (map (\<lambda>i. (gi_id i, i)) items)"
  from snoc.prems obtain pool0 feat0 where 0: "fold_result (add_banner_item L vid ?by) rows ([], []) = Inr (pool0, feat0)"
    and step: "add_banner_item L vid ?by row (pool0, feat0) = Inr (pool, feat)"
    by (auto simp: fold_result_snoc res_bind_Inr_iff)
  from step obtain i item g where i: "row_str L row ''item_id'' = Inr i" "map_of ?by i = Some item"
      "json_index row ''featured_group'' = Inr g" "pool = pool0 @ [i]"
      "feat = (if json_truthy g then dict_append (gi_rarity item) i feat0 else feat0)"
    by (auto simp: add_banner_item_def res_bind_Inr_iff split: option.splits)
  have found: "find (\<lambda>x. gi_id x = i) (rev items) = Some item"
    using i(2) by (simp add: map_of_dict_comp map_of_keyed)
  from snoc.IH[OF 0] show ?case
    by (auto simp: i(4,5) pool_of_def featured_of_def listed_append found row_str_get[OF i(1)] json_index_get[OF i(3)]
        simp del: map_of_dict_append)
qed

text \<open>What the banner row of a version holds.\<close>

lemma banner_row_of_version:
  assumes "banner_row_from_version L (dict_comp keyed) v = Inr row"
    and keyed: "map (\<lambda>row. res_bind (row_str L row ''id'') (\<lambda>i. Inr (i, row))) brows = map Inr keyed"
  obtains b where "find (\<lambda>row. get_str L row ''id'' = get_str L v ''banner_id'') (rev brows) = Some b"
    "br_banner_version_id row = get_str L v ''id''" "br_banner_id row = get_str L v ''banner_id''"
    "br_version row = json_get v ''version''" "br_rule_set_id row = optional_row_value v ''rule_set_id''"
    "json_str L (br_name row) = get_str L b ''name''" "json_str L (br_short_name row) = get_str L b ''short_name''"
    "json_str L (br_banner_type row) = get_str L b ''banner_type''"
    "json_str L (br_description row) = get_str L b ''description''" "br_theme row = json_get b ''theme''"
    "br_pity_group_id row = (if json_truthy (json_get b ''pity_group_id'') then json_get b ''pity_group_id''
       else JStr (get_str L v ''banner_id''))"
    "br_effective_from row = optional_row_value v ''effective_from''"
    "br_effective_to row = optional_row_value v ''effective_to''"
proof -
  have "keyed = map (\<lambda>row. (get_str L row ''id'', row)) brows"
    using keyed
  proof (induction brows arbitrary: keyed)
    case (Cons b brows)
    then show ?case by (auto simp: Cons_eq_map_conv map_eq_Cons_conv res_bind_Inr_iff dest!: row_str_get)
  qed simp
  then have look: "map_of (dict_comp keyed) i = find (\<lambda>row. get_str L row ''id'' = i) (rev brows)" for i
    by (simp add: map_of_dict_comp map_of_keyed)
  from assms(1) obtain vid bid where ids_eq: "row_str L v ''id'' = Inr vid" "row_str L v ''banner_id'' = Inr bid"
    by (auto simp: banner_row_from_version_def res_bind_Inr_iff)
  with assms(1) obtain b where found: "map_of (dict_comp keyed) bid = Some b"
    by (cases "map_of (dict_comp keyed) bid") (simp_all add: banner_row_from_version_def)
  with assms(1) ids_eq obtain ver name short btype descr theme where
    fields: "json_index v ''version'' = Inr ver" "json_index b ''name'' = Inr name"
      "json_index b ''short_name'' = Inr short" "json_index b ''banner_type'' = Inr btype"
      "json_index b ''description'' = Inr descr" "json_index b ''theme'' = Inr theme"
    and row: "row = \<lparr>br_banner_version_id = vid, br_banner_id = bid,
             br_pity_group_id =
               (case json_member b ''pity_group_id'' of
                  None \<Rightarrow> JStr bid | Some g \<Rightarrow> (if json_truthy g then g else JStr bid)),
             br_rule_set_id = optional_row_value v ''rule_set_id'', br_version = ver,
             br_name = name, br_short_name = short, br_banner_type = btype,
             br_description = descr, br_theme = theme,
             br_effective_from = optional_row_value v ''effective_from'',
             br_effective_to = optional_row_value v ''effective_to''\<rparr>"
    unfolding banner_row_from_version_def by (auto simp: res_bind_Inr_iff)
  note ids = ids_eq[THEN row_str_get]
  note strs = fields(2-5)[THEN json_index_str]
  note gets = fields(1,6)[THEN json_index_get]
  have grp: "(case json_member b ''pity_group_id'' of None \<Rightarrow> JStr bid | Some g \<Rightarrow> (if json_truthy g then g else JStr bid)) =
      (if json_truthy (json_get b ''pity_group_id'') then json_get b ''pity_group_id'' else JStr bid)"
    by (simp add: json_get_member json_truthy_def split: option.splits)
  show thesis by (rule that[of b]) (use found in \<open>simp_all add: look ids strs gets row grp\<close>)
qed

text \<open>The tables that hold the rows of a payload.\<close>

definition tables_of_payload :: "'g lib \<Rightarrow> json \<Rightarrow> string set \<Rightarrow> release_tables \<Rightarrow> bool" where
  "tables_of_payload L payload ids t \<longleftrightarrow>
     (let own = (\<lambda>kind. filter (\<lambda>row. get_str L row ''banner_version_id'' \<in> ids) (payload_rows payload kind));
          set_rows = (\<lambda>kind. payload_rows payload (''rule_set_'' @ kind)) in
      map (item_from_row L) (payload_rows payload ''items'') = map Inr (rt_items t) \<and>
      group_banner_items L (own ''banner_items'') = Inr (rt_banner_items t) \<and>
      rules_by_owner L rarity_rate_from_row rr_rarity ''banner_version_id'' (own ''rarity_rates'') = Inr (snd (rt_rates t)) \<and>
      rules_by_owner L rarity_rate_from_row rr_rarity ''rule_set_id'' (set_rows ''rarity_rates'') = Inr (fst (rt_rates t)) \<and>
      rules_by_owner L (featured_rule_from_row L) fr_rarity ''banner_version_id'' (own ''featured_rules'')
        = Inr (snd (rt_featured t)) \<and>
      rules_by_owner L (featured_rule_from_row L) fr_rarity ''rule_set_id'' (set_rows ''featured_rules'')
        = Inr (fst (rt_featured t)) \<and>
      rules_by_owner L (pity_rule_from_row L) pu_rarity ''banner_version_id'' (own ''pity_rules'') = Inr (snd (rt_pity t)) \<and>
      rules_by_owner L (pity_rule_from_row L) pu_rarity ''rule_set_id'' (set_rows ''pity_rules'') = Inr (fst (rt_pity t)))"

lemma payload_tables:
  assumes "release_rows_from_payload L payload = Inr rows" "release_tables_from_rows L rows = Inr t"
  shows "tables_of_payload L payload (set (map br_banner_version_id (rl_banners rows))) t"
proof -
  have "rl_items rows = payload_rows payload ''items''"
    "rl_rule_set_rarity rows = payload_rows payload ''rule_set_rarity_rates''"
    "rl_rule_set_featured rows = payload_rows payload ''rule_set_featured_rules''"
    "rl_rule_set_pity rows = payload_rows payload ''rule_set_pity_rules''"
    using assms(1) by (auto simp: release_rows_from_payload_def res_bind_Inr_iff Let_def dest!: release_array_rows)
  moreover let ?own = "\<lambda>kind. filter (\<lambda>row. get_str L row ''banner_version_id'' \<in>
    set (map br_banner_version_id (rl_banners rows))) (payload_rows payload kind)"
  have "rl_banner_items rows = ?own ''banner_items''" "rl_rarity rows = ?own ''rarity_rates''"
    "rl_featured rows = ?own ''featured_rules''" "rl_pity rows = ?own ''pity_rules''"
    using assms(1)
    by (auto simp: release_rows_from_payload_def res_bind_Inr_iff Let_def simp del: set_map dest!: version_rows_filter)
  ultimately show ?thesis
    using assms(2)
    by (auto simp: tables_of_payload_def Let_def release_tables_from_rows_def res_bind_Inr_iff map_result_iff[symmetric]
        rarity_rates_by_owner_def featured_rules_by_owner_def pity_rules_by_owner_def simp del: set_map)
qed

lemma truthy_str_get: "json_truthy (json_get j k) \<Longrightarrow> json_str L (json_get j k) = get_str L j k"
  by (auto simp: json_get_member get_str_def json_truthy_def split: option.splits)

lemma group_of_row:
  "pity_group_id_from_row L (if json_truthy g then g else JStr d) d = Inr x \<Longrightarrow>
     x = (if json_truthy g then json_str L g else d)"
  by (cases g) (auto simp: pity_group_id_from_row_def Let_def json_truthy_def json_str_def split: if_splits)

lemma config_published:
  assumes made: "config_from_row L t row = Inr c"
    and row: "banner_row_from_version L (dict_comp keyed) v = Inr row"
    and keyed: "map (\<lambda>row. res_bind (row_str L row ''id'') (\<lambda>i. Inr (i, row))) (payload_rows payload ''banners'') = map Inr keyed"
    and t: "tables_of_payload L payload ids t" and vid: "get_str L v ''id'' \<in> ids"
  shows "\<exists>b. find (\<lambda>row. get_str L row ''id'' = get_str L v ''banner_id'') (rev (payload_rows payload ''banners'')) = Some b \<and>
    published_config L payload (rt_items t) v b c"
proof -
  from banner_row_of_version[OF row keyed] obtain b where
    b: "find (\<lambda>row. get_str L row ''id'' = get_str L v ''banner_id'') (rev (payload_rows payload ''banners'')) = Some b"
    and r: "br_banner_version_id row = get_str L v ''id''" "br_banner_id row = get_str L v ''banner_id''"
    "br_version row = json_get v ''version''" "br_rule_set_id row = optional_row_value v ''rule_set_id''"
    "json_str L (br_name row) = get_str L b ''name''" "json_str L (br_short_name row) = get_str L b ''short_name''"
    "json_str L (br_banner_type row) = get_str L b ''banner_type''"
    "json_str L (br_description row) = get_str L b ''description''" "br_theme row = json_get b ''theme''"
    "br_pity_group_id row = (if json_truthy (json_get b ''pity_group_id'') then json_get b ''pity_group_id''
       else JStr (get_str L v ''banner_id''))" by blast
  let ?rows = "owned_rows L payload ''banner_items'' ''banner_version_id'' (get_str L v ''id'')"
  let ?by = "dict_comp (map (\<lambda>i. (gi_id i, i)) (rt_items t))"
  let ?rid = "map_option (json_str L) (optional_row_value v ''rule_set_id'')"
  have "listed (rt_banner_items t) (get_str L v ''id'') = ?rows"
    using t vid grouped_items[of L _ "rt_banner_items t" "get_str L v ''id''"]
    by (auto simp: tables_of_payload_def owned_rows_def intro!: filter_cong)
  with made obtain pool feat where
    fold: "fold_result (add_banner_item L (get_str L v ''id'') ?by) ?rows ([], []) = Inr (pool, feat)"
    and c: "bc_banner_version_id c = Some (get_str L v ''id'')" "json_int (br_version row) = Inr (bc_version c)"
      "b_id (bc_banner c) = br_banner_id row" "b_name (bc_banner c) = json_str L (br_name row)"
      "b_short_name (bc_banner c) = json_str L (br_short_name row)"
      "b_description (bc_banner c) = json_str L (br_description row)"
      "banner_type_of (json_str L (br_banner_type row)) = Inr (b_type (bc_banner c))"
      "res_bind (json_object L (br_theme row)) theme_from_json = Inr (b_theme (bc_banner c))"
      "pity_group_id_from_row L (br_pity_group_id row) (br_banner_id row) = Inr (bc_pity_group_id c)"
      "bc_all_items c = rt_items t" "bc_item_by_id c = ?by" "b_item_pool (bc_banner c) = pool"
      "bc_featured_item_ids_by_rarity c = feat"
      "b_featured_five_id (bc_banner c) = (case listed feat 5 of [] \<Rightarrow> None | i # _ \<Rightarrow> Some i)"
      "b_featured_four_ids (bc_banner c) = listed feat 4"
      "bc_rarity_rates c = rules_for (fst (rt_rates t)) (snd (rt_rates t)) ?rid (get_str L v ''id'')"
      "bc_featured_rules c = rules_for (fst (rt_featured t)) (snd (rt_featured t)) ?rid (get_str L v ''id'')"
      "bc_pity_rules c = rules_for (fst (rt_pity t)) (snd (rt_pity t)) ?rid (get_str L v ''id'')"
    by (auto simp: config_from_row_def Let_def res_bind_Inr_iff r(1,4) split: if_splits)
  note items = added_items[OF fold]
  have "bc_pity_group_id c = (if json_truthy (json_get b ''pity_group_id'') then get_str L b ''pity_group_id''
      else b_id (bc_banner c))"
    using group_of_row[OF c(9)[unfolded r(2,10)]] by (simp add: truthy_str_get c(3) r(2))
  moreover have "published_rules rarity_rate_from_row rr_rarity (rule_rows L payload ''rarity_rates'' v) (bc_rarity_rates c)"
    "published_rules (featured_rule_from_row L) fr_rarity (rule_rows L payload ''featured_rules'' v) (bc_featured_rules c)"
    "published_rules (pity_rule_from_row L) pu_rarity (rule_rows L payload ''pity_rules'' v) (bc_pity_rules c)"
    using t unfolding c(16-18) tables_of_payload_def Let_def by (blast intro: rules_for_published[OF _ _ vid])+
  ultimately show ?thesis
    using b c(1-8,10-15) items
    by (intro exI[of _ b]) (simp add: published_config_def Let_def r map_of_dict_comp map_of_keyed)
qed

text \<open>The loop over the banner versions collects one entry each.\<close>

abbreviation entry_id :: "scheduled_banner_config \<Rightarrow> string" where
  "entry_id e \<equiv> b_id (bc_banner (sc_config e))"

definition entry_of_row :: "'g lib \<Rightarrow> release_tables \<Rightarrow> banner_row \<Rightarrow> scheduled_banner_config \<Rightarrow> bool" where
  "entry_of_row L t row e \<longleftrightarrow> config_from_row L t row = Inr (sc_config e) \<and>
     field_timestamp L (br_effective_from row) ''effective_from'' = Inr (sc_effective_from e) \<and>
     field_timestamp L (br_effective_to row) ''effective_to'' = Inr (sc_effective_to e)"

definition collected :: "instant \<Rightarrow> scheduled_banner_config list \<Rightarrow> snapshot_state \<Rightarrow> bool" where
  "collected now entries st \<longleftrightarrow>
     (\<forall>i. listed (ss_schedules st) i = filter (\<lambda>e. entry_id e = i) entries) \<and>
     ss_banners st = map (\<lambda>e. bc_banner (sc_config e)) (filter (\<lambda>e. in_window e now) entries) \<and>
     (\<forall>i. map_of (ss_configs st) i = map_option sc_config (find (\<lambda>e. entry_id e = i \<and> in_window e now) entries))"

lemma add_banner_row_collects:
  assumes step: "add_banner_row L t now row st = Inr st'" and st: "collected now entries st"
  shows "\<exists>e. entry_of_row L t row e \<and> collected now (entries @ [e]) st'"
proof -
  from add_banner_row_cases[OF step] obtain c f u where parts: "config_from_row L t row = Inr c"
      "field_timestamp L (br_effective_from row) ''effective_from'' = Inr f"
      "field_timestamp L (br_effective_to row) ''effective_to'' = Inr u" by blast
  let ?e = "\<lparr>sc_config = c, sc_effective_from = f, sc_effective_to = u\<rparr>"
  have st': "ss_schedules st' = dict_append (entry_id ?e) ?e (ss_schedules st)"
    "if in_window ?e now
     then map_of (ss_configs st) (entry_id ?e) = None \<and> ss_banners st' = ss_banners st @ [bc_banner c] \<and>
       ss_configs st' = AList.update (entry_id ?e) c (ss_configs st)
     else ss_banners st' = ss_banners st \<and> ss_configs st' = ss_configs st"
    using step by (auto simp: add_banner_row_def Let_def parts is_effective_at_def split: if_splits)
  have "collected now (entries @ [?e]) st'"
    unfolding collected_def
  proof (intro conjI allI)
    show "listed (ss_schedules st') i = filter (\<lambda>e. entry_id e = i) (entries @ [?e])" for i
      using st by (simp add: st'(1) listed_append collected_def del: map_of_dict_append)
    show "ss_banners st' = map (\<lambda>e. bc_banner (sc_config e)) (filter (\<lambda>e. in_window e now) (entries @ [?e]))"
      using st st'(2) by (auto simp: collected_def split: if_splits)
    show "map_of (ss_configs st') i =
        map_option sc_config (find (\<lambda>e. entry_id e = i \<and> in_window e now) (entries @ [?e]))" for i
      using st st'(2) by (auto simp: collected_def find_append_list update_conv' split: if_splits option.splits)
  qed
  with parts show ?thesis by (intro exI[of _ ?e]) (simp add: entry_of_row_def)
qed

lemma banner_rows_collected:
  assumes "fold_result (add_banner_row L t now) rows \<lparr>ss_banners = [], ss_configs = [], ss_schedules = []\<rparr> = Inr st"
  shows "\<exists>entries. list_all2 (entry_of_row L t) rows entries \<and> collected now entries st"
  using assms
proof (induction rows arbitrary: st rule: rev_induct)
  case Nil
  then show ?case by (auto simp: collected_def)
next
  case (snoc row rows)
  then obtain st0 where 0: "fold_result (add_banner_row L t now) rows
      \<lparr>ss_banners = [], ss_configs = [], ss_schedules = []\<rparr> = Inr st0" "add_banner_row L t now row st0 = Inr st"
    by (auto simp: fold_result_snoc res_bind_Inr_iff)
  from snoc.IH[OF 0(1)] obtain entries where "list_all2 (entry_of_row L t) rows entries" "collected now entries st0"
    by blast
  with add_banner_row_collects[OF 0(2)] show ?case by (blast intro: list_all2_appendI list_all2_Cons[THEN iffD2] list_all2_Nil[THEN iffD2])
qed

theorem build_publishes:
  assumes rows: "release_rows_from_payload L payload = Inr rows" and built: "build_snapshot L rows now i n sha = Inr s"
  shows "published L payload s"
proof -
  from built obtain t st where t: "release_tables_from_rows L rows = Inr t"
    and loop: "fold_result (add_banner_row L t now) (rl_banners rows)
        \<lparr>ss_banners = [], ss_configs = [], ss_schedules = []\<rparr> = Inr st"
    and s: "s = snapshot_of_state t st now i n sha"
    by (auto simp: build_snapshot_def res_bind_Inr_iff)
  note tables = payload_tables[OF rows t]
  from banner_rows_collected[OF loop] obtain entries where
    e: "list_all2 (entry_of_row L t) (rl_banners rows) entries" "collected now entries st" by blast
  from rows obtain keyed where
    keyed: "map (\<lambda>row. res_bind (row_str L row ''id'') (\<lambda>i. Inr (i, row))) (payload_rows payload ''banners'') = map Inr keyed"
    and vs: "map (banner_row_from_version L (dict_comp keyed)) (payload_rows payload ''banner_versions'')
      = map Inr (rl_banners rows)"
    by (auto simp: release_rows_from_payload_def res_bind_Inr_iff map_result_iff Let_def dest!: release_array_rows)
  have one: "published_version L payload (rt_items t) v e"
    if row: "banner_row_from_version L (dict_comp keyed) v = Inr row" "row \<in> set (rl_banners rows)"
      and entry: "entry_of_row L t row e" for v row e
  proof -
    from banner_row_of_version[OF row(1) keyed] have r: "br_banner_version_id row = get_str L v ''id''"
      "br_effective_from row = optional_row_value v ''effective_from''"
      "br_effective_to row = optional_row_value v ''effective_to''" by blast+
    from row(2) have "get_str L v ''id'' \<in> set (map br_banner_version_id (rl_banners rows))"
      unfolding r(1)[symmetric] by simp
    from config_published[OF _ row(1) keyed tables this] entry show ?thesis
      by (auto simp: published_version_def entry_of_row_def r optional_release_timestamp_def field_timestamp_def)
  qed
  have "list_all2 (published_version L payload (rt_items t)) (payload_rows payload ''banner_versions'') entries"
    unfolding list_all2_conv_all_nth
  proof (intro conjI allI impI)
    have len: "length (payload_rows payload ''banner_versions'') = length (rl_banners rows)"
      using arg_cong[OF vs, of length] by simp
    with e(1) show "length (payload_rows payload ''banner_versions'') = length entries"
      by (simp add: list_all2_lengthD)
    fix k assume k: "k < length (payload_rows payload ''banner_versions'')"
    have "banner_row_from_version L (dict_comp keyed) (payload_rows payload ''banner_versions'' ! k) = Inr (rl_banners rows ! k)"
      using arg_cong[OF vs, of "\<lambda>xs. xs ! k"] k len by simp
    moreover have "entry_of_row L t (rl_banners rows ! k) (entries ! k)"
      using list_all2_nthD[OF e(1), of k] k len by simp
    ultimately show "published_version L payload (rt_items t) (payload_rows payload ''banner_versions'' ! k) (entries ! k)"
      using one k len by simp
  qed
  moreover have "map (item_from_row L) (payload_rows payload ''items'') = map Inr (rt_items t)"
    using tables by (simp add: tables_of_payload_def Let_def)
  moreover have "(case map_of (map (\<lambda>(i, es). (i, sort_key effective_from_key es)) (ss_schedules st)) i of
      None \<Rightarrow> [] | Some es \<Rightarrow> es) = sort_key effective_from_key (filter (\<lambda>e. entry_id e = i) entries)" for i
    using e(2) by (auto simp: map_of_map_values collected_def simp flip: e(2)[unfolded collected_def, THEN conjunct1, rule_format]
        split: option.splits)
  ultimately show ?thesis
    using e(2) unfolding published_def s
    by (auto simp: collected_def intro!: exI[of _ entries])
qed

section \<open>The contract of a repository\<close>

text \<open>
  \<open>current w s\<close>: in the state \<open>w\<close> the repository publishes the catalog that \<open>s\<close> holds. \<open>stored w i s\<close>: it
  keeps the release \<open>i\<close>, and \<open>s\<close> holds that. \<open>clock w\<close> is the time the loader reads.
\<close>

locale release_repository =
  fixes load_snapshot :: "'w \<Rightarrow> catalog_snapshot result"
    and load_release :: "'w \<Rightarrow> string \<Rightarrow> catalog_snapshot result"
    and current :: "'w \<Rightarrow> catalog_snapshot \<Rightarrow> bool"
    and stored :: "'w \<Rightarrow> string \<Rightarrow> catalog_snapshot \<Rightarrow> bool"
    and clock :: "'w \<Rightarrow> instant"
  assumes load_current: "load_snapshot w = Inr s \<Longrightarrow> current w s \<and> cs_loaded_at s = clock w"
    and load_stored: "load_release w i = Inr s \<Longrightarrow> stored w i s"
    and current_stored: "current w s \<Longrightarrow> cs_release_id s = Some i \<Longrightarrow> stored w i s"

text \<open>A session of the provider: the calls of \<open>get_snapshot\<close>, each with the state of the repository and
  the time that the provider reads.\<close>

fun provider_session ::
    "('w \<Rightarrow> catalog_snapshot result) \<Rightarrow> ('w \<times> instant) list \<Rightarrow> catalog_provider
     \<Rightarrow> catalog_snapshot result list \<times> catalog_provider" where
  "provider_session load [] p = ([], p)"
| "provider_session load ((w, now) # calls) p =
     (let (answer, p') = provider_get_snapshot (load w) now p;
          (answers, p'') = provider_session load calls p' in (answer # answers, p''))"

definition fresh_at :: "int \<Rightarrow> instant \<Rightarrow> instant \<Rightarrow> bool" where
  "fresh_at ttl asked now \<longleftrightarrow> now < asked + max 0 ttl * 1000000"

context release_repository begin

definition loaded :: "'w \<Rightarrow> catalog_snapshot \<Rightarrow> bool" where
  "loaded w s \<longleftrightarrow> current w s \<and> cs_loaded_at s = clock w"

text \<open>A cached snapshot was loaded by one of the calls made so far, and expires after the call's time.\<close>

definition cache_ok :: "int \<Rightarrow> ('w \<times> instant) list \<Rightarrow> catalog_provider \<Rightarrow> bool" where
  "cache_ok ttl calls p \<longleftrightarrow> cp_ttl_seconds p = max 0 ttl \<and>
     (case cp_snapshot p of
        None \<Rightarrow> True
      | Some s \<Rightarrow> (\<exists>(w, asked) \<in> set calls. loaded w s \<and> cp_expires_at p = asked + max 0 ttl * 1000000))"

lemma get_snapshot_ok:
  assumes "cache_ok ttl calls p" "provider_get_snapshot (load_snapshot w) now p = (answer, p')"
  shows "cache_ok ttl (calls @ [(w, now)]) p' \<and>
    (\<forall>s. answer = Inr s \<longrightarrow> loaded w s \<or> (\<exists>(v, asked) \<in> set calls. loaded v s \<and> fresh_at ttl asked now))"
proof (cases "\<exists>s. cp_snapshot p = Some s \<and> now < cp_expires_at p")
  case True
  then obtain s where s: "cp_snapshot p = Some s" "now < cp_expires_at p" by blast
  with assms(2) have "answer = Inr s" "p' = p" by (simp_all add: provider_get_snapshot_def)
  with assms(1) s show ?thesis by (fastforce simp: cache_ok_def fresh_at_def)
next
  case False
  then have run: "provider_get_snapshot (load_snapshot w) now p =
      (case load_snapshot w of Inl e \<Rightarrow> (Inl e, p)
       | Inr t \<Rightarrow> (Inr t, p\<lparr>cp_snapshot := Some t, cp_expires_at := now + cp_ttl_seconds p * 1000000\<rparr>))"
    by (auto simp: provider_get_snapshot_def split: option.splits)
  show ?thesis
  proof (cases "load_snapshot w")
    case (Inl e)
    with assms run have "answer = Inl e" "p' = p" by simp_all
    with assms(1) show ?thesis by (auto simp: cache_ok_def split: option.splits)
  next
    case (Inr t)
    with assms run load_current[OF Inr] show ?thesis by (auto simp: cache_ok_def loaded_def)
  qed
qed

lemma session_ok:
  assumes "cache_ok ttl before p" "provider_session load_snapshot calls p = (answers, p')"
  shows "cache_ok ttl (before @ calls) p' \<and> length answers = length calls \<and>
    (\<forall>i s. i < length calls \<and> answers ! i = Inr s \<longrightarrow> loaded (fst (calls ! i)) s \<or>
       (\<exists>(v, asked) \<in> set (before @ take i calls). loaded v s \<and> fresh_at ttl asked (snd (calls ! i))))"
  using assms
proof (induction calls arbitrary: before p answers p')
  case Nil
  then show ?case by simp
next
  case (Cons call calls)
  obtain w now where call: "call = (w, now)" by force
  obtain answer p1 where one: "provider_get_snapshot (load_snapshot w) now p = (answer, p1)" by force
  obtain rest p2 where more: "provider_session load_snapshot calls p1 = (rest, p2)" by force
  from Cons.prems(2) have out: "answers = answer # rest" "p' = p2" by (simp_all add: call one more)
  note head_ok = get_snapshot_ok[OF Cons.prems(1) one]
  note tail_ok = Cons.IH[OF conjunct1[OF head_ok] more]
  have "loaded (fst ((call # calls) ! i)) s \<or> (\<exists>(v, asked) \<in> set (before @ take i (call # calls)). loaded v s \<and>
      fresh_at ttl asked (snd ((call # calls) ! i)))"
    if i: "i < length (call # calls)" "answers ! i = Inr s" for i s
  proof (cases i)
    case 0
    with i head_ok show ?thesis by (auto simp: out call)
  next
    case (Suc j)
    with i have "j < length calls" "rest ! j = Inr s" by (simp_all add: out)
    with tail_ok show ?thesis by (fastforce simp: Suc call)
  qed
  with tail_ok show ?case by (auto simp: out call)
qed

lemma release_ok:
  assumes "cache_ok ttl calls p" "provider_get_release_snapshot (load_release w) i p = Inr s"
  shows "\<exists>v \<in> insert w (fst ` set calls). stored v i s"
proof (cases "\<exists>c. cp_snapshot p = Some c \<and> cs_release_id c = Some i")
  case True
  with assms have "cp_snapshot p = Some s" "cs_release_id s = Some i"
    by (auto simp: provider_get_release_snapshot_def)
  with assms(1) show ?thesis by (fastforce simp: cache_ok_def loaded_def intro: current_stored)
next
  case False
  with assms(2) have "load_release w i = Inr s"
    by (auto simp: provider_get_release_snapshot_def split: option.splits if_splits)
  from load_stored[OF this] show ?thesis by blast
qed

end

section \<open>The repositories\<close>

text \<open>
  A snapshot of a stored release of the configured project and environment: the text of the release
  has the recorded checksum and names the project, and the snapshot says what the text says.
\<close>

definition authentic_release :: "'g lib \<Rightarrow> postgres_repository \<Rightarrow> stored_release \<Rightarrow> catalog_snapshot \<Rightarrow> bool" where
  "authentic_release L repo r s \<longleftrightarrow>
     cs_release_id s = Some (uuid_str (sr_id r)) \<and>
     uuid_parse (pg_project_id repo) = Some (sr_project_id r) \<and>
     uuid_parse (pg_environment_id repo) = Some (sr_environment_id r) \<and>
     sr_snapshot_sha256 r = Some (lib_sha256 L (sr_snapshot_text r)) \<and>
     cs_snapshot_sha256 s = sr_snapshot_sha256 r \<and>
     (\<forall>n. sr_release_number r = Some n \<longrightarrow> cs_release_number s = Some n) \<and>
     (\<exists>payload. lib_json_loads L (sr_snapshot_text r) = Some payload \<and>
        ascii_lower (get_str L payload ''project_id'') = ascii_lower (pg_project_id repo) \<and>
        ascii_lower (get_str L payload ''environment_id'') = ascii_lower (pg_environment_id repo) \<and>
        published L payload s)"

definition head_release :: "postgres_repository \<Rightarrow> config_database \<Rightarrow> stored_release \<Rightarrow> bool" where
  "head_release repo db r \<longleftrightarrow> r \<in> set (cd_releases db) \<and>
     uuid_parse (pg_project_id repo) = Some (sr_project_id r) \<and>
     uuid_parse (pg_environment_id repo) = Some (sr_environment_id r) \<and>
     map_of (cd_heads db) (sr_project_id r, sr_environment_id r) = Some (sr_id r)"

definition empty_catalog :: "catalog_snapshot \<Rightarrow> bool" where
  "empty_catalog s \<longleftrightarrow> cs_items s = [] \<and> cs_banners s = [] \<and> cs_banner_configs_by_id s = [] \<and>
     cs_banner_schedules_by_id s = [] \<and> cs_release_id s = None \<and> cs_release_number s = None \<and>
     cs_snapshot_sha256 s = None"

type_synonym config_world = "config_database \<times> catalog_io \<times> instant"

abbreviation pg_load :: "'g lib \<Rightarrow> postgres_repository \<Rightarrow> config_world \<Rightarrow> catalog_snapshot result" where
  "pg_load L repo \<equiv> (\<lambda>(db, io, now). pg_load_snapshot L repo db io now)"

abbreviation pg_load_release :: "'g lib \<Rightarrow> postgres_repository \<Rightarrow> config_world \<Rightarrow> string \<Rightarrow> catalog_snapshot result" where
  "pg_load_release L repo \<equiv> (\<lambda>(db, io, now) i. pg_load_release_snapshot L repo db io now i)"

text \<open>What the Postgres repository publishes: the head of the environment, or nothing when it has none.\<close>

definition pg_current :: "'g lib \<Rightarrow> postgres_repository \<Rightarrow> config_world \<Rightarrow> catalog_snapshot \<Rightarrow> bool" where
  "pg_current L repo w s \<longleftrightarrow>
     (\<exists>r. head_release repo (fst w) r \<and> authentic_release L repo r s) \<or>
     (\<nexists>r. head_release repo (fst w) r) \<and> empty_catalog s"

definition pg_stored :: "'g lib \<Rightarrow> postgres_repository \<Rightarrow> config_world \<Rightarrow> string \<Rightarrow> catalog_snapshot \<Rightarrow> bool" where
  "pg_stored L repo w i s \<longleftrightarrow>
     (\<exists>r \<in> set (cd_releases (fst w)). authentic_release L repo r s \<and> uuid_parse i = Some (sr_id r))"

lemma build_snapshot_fields:
  assumes "build_snapshot L rows now i n sha = Inr s"
  shows "cs_release_id s = i" "cs_snapshot_sha256 s = sha" "cs_release_number s = n" "cs_loaded_at s = now"
  using assms by (auto simp: build_snapshot_def res_bind_Inr_iff)

lemma release_snapshot_authentic:
  assumes built: "build_snapshot_from_release L (Some (release_row_of L r)) (pg_project_id repo)
      (pg_environment_id repo) now = Inr s"
    and r: "uuid_parse (pg_project_id repo) = Some (sr_project_id r)"
      "uuid_parse (pg_environment_id repo) = Some (sr_environment_id r)"
  shows "authentic_release L repo r s \<and> cs_loaded_at s = now"
proof -
  from built obtain payload n rows where valid: "rw_checksum_valid (release_row_of L r)"
    and p: "json_object L (JStr (sr_snapshot_text r)) = Inr payload"
      "check_release_payload L (release_row_of L r) payload (pg_project_id repo) (pg_environment_id repo) = Inr ()"
      "release_number_of (release_row_of L r) payload = Inr n" "release_rows_from_payload L payload = Inr rows"
    and b: "build_snapshot L rows now (Some (rw_release_id (release_row_of L r))) n
      (rw_snapshot_sha256 (release_row_of L r)) = Inr s"
    by (auto simp: build_snapshot_from_release_def res_bind_Inr_iff release_row_of_def split: if_splits)
  have "lib_json_loads L (sr_snapshot_text r) = Some payload"
    using p(1) by (auto simp: json_object_def split: option.splits json.splits)
  moreover have "ascii_lower (get_str L payload ''project_id'') = ascii_lower (pg_project_id repo)"
    "ascii_lower (get_str L payload ''environment_id'') = ascii_lower (pg_environment_id repo)"
    using p(2) by (auto simp: check_release_payload_def split: if_splits)
  moreover have "\<forall>k. sr_release_number r = Some k \<longrightarrow> n = Some k"
    using p(3) by (auto simp: release_number_of_def release_row_of_def)
  ultimately show ?thesis
    using valid r build_snapshot_fields[OF b] build_publishes[OF p(4) b]
    by (simp add: authentic_release_def release_row_of_def)
qed

lemma find_release:
  "release_by_id_sql L p e i db = Some row \<Longrightarrow>
     \<exists>r \<in> set (cd_releases db). row = release_row_of L r \<and> sr_project_id r = p \<and>
       sr_environment_id r = e \<and> sr_id r = i"
  by (auto simp: release_by_id_sql_def find_Some_iff)

lemma current_release:
  assumes "uuid_parse (pg_project_id repo) = Some p" "uuid_parse (pg_environment_id repo) = Some e"
  shows "case current_release_sql L p e db of
      None \<Rightarrow> \<nexists>r. head_release repo db r
    | Some row \<Rightarrow> \<exists>r. head_release repo db r \<and> row = release_row_of L r"
proof (cases "current_release_sql L p e db")
  case None
  then show ?thesis
    using assms
    by (auto simp: current_release_sql_def head_release_def release_by_id_sql_def find_None_iff split: option.splits)
next
  case (Some row)
  then obtain i where "map_of (cd_heads db) (p, e) = Some i" "release_by_id_sql L p e i db = Some row"
    by (auto simp: current_release_sql_def split: option.splits)
  with find_release[OF this(2)] assms show ?thesis by (auto simp: Some head_release_def)
qed

lemma nothing_released:
  "build_snapshot_from_release L None p e now = Inr s \<Longrightarrow> empty_catalog s \<and> cs_loaded_at s = now"
  by (auto simp: build_snapshot_from_release_def build_snapshot_def no_release_rows_def res_bind_Inr_iff
      release_tables_from_rows_def empty_catalog_def)

interpretation postgres_releases: release_repository
  "pg_load L repo" "pg_load_release L repo" "pg_current L repo" "pg_stored L repo" "\<lambda>(db, io, now). now" for L repo
proof
  fix w :: config_world and s
  assume load: "pg_load L repo w = Inr s"
  obtain db io now where w: "w = (db, io, now)" by (metis surj_pair)
  from load obtain p e where pe: "uuid_parse (pg_project_id repo) = Some p"
      "uuid_parse (pg_environment_id repo) = Some e"
    and b: "build_snapshot_from_release L (current_release_sql L p e db) (pg_project_id repo)
      (pg_environment_id repo) now = Inr s"
    by (auto simp: w pg_load_snapshot_def pg_query_def res_bind_Inr_iff split: catalog_io.splits option.splits)
  show "pg_current L repo w s \<and> cs_loaded_at s = (case w of (db, io, now) \<Rightarrow> now)"
  proof (cases "current_release_sql L p e db")
    case None
    with b current_release[OF pe, of db L] show ?thesis
      by (auto simp: w pg_current_def dest: nothing_released)
  next
    case (Some row)
    with current_release[OF pe, of db L] obtain r where r: "head_release repo db r" "row = release_row_of L r"
      by auto
    have "authentic_release L repo r s \<and> cs_loaded_at s = now"
      by (rule release_snapshot_authentic) (use b r in \<open>simp_all add: Some head_release_def\<close>)
    with r(1) show ?thesis by (auto simp: pg_current_def w)
  qed
next
  fix w :: config_world and i s
  assume load: "pg_load_release L repo w i = Inr s"
  obtain db io now where w: "w = (db, io, now)" by (metis surj_pair)
  from load obtain p e u row where pe: "uuid_parse (pg_project_id repo) = Some p"
      "uuid_parse (pg_environment_id repo) = Some e" "uuid_parse i = Some u"
      "release_by_id_sql L p e u db = Some row"
    and b: "build_snapshot_from_release L (Some row) (pg_project_id repo) (pg_environment_id repo) now = Inr s"
    by (auto simp: w pg_load_release_snapshot_def pg_query_def res_bind_Inr_iff
        split: catalog_io.splits option.splits)
  from find_release[OF pe(4)] obtain r where r: "r \<in> set (cd_releases db)" "row = release_row_of L r"
      "sr_project_id r = p" "sr_environment_id r = e" "sr_id r = u"
    by blast
  have "authentic_release L repo r s \<and> cs_loaded_at s = now"
    by (rule release_snapshot_authentic) (use b pe in \<open>simp_all add: r\<close>)
  with r(1,5) pe(3) show "pg_stored L repo w i s" by (auto simp: pg_stored_def w)
next
  fix w :: config_world and s i
  assume "pg_current L repo w s" "cs_release_id s = Some i"
  then show "pg_stored L repo w i s"
    by (auto simp: pg_current_def pg_stored_def empty_catalog_def authentic_release_def head_release_def uuid_parse_str)
qed

text \<open>The static repository publishes the built-in catalog and has no releases.\<close>

interpretation static_releases: release_repository
  static_load_snapshot "\<lambda>_ i. static_load_release_snapshot i" "\<lambda>now s. s = static_catalog_snapshot now"
  "\<lambda>_ _ _. False" "\<lambda>now. now"
  by unfold_locales (auto simp: static_load_snapshot_def static_load_release_snapshot_def
      static_catalog_snapshot_def)

text \<open>C36: what the service pulls on is authentic and fresh. In any session of the caching provider over
  the Postgres repository, with the config database, the outcome of every query and both clocks free at
  every call, an answered snapshot was loaded by this call, or by an earlier one whose time to live has
  not passed. At that call it was the head release of the configured project and environment, whose
  text hashes to the recorded checksum and names both, and the items, banners, schedules and rules of
  the snapshot are exactly those the text lists, with the banner versions in force at the load time as
  the current ones; or it was the empty catalog and the environment had no head release.\<close>

theorem catalog_is_authentic_and_fresh:
  assumes "provider_session (pg_load L repo) calls (provider_init ttl) = (answers, p)"
    and "i < length calls" "answers ! i = Inr s"
  shows "\<exists>j \<le> i. case calls ! j of ((db, io, load_time), asked) \<Rightarrow>
    ((\<exists>r. head_release repo db r \<and> authentic_release L repo r s) \<or>
      (\<nexists>r. head_release repo db r) \<and> empty_catalog s) \<and>
    cs_loaded_at s = load_time \<and> (j = i \<or> snd (calls ! i) < asked + max 0 ttl * 1000000)"
proof -
  have "release_repository.cache_ok (pg_current L repo) (\<lambda>(db, io, now). now) ttl [] (provider_init ttl)"
    by (simp add: postgres_releases.cache_ok_def provider_init_def)
  note answered = postgres_releases.session_ok[OF this assms(1), THEN conjunct2, THEN conjunct2,
      rule_format, OF conjI[OF assms(2,3)], unfolded append_Nil]
  then obtain j where j: "j \<le> i" "release_repository.loaded (pg_current L repo) (\<lambda>(db, io, now). now) (fst (calls ! j)) s"
      "j = i \<or> fresh_at ttl (snd (calls ! j)) (snd (calls ! i))"
  proof (elim disjE bexE)
    fix c
    assume c: "c \<in> set (take i calls)" "case c of (v, asked) \<Rightarrow> release_repository.loaded (pg_current L repo)
      (\<lambda>(db, io, now). now) v s \<and> fresh_at ttl asked (snd (calls ! i))"
    from c(1) obtain j where "j < i" "c = calls ! j"
      unfolding in_set_conv_nth length_take by auto
    with c(2) show thesis by (intro that[of j]) (auto split: prod.splits)
  qed (use that in blast)
  show ?thesis
    by (rule exI[of _ j])
      (use j in \<open>auto simp: postgres_releases.loaded_def pg_current_def fresh_at_def split: prod.splits\<close>)
qed

text \<open>A database whose head is a release with one banner, and its repository.\<close>

definition released_payload :: json where
  "released_payload = JObj
     [(''schema_version'', JInt 1), (''project_id'', JStr (uuid_str 1)), (''environment_id'', JStr (uuid_str 2)),
      (''items'', JArr (rl_items lonely_rows)),
      (''banners'', JArr [JObj [(''id'', JStr ''b''), (''name'', JStr ''n''), (''short_name'', JStr ''n''),
         (''banner_type'', JStr ''standard''), (''description'', JStr ''d''),
         (''theme'', JObj [(''primary'', JStr ''p''), (''secondary'', JStr ''s''), (''glow'', JStr ''g'')])]]),
      (''banner_versions'', JArr [JObj [(''id'', JStr ''v''), (''banner_id'', JStr ''b''), (''version'', JInt 1)]]),
      (''banner_items'', JArr (rl_banner_items lonely_rows)), (''rarity_rates'', JArr (rl_rarity lonely_rows)),
      (''featured_rules'', JArr []), (''pity_rules'', JArr (rl_pity lonely_rows)),
      (''rule_set_rarity_rates'', JArr []), (''rule_set_featured_rules'', JArr []),
      (''rule_set_pity_rules'', JArr [])]"

definition released_lib :: "nat lib" where
  "released_lib = sample_lib\<lparr>lib_json_loads := (\<lambda>_. Some released_payload)\<rparr>"

definition sample_repository :: postgres_repository where
  "sample_repository = \<lparr>pg_project_id = uuid_str 1, pg_environment_id = uuid_str 2\<rparr>"

definition sample_config_db :: config_database where
  "sample_config_db =
     \<lparr>cd_releases = [\<lparr>sr_id = 3, sr_project_id = 1, sr_environment_id = 2, sr_release_number = Some 7,
        sr_snapshot_sha256 = Some (lib_sha256 released_lib []), sr_snapshot_text = []\<rparr>],
      cd_heads = [((1, 2), 3)]\<rparr>"

definition released_snapshot :: "instant \<Rightarrow> catalog_snapshot" where
  "released_snapshot now = lonely_snapshot now (Some (uuid_str 3)) (Some 7) (Some (lib_sha256 released_lib []))"

lemma released_rows: "release_rows_from_payload L released_payload = Inr lonely_rows"
  by (simp add: released_payload_def release_rows_from_payload_def release_array_def lonely_rows_def no_release_rows_def
      banner_row_from_version_def dict_comp_def optional_row_value_def version_rows_def row_eval)

lemma released_checks:
  "check_release_payload L row released_payload (uuid_str 1) (uuid_str 2) = Inr ()"
  "check_release_identity L row released_payload = Inr ()"
  by (simp_all add: check_release_payload_def check_release_identity_def released_payload_def equals_one_def get_str_def
      json_member_def json_str_def optional_row_value_def)

lemma sample_release_builds:
  "build_snapshot_from_release released_lib (Some (release_row_of released_lib (cd_releases sample_config_db ! 0)))
     (uuid_str 1) (uuid_str 2) now = Inr (released_snapshot now)"
proof -
  have "json_object released_lib (JStr []) = Inr released_payload"
    by (simp add: json_object_def released_lib_def released_payload_def)
  then show ?thesis
    by (simp add: build_snapshot_from_release_def release_row_of_def sample_config_db_def released_checks
        release_number_of_def released_rows lonely_build released_snapshot_def)
qed

lemma sample_load:
  "pg_load_snapshot released_lib sample_repository sample_config_db Query_Ok now = Inr (released_snapshot now)"
  "pg_load_release_snapshot released_lib sample_repository sample_config_db Query_Ok now (uuid_str 3)
     = Inr (released_snapshot now)"
  using sample_release_builds[of now]
  by (simp_all add: pg_load_snapshot_def pg_load_release_snapshot_def pg_query_def sample_repository_def
      uuid_parse_str current_release_sql_def release_by_id_sql_def sample_config_db_def)

text \<open>Two calls, the second of which finds the database down but the cache still valid.\<close>

definition sample_calls :: "(config_world \<times> instant) list" where
  "sample_calls = [((sample_config_db, Query_Ok, 2), 0), ((sample_config_db, Pool_Failed, 29000001), 29000000)]"

lemma sample_provider_session:
  "provider_session (pg_load released_lib sample_repository) sample_calls (provider_init 30) =
     ([Inr (released_snapshot 2), Inr (released_snapshot 2)],
      \<lparr>cp_ttl_seconds = 30, cp_snapshot = Some (released_snapshot 2), cp_expires_at = 30000000\<rparr>)"
  by (simp add: sample_calls_def provider_get_snapshot_def provider_init_def sample_load)

lemma catalog_is_authentic_and_fresh_witness:
  "\<exists>r payload. head_release sample_repository sample_config_db r \<and>
     lib_json_loads released_lib (sr_snapshot_text r) = Some payload \<and> published released_lib payload (released_snapshot 2) \<and>
     cs_items (released_snapshot 2) = [lonely_item]"
proof -
  have "\<not> empty_catalog (released_snapshot 2)" "cs_items (released_snapshot 2) = [lonely_item]"
    by (simp_all add: empty_catalog_def released_snapshot_def lonely_snapshot_def)
  moreover have "(\<exists>j \<le> 1::nat. P j) \<longleftrightarrow> P 0 \<or> P 1" for P by (auto simp: le_Suc_eq numeral_eq_Suc)
  ultimately show ?thesis
    using catalog_is_authentic_and_fresh[OF sample_provider_session, of 1 "released_snapshot 2"]
    by (auto simp: sample_calls_def authentic_release_def)
qed

text \<open>An audit is made against the release it names. When the provider, after any session, answers
  a request for a recorded release, the snapshot says what the text of a stored release with that id
  says, of the configured project and environment and with the recorded checksum, read now or by one
  of the session's loads.\<close>

theorem audited_release_is_authentic:
  assumes "provider_session (pg_load L repo) calls (provider_init ttl) = (answers, p)"
    and "provider_get_release_snapshot (pg_load_release_snapshot L repo db io now) release_id p = Inr s"
  shows "\<exists>v \<in> insert (db, io, now) (fst ` set calls). \<exists>r \<in> set (cd_releases (fst v)).
    authentic_release L repo r s \<and> uuid_parse release_id = Some (sr_id r)"
proof -
  have "release_repository.cache_ok (pg_current L repo) (\<lambda>(db, io, now). now) ttl [] (provider_init ttl)"
    by (simp add: postgres_releases.cache_ok_def provider_init_def)
  note cached = postgres_releases.session_ok[OF this assms(1), THEN conjunct1]
  have "provider_get_release_snapshot (pg_load_release L repo (db, io, now)) release_id p = Inr s"
    using assms(2) by simp
  from postgres_releases.release_ok[OF cached this] show ?thesis by (simp add: pg_stored_def)
qed

lemma audited_release_is_authentic_witness:
  "\<exists>r \<in> set (cd_releases sample_config_db). authentic_release released_lib sample_repository r (released_snapshot 2)"
proof -
  have "provider_get_release_snapshot
      (pg_load_release_snapshot released_lib sample_repository sample_config_db Query_Ok 2) (uuid_str 3)
      \<lparr>cp_ttl_seconds = 30, cp_snapshot = Some (released_snapshot 2), cp_expires_at = 30000000\<rparr>
      = Inr (released_snapshot 2)"
    by (simp add: provider_get_release_snapshot_def sample_load)
  from audited_release_is_authentic[OF sample_provider_session this] show ?thesis by (auto simp: sample_calls_def)
qed

end
