(* ===== verification/Release_Audit.thy ===== *)
theory Release_Audit
  imports Catalog_Guarantees Pull_Service Pull_Audit Engine_Props
begin

text \<open>
  The life of a pull across the catalog, the recovery context, the engine and the audit: a response
  that the service computes for a released banner verifies against the release it names, also when
  the release is loaded again later, after its schedules have moved on.
\<close>

section \<open>Schedules do not depend on the time of loading\<close>

lemma same_schedules:
  assumes "fold_result (add_banner_row L t now1) rows st1 = Inr st1'"
    "fold_result (add_banner_row L t now2) rows st2 = Inr st2'" "ss_schedules st1 = ss_schedules st2"
  shows "ss_schedules st1' = ss_schedules st2'"
  using assms
proof (induction rows arbitrary: st1 st2)
  case Nil
  then show ?case by simp
next
  case (Cons row rows)
  then obtain a b where a: "add_banner_row L t now1 row st1 = Inr a"
      "fold_result (add_banner_row L t now1) rows a = Inr st1'"
    and b: "add_banner_row L t now2 row st2 = Inr b" "fold_result (add_banner_row L t now2) rows b = Inr st2'"
    by (auto simp: res_bind_Inr_iff)
  have "ss_schedules a = ss_schedules b"
    using add_banner_row_cases[OF a(1)] add_banner_row_cases[OF b(1)] Cons.prems(3) by auto
  then show ?case by (rule Cons.IH[OF a(2) b(2)])
qed

text \<open>Lookups of a release depend on the time looked up, not on the time it was loaded.\<close>

lemma release_lookup:
  assumes 1: "build_snapshot L rows now1 i n sha = Inr s1" and 2: "build_snapshot L rows now2 i n sha = Inr s2"
    and found: "banner_config_at s1 b (Aware t) = Inr (Some c)"
  shows "banner_config_at s2 b (Aware t) = Inr (Some c)" "released_config b c"
proof -
  from 1 obtain tb st1 where tb: "release_tables_from_rows L rows = Inr tb"
    and l1: "fold_result (add_banner_row L tb now1) (rl_banners rows)
      \<lparr>ss_banners = [], ss_configs = [], ss_schedules = []\<rparr> = Inr st1"
    and s1: "cs_banner_configs_by_id s1 = ss_configs st1" "cs_banner_schedules_by_id s1 =
      map (\<lambda>(i, entries). (i, sort_key effective_from_key entries)) (ss_schedules st1)"
    by (auto simp: build_snapshot_def res_bind_Inr_iff)
  from 2 tb obtain st2 where
    l2: "fold_result (add_banner_row L tb now2) (rl_banners rows)
      \<lparr>ss_banners = [], ss_configs = [], ss_schedules = []\<rparr> = Inr st2"
    and s2: "cs_banner_schedules_by_id s2 =
      map (\<lambda>(i, entries). (i, sort_key effective_from_key entries)) (ss_schedules st2)"
    by (auto simp: build_snapshot_def res_bind_Inr_iff)
  have ok: "snapshot_state_ok now1 st1"
    by (rule fold_result_invariant[OF l1])
      (simp add: snapshot_state_ok_def current_configs_def, rule add_banner_row_ok[OF release_tables_filed[OF tb]])
  have same: "cs_banner_schedules_by_id s2 = cs_banner_schedules_by_id s1"
    using same_schedules[OF l1 l2] by (simp add: s1 s2)
  have scheduled: "map_of (ss_schedules st1) b \<noteq> None"
  proof
    assume none: "map_of (ss_schedules st1) b = None"
    then have "map_of (ss_configs st1) b = Some c"
      using found by (simp add: banner_config_at_def s1 map_of_map_values)
    moreover have "current_configs st1 now1 b = (case map_of (ss_configs st1) b of None \<Rightarrow> [] | Some c \<Rightarrow> [c])"
      using ok by (simp add: snapshot_state_ok_def)
    ultimately show False using none by (simp add: current_configs_def)
  qed
  then obtain es where es: "map_of (ss_schedules st1) b = Some es" by auto
  with ok have es_ok: "es \<noteq> []" "\<forall>e \<in> set es. released_config b (sc_config e)"
    by (auto simp: snapshot_state_ok_def)
  let ?es = "sort_key effective_from_key es"
  have sched: "map_of (cs_banner_schedules_by_id s1) b = Some ?es" "?es \<noteq> []"
    using es es_ok(1) by (simp_all add: s1 map_of_map_values)
      (metis length_0_conv length_sort)
  then show "banner_config_at s2 b (Aware t) = Inr (Some c)"
    using found by (simp add: banner_config_at_def same)
  have "c \<in> sc_config ` set ?es"
    using found sched
    by (auto simp: banner_config_at_def effective_configs_aware split: if_splits list.splits)
      (metis (no_types, lifting) filter_is_subset image_eqI list.set_intros(1) list.set_map set_sort subsetD)
  with es_ok(2) show "released_config b c" by auto
qed

section \<open>Responses of the service verify\<close>

lemma perform_pulls_records:
  assumes "perform_pulls L c count p seed = Inr (recs, q)"
  shows "length recs = nat count" "recs \<noteq> [] \<Longrightarrow> pr_banner_id (hd recs) = b_id (bc_banner c)"
proof -
  show "length recs = nat count"
    using assms by (auto simp: perform_pulls_def pulls_from_length split: sum.splits)
  show "pr_banner_id (hd recs) = b_id (bc_banner c)" if "recs \<noteq> []"
  proof -
    from that have "0 < length recs" by simp
    from perform_pulls_nth[OF assms this] obtain a b d e where
      "pull_step L c seed (int 0) a b = Inr (recs ! 0, d, e)" by blast
    then have "pr_banner_id (recs ! 0) = b_id (bc_banner c)" by (rule pull_step_InrE)
    with that show ?thesis by (simp add: hd_conv_nth)
  qed
qed

text \<open>C17: the audit of an honest pull succeeds, now and later. When the service accepts a pull at
  time \<open>t\<close> on a banner of a release, freezes the configuration and the audit metadata into the
  recovery context, and computes the response from it, the verifier answers "verified" for that
  response against the same release loaded at any other time, even if by then the banner has ended or
  another version of it is in force.\<close>

theorem honest_pull_is_verified:
  assumes loads: "build_snapshot L rows now (Some i) (Some n) (Some sha) = Inr s"
      "build_snapshot L rows later (Some i) (Some n) (Some sha) = Inr s'"
    and found: "banner_config_at s banner_id (Aware t) = Inr (Some c)"
    and audit: "build_pull_audit_metadata L s c engine_version build_sha = Inr a"
    and ctx: "from_banner_config c count seed event_id amount request_id (Some (Aware t)) (Some a) = Inr x"
    and pull: "generate_pull L user x previous = Inr (next_state, response, ev)"
  shows "\<exists>v. verify_pull_response L response s' = Inr v \<and> vr_status v = Verified \<and> vr_mismatches v = []"
proof -
  from release_lookup[OF loads found] have later: "banner_config_at s' banner_id (Aware t) = Inr (Some c)"
    and rel: "released_config banner_id c" by blast+
  then have filed: "filed_config c" and bid: "b_id (bc_banner c) = banner_id"
    by (simp_all add: released_config_def)
  note f = from_banner_config_fields[OF ctx]
  from pull obtain recs where run: "perform_pulls L (to_banner_config x) (rc_count x)
      (without_version previous) (rc_seed x) = Inr (recs, next_state)"
    and valid: "pity_snapshot_valid (with_version next_state (version previous + 1))"
    and resp: "response = pull_response_of x recs previous (with_version next_state (version previous + 1))"
    by (auto simp: generate_pull_def Let_def split: sum.splits if_splits)
  have same: "perform_pulls L (to_banner_config x) = perform_pulls L c"
    by (rule config_equiv_perform_pulls[OF from_banner_config_equiv[OF filed ctx]])
  have count: "1 \<le> count" using f(1,11) by (auto simp: recovery_context_valid_def)
  have run': "perform_pulls L c count (without_version previous) seed = Inr (recs, next_state)"
    using run f by (simp add: same)
  have "recs \<noteq> []" using perform_pulls_records(1)[OF run'] count by auto
  then have recs: "length recs = nat count" "recs \<noteq> []" "pr_banner_id (hd recs) = banner_id"
    using perform_pulls_records[OF run'] bid by simp_all
  have ids: "cs_release_id s' = Some i" "cs_release_number s' = Some n" "cs_snapshot_sha256 s' = Some sha"
      "cs_release_id s = Some i" "cs_release_number s = Some n" "cs_snapshot_sha256 s = Some sha"
    using loads by (auto simp: build_snapshot_def res_bind_Inr_iff)
  have a: "am_release_id a = Some i" "am_release_number a = Some n" "am_release_snapshot_sha256 a = Some sha"
    "am_banner_version_id a = bc_banner_version_id c" "am_banner_config_sha256 a = banner_config_sha256 L c"
    "am_rng_algorithm_version a = rng_algorithm_version"
    using audit by (auto simp: build_pull_audit_metadata_def ids Let_def split: if_splits)
  have "faithful_replay L response s'"
    unfolding faithful_replay_def
    by (rule exI[of _ a], rule exI[of _ "Aware t"], rule exI[of _ c], rule exI[of _ next_state])
       (use recs count run' valid later f in \<open>simp add: resp pull_response_of_def a ids
         immutable_release_identity_def failed_identity_checks version_with_version\<close>)
  then obtain v where v: "verify_pull_response L response s' = Inr v" "vr_status v = Verified"
    using verify_pull_response_verified_iff by blast
  moreover have "vr_mismatches v = []"
    using v by (auto simp: verify_pull_response_def early_verdict_def Let_def
        split: option.splits list.splits if_splits sum.splits prod.splits)
  ultimately show ?thesis by blast
qed

text \<open>A pull at hard pity on the one item release, audited after a second load.\<close>

definition lonely_audit :: pull_audit_metadata where
  "lonely_audit = \<lparr>am_schema_version = 1, am_release_id = Some ''r'', am_release_number = Some 1,
     am_release_snapshot_sha256 = Some (lib_sha256 sample_lib []), am_banner_version_id = Some ''v'',
     am_banner_config_sha256 = banner_config_sha256 sample_lib lonely_config,
     am_rng_algorithm_version = rng_algorithm_version, am_engine_version = ''1'',
     am_engine_build_sha = ''b''\<rparr>"

lemma lonely_audit_built:
  "build_pull_audit_metadata sample_lib (lonely_snapshot now (Some ''r'') (Some 1) (Some (lib_sha256 sample_lib [])))
     lonely_config ''1'' ''b'' = Inr lonely_audit"
  using sample_sha_lawful
  by (simp add: build_pull_audit_metadata_def lonely_snapshot_def lonely_audit_def audit_metadata_valid_def
      Let_def sha_lawful_def banner_config_sha256_def, simp add: lonely_config_def)

definition lonely_context :: "pull_audit_metadata option \<Rightarrow> pull_recovery_context" where
  "lonely_context a = \<lparr>rc_banner = bc_banner lonely_config, rc_pity_group_id = ''b'',
     rc_banner_version_id = Some ''v'', rc_banner_version = 1, rc_items = [lonely_item],
     rc_rarity_rates = map (freeze_rate \<circ> snd) (dict_sorted (bc_rarity_rates lonely_config)),
     rc_featured_rules = [], rc_pity_rules = map (freeze_pity \<circ> snd) (dict_sorted (bc_pity_rules lonely_config)),
     rc_featured_item_ids_by_rarity = [], rc_count = 1, rc_seed = ''s'', rc_event_id = 7,
     rc_amount_minor = 160, rc_request_id = [], rc_accepted_at = Some (Aware 5), rc_audit = a\<rparr>"

lemma lonely_frozen:
  "from_banner_config lonely_config 1 ''s'' (uuid_str 7) 160 [] (Some (Aware 5)) a = Inr (lonely_context a)"
  unfolding from_banner_config_def uuid_parse_str Let_def
  by (simp add: lonely_context_def recovery_context_valid_def restore_group_def py_len_def,
      simp add: lonely_config_def dict_sorted_def dict_comp_def)

definition unlucky_pity :: pity_snapshot where
  "unlucky_pity = with_version \<lparr>since_five = 89, since_four = 0, guaranteed_featured_five = False\<rparr> 4"

lemma lonely_thawed:
  "perform_pulls L (to_banner_config (lonely_context a)) = perform_pulls L lonely_config"
proof -
  have "filed_config lonely_config"
    by (simp add: filed_config_def lonely_config_def lonely_pity_rule_def lonely_item_def dict_comp_def)
  from from_banner_config_equiv[OF this lonely_frozen] show ?thesis by (rule config_equiv_perform_pulls)
qed

lemma lonely_five:
  assumes "since_five p = 89" "since_four p = 0"
  shows "\<exists>r. perform_pulls sample_lib lonely_config 1 p seed =
    Inr ([r], p\<lparr>since_five := 0, since_four := 1, guaranteed_featured_five := False\<rparr>)"
proof -
  have "roll_rarity sample_lib lonely_config p g = Inr (5, g)" for g
    using assms by (simp add: roll_rarity_def lonely_config_def lonely_pity_rule_def)
  moreover have "\<exists>g'. roll_item sample_lib lonely_config 5 p g = Inr (lonely_item, g')" for g
    by (simp add: roll_item_def lonely_config_def pool_for_rarity_def lonely_item_def pick_random_def
        map_filter_def sample_lib_def)
  then obtain h where "roll_item sample_lib lonely_config 5 p g = Inr (lonely_item, h g)" for g by metis
  moreover have "pity_after lonely_config 5 f p =
      Inr (p\<lparr>since_five := 0, since_four := 1, guaranteed_featured_five := False\<rparr>)" for f
    using assms by (simp add: pity_after_def lonely_config_def lonely_pity_rule_def next_featured_guarantee_def)
  ultimately show ?thesis
    by (simp add: perform_pulls_def pull_step_def Let_def)
qed

lemma lonely_pull:
  "\<exists>st resp ev. generate_pull sample_lib 2 (lonely_context a) unlucky_pity = Inr (st, resp, ev)"
proof -
  let ?p = "without_version unlucky_pity"
  have p: "since_five ?p = 89" "since_four ?p = 0" by (simp_all add: unlucky_pity_def without_with_version)
  have x: "rc_count (lonely_context a) = 1" by (simp add: lonely_context_def)
  show ?thesis
    using lonely_five[OF p, of "rc_seed (lonely_context a)"]
    by (auto simp: generate_pull_def lonely_thawed x Let_def pity_snapshot_valid_def unlucky_pity_def
        with_version_def)
qed

lemma honest_pull_is_verified_witness:
  "\<exists>response v. verify_pull_response sample_lib response
       (lonely_snapshot 9 (Some ''r'') (Some 1) (Some (lib_sha256 sample_lib []))) = Inr v \<and>
     vr_status v = Verified \<and> re_records response \<noteq> []"
proof -
  obtain st response ev where
    pull: "generate_pull sample_lib 2 (lonely_context (Some lonely_audit)) unlucky_pity = Inr (st, response, ev)"
    using lonely_pull by blast
  have "banner_config_at (lonely_snapshot 3 (Some ''r'') (Some 1) (Some (lib_sha256 sample_lib []))) ''b''
      (Aware 5) = Inr (Some lonely_config)"
    by (simp add: banner_config_at_def lonely_snapshot_def is_effective_at_def in_window_def)
  from honest_pull_is_verified[OF lonely_build lonely_build this lonely_audit_built lonely_frozen pull]
  obtain v where v: "verify_pull_response sample_lib response
       (lonely_snapshot 9 (Some ''r'') (Some 1) (Some (lib_sha256 sample_lib []))) = Inr v" "vr_status v = Verified"
    by blast
  then have "re_records response \<noteq> []"
    by (auto simp: verify_pull_response_def early_verdict_def split: option.splits)
  with v show ?thesis by blast
qed

end
