(* ===== verification/Recovery.thy ===== *)
theory Recovery
  imports Pull_Service
begin

text \<open>
  The recovery worker of \<open>main.py\<close>: expired processing claims are taken over and executed again,
  pending events are published and confirmed with the backpack service, pending refunds are paid.
  Each loop body is a definition; \<open>run_pull_recovery_worker\<close>, which never ends, is modelled by any
  number of its iterations. Log lines are not modelled; cancellation is the end of the iterations.
\<close>

section \<open>Loops and handlers\<close>

text \<open>\<open>for record in records\<close> with a counter of the bodies that reach \<open>recovered_count += 1\<close>.\<close>

fun recover_each :: "('r \<Rightarrow> bool svc) \<Rightarrow> 'r list \<Rightarrow> nat \<Rightarrow> nat svc" where
  "recover_each step [] recovered_count = eff_return recovered_count"
| "recover_each step (record # records) recovered_count =
     eff_bind (step record) (\<lambda>recovered.
       recover_each step records (if recovered then recovered_count + 1 else recovered_count))"

text \<open>\<open>try: body; recovered_count += 1\<close>, every exception logged.\<close>

definition recovered :: "'a svc \<Rightarrow> bool svc" where
  "recovered body = eff_catch (eff_then body (eff_return True)) (\<lambda>_. eff_return False)"

text \<open>A store error answered by a value.\<close>

definition on_store_error_value :: "'a \<Rightarrow> 'a svc \<Rightarrow> 'a svc" where
  "on_store_error_value v m =
     eff_catch m (\<lambda>e. case e of GachaStateStoreError _ \<Rightarrow> eff_return v | _ \<Rightarrow> eff_raise e)"

text \<open>The scan that opens a pass: a store error ends the pass with a count of zero.\<close>

definition recover_scanned ::
    "pull_operation_record list svc \<Rightarrow> (pull_operation_record \<Rightarrow> bool svc) \<Rightarrow> nat svc" where
  "recover_scanned scan step = eff_bind (on_store_error_value [] scan) (\<lambda>records. recover_each step records 0)"

section \<open>Expired processing claims\<close>

definition recover_expired_step ::
    "'g services \<Rightarrow> int \<Rightarrow> pull_operation_record \<Rightarrow> bool svc" where
  "recover_expired_step S processing_lease_seconds record =
     (if po_status (or_operation record) \<noteq> Processing \<or> po_recovery_context (or_operation record) = None
      then eff_return False
      else
        eff_bind (on_store_error_value None
            (st_claim_expired_processing (sv_env S) (or_operation_key record) processing_lease_seconds))
          (\<lambda>claim. case claim of
             None \<Rightarrow> eff_return False
           | Some cl \<Rightarrow>
               (case po_recovery_context (rcl_operation cl) of
                  None \<Rightarrow> eff_return False
                | Some x \<Rightarrow>
                    recovered (execute_claimed_pull S (rcl_user_id cl) (rcl_operation_key cl)
                      (po_request_hash (rcl_operation cl)) (rcl_processing_token cl) x))))"

definition recover_expired_processing_pulls_once :: "'g services \<Rightarrow> int \<Rightarrow> int \<Rightarrow> nat svc" where
  "recover_expired_processing_pulls_once S limit processing_lease_seconds =
     recover_scanned (st_iter_expired_processing (sv_env S) limit)
       (recover_expired_step S processing_lease_seconds)"

section \<open>Pending events\<close>

definition deliver_pull_event ::
    "'g services \<Rightarrow> pull_operation_record \<Rightarrow> pull_response \<Rightarrow> pull_completed_event \<Rightarrow> unit svc" where
  "deliver_pull_event S record response ev =
     (let po = or_operation record; E = sv_env S;
          save = (\<lambda>st. st_save_by_key E (or_operation_key record)
            (operation_with st (po_request_hash po) (Some response) (Some ev))) in
      if po_status po = Event_Pending
      then eff_then (publish_pull_completed_with_retry S ev) (save Event_Published)
      else case sv_backpack_receipt_client S of
        None \<Rightarrow> eff_raise (BackpackReceiptError 503 ''backpack_receipt_unconfigured''
                  ''backpack receipt client is not configured'')
      | Some c \<Rightarrow>
          (case uuid_parse (ev_event_id ev) of
             None \<Rightarrow> eff_raise (ValueError ''badly formed hexadecimal UUID string'')
           | Some event_id \<Rightarrow>
               eff_bind (has_pull_event E (sv_lib S) c (or_user_id record) event_id) (\<lambda>reward_applied.
                 if reward_applied then save Succeeded
                 else publish_pull_completed_with_retry S ev)))"

text \<open>Claim the recovery lock, run the body, release the lock whatever happened.\<close>

definition with_recovery_lock ::
    "'g services \<Rightarrow> int \<Rightarrow> pull_operation_record \<Rightarrow> pull_operation_status \<Rightarrow> 'a svc \<Rightarrow> bool svc" where
  "with_recovery_lock S lock_ttl_seconds record expected body =
     eff_bind (on_store_error_value False
         (st_claim_recovery (sv_env S) (or_operation_key record) expected lock_ttl_seconds))
       (\<lambda>claimed.
          if \<not> claimed then eff_return False
          else eff_finally (recovered body)
                 (ignore_store_error (st_release_recovery (sv_env S) (or_operation_key record))))"

definition recover_event_step :: "'g services \<Rightarrow> int \<Rightarrow> pull_operation_record \<Rightarrow> bool svc" where
  "recover_event_step S lock_ttl_seconds record =
     (let po = or_operation record in
      if po_status po \<noteq> Event_Pending \<and> po_status po \<noteq> Event_Published then eff_return False
      else case (po_response po, po_event po) of
        (Some response, Some ev) \<Rightarrow>
          with_recovery_lock S lock_ttl_seconds record (po_status po)
            (deliver_pull_event S record response ev)
      | _ \<Rightarrow> eff_return False)"

definition recover_pending_pull_events_once :: "'g services \<Rightarrow> int \<Rightarrow> int \<Rightarrow> nat svc" where
  "recover_pending_pull_events_once S limit lock_ttl_seconds =
     recover_scanned (st_iter_event_pending (sv_env S) limit) (recover_event_step S lock_ttl_seconds)"

section \<open>Pending refunds\<close>

definition recover_refund_step :: "'g services \<Rightarrow> int \<Rightarrow> pull_operation_record \<Rightarrow> bool svc" where
  "recover_refund_step S lock_ttl_seconds record =
     (let po = or_operation record in
      case po_recovery_context po of
        None \<Rightarrow> eff_return False
      | Some x \<Rightarrow>
          (if po_status po \<noteq> Refund_Pending then eff_return False
           else with_recovery_lock S lock_ttl_seconds record Refund_Pending
             (refund_claimed_spend S (or_user_id record) (or_operation_key record) (po_request_hash po) x
                (context_metadata x) (str_or (po_error_code po) ''pull_refunded'')
                (str_or (po_error_message po) ''pull was refunded''))))"

definition recover_pending_pull_refunds_once :: "'g services \<Rightarrow> int \<Rightarrow> int \<Rightarrow> nat svc" where
  "recover_pending_pull_refunds_once S limit lock_ttl_seconds =
     recover_scanned (st_iter_refund_pending (sv_env S) limit) (recover_refund_step S lock_ttl_seconds)"

section \<open>The worker\<close>

text \<open>One iteration of \<open>while True\<close>; every exception of the three passes is logged.\<close>

definition recovery_pass :: "'g services \<Rightarrow> int \<Rightarrow> int \<Rightarrow> unit svc" where
  "recovery_pass S batch_size lock_ttl_seconds =
     eff_then (svc_sleep (sv_env S))
       (eff_catch
         (eff_then (recover_expired_processing_pulls_once S batch_size pull_processing_lease_seconds)
           (eff_then (recover_pending_pull_events_once S batch_size lock_ttl_seconds)
             (eff_then (recover_pending_pull_refunds_once S batch_size lock_ttl_seconds)
               (eff_return ()))))
         (\<lambda>_. eff_return ()))"

fun run_pull_recovery_worker :: "'g services \<Rightarrow> int \<Rightarrow> int \<Rightarrow> nat \<Rightarrow> unit svc" where
  "run_pull_recovery_worker S batch_size lock_ttl_seconds 0 = eff_return ()"
| "run_pull_recovery_worker S batch_size lock_ttl_seconds (Suc iterations) =
     eff_then (recovery_pass S batch_size lock_ttl_seconds)
       (run_pull_recovery_worker S batch_size lock_ttl_seconds iterations)"

end
