(* ===== verification/Settings.thy ===== *)
theory Settings
  imports Py_Text
begin

text \<open>
  \<open>config.py\<close>: the settings and how they are read from the environment variables. \<open>getenv\<close> is the
  process environment, a map from names to values.
\<close>

section \<open>The settings\<close>

record settings =
  st_app_name :: string
  st_app_version :: string
  st_engine_build_sha :: string
  st_host :: string
  st_port :: int
  st_internal_token :: string
  st_kafka_bootstrap_servers :: string
  st_kafka_topic :: string
  st_kafka_client_id :: string
  st_gacha_config_database_url :: string
  st_gacha_state_database_url :: string
  st_gacha_project_id :: string
  st_gacha_environment_id :: string
  st_gacha_config_cache_ttl_seconds :: int
  st_gacha_config_query_timeout_seconds :: int
  st_gacha_config_pool_size :: int
  st_gacha_state_query_timeout_seconds :: int
  st_gacha_state_pool_size :: int
  st_asset_service_url :: string
  st_asset_internal_token :: string
  st_asset_request_timeout_seconds :: int
  st_backpack_service_url :: string
  st_backpack_internal_token :: string
  st_backpack_request_timeout_seconds :: int
  st_pending_event_recovery_enabled :: bool
  st_pending_event_recovery_interval_seconds :: int
  st_pending_event_recovery_batch_size :: int
  st_pending_event_recovery_lock_ttl_seconds :: int

definition service_version :: string where
  "service_version = ''0.1.0''"

definition default_settings :: settings where
  "default_settings =
     \<lparr>st_app_name = ''Gacha Engine Service'', st_app_version = service_version,
      st_engine_build_sha = ''development'', st_host = ''127.0.0.1'', st_port = 8080,
      st_internal_token = [], st_kafka_bootstrap_servers = ''127.0.0.1:9092'',
      st_kafka_topic = ''gacha.pull_completed.v1'', st_kafka_client_id = ''gacha-engine-service'',
      st_gacha_config_database_url = [], st_gacha_state_database_url = [], st_gacha_project_id = [],
      st_gacha_environment_id = [], st_gacha_config_cache_ttl_seconds = 30,
      st_gacha_config_query_timeout_seconds = 5, st_gacha_config_pool_size = 2,
      st_gacha_state_query_timeout_seconds = 5, st_gacha_state_pool_size = 8,
      st_asset_service_url = ''http://asset-service.asset-service.svc.cluster.local'',
      st_asset_internal_token = [], st_asset_request_timeout_seconds = 5,
      st_backpack_service_url = ''http://backpack-service.backpack-service.svc.cluster.local'',
      st_backpack_internal_token = [], st_backpack_request_timeout_seconds = 5,
      st_pending_event_recovery_enabled = True, st_pending_event_recovery_interval_seconds = 5,
      st_pending_event_recovery_batch_size = 100, st_pending_event_recovery_lock_ttl_seconds = 30\<rparr>"

section \<open>Reading the environment\<close>

type_synonym environ = "string \<Rightarrow> string option"

text \<open>\<open>os.getenv(name, fallback).strip()\<close>, and with \<open>or fallback\<close> after it.\<close>

definition env_text :: "environ \<Rightarrow> string \<Rightarrow> string \<Rightarrow> string" where
  "env_text getenv name fallback =
     py_strip (case getenv name of None \<Rightarrow> fallback | Some v \<Rightarrow> v)"

definition env_or :: "environ \<Rightarrow> string \<Rightarrow> string \<Rightarrow> string" where
  "env_or getenv name fallback =
     (let v = env_text getenv name fallback in if v = [] then fallback else v)"

definition int_env_at_least :: "int \<Rightarrow> string \<Rightarrow> environ \<Rightarrow> string \<Rightarrow> int \<Rightarrow> int result" where
  "int_env_at_least least complaint getenv name fallback =
     (let v = env_text getenv name [] in
      if v = [] then Inr fallback
      else case py_int v of
        None \<Rightarrow> Inl (ValueError (name @ '' must be an integer''))
      | Some parsed \<Rightarrow> (if parsed < least then Inl (ValueError (name @ complaint)) else Inr parsed))"

definition int_env :: "environ \<Rightarrow> string \<Rightarrow> int \<Rightarrow> int result" where
  "int_env = int_env_at_least 1 '' must be a positive integer''"

definition non_negative_int_env :: "environ \<Rightarrow> string \<Rightarrow> int \<Rightarrow> int result" where
  "non_negative_int_env = int_env_at_least 0 '' must be a non-negative integer''"

definition bool_env :: "environ \<Rightarrow> string \<Rightarrow> bool \<Rightarrow> bool result" where
  "bool_env getenv name fallback =
     (let v = ascii_lower (env_text getenv name []) in
      if v = [] then Inr fallback
      else if v \<in> {''1'', ''true'', ''yes'', ''on''} then Inr True
      else if v \<in> {''0'', ''false'', ''no'', ''off''} then Inr False
      else Inl (ValueError (name @ '' must be a boolean'')))"

definition settings_from_env :: "environ \<Rightarrow> settings result" where
  "settings_from_env getenv =
     (let d = default_settings;
          config_url = env_text getenv ''GACHA_CONFIG_DATABASE_URL'' [];
          state_url = (let u = env_text getenv ''GACHA_STATE_DATABASE_URL'' [] in
            if u = [] then config_url else u) in
      res_bind (int_env getenv ''PORT'' (st_port d)) (\<lambda>port.
      res_bind (non_negative_int_env getenv ''GACHA_CONFIG_CACHE_TTL_SECONDS''
        (st_gacha_config_cache_ttl_seconds d)) (\<lambda>cache_ttl.
      res_bind (int_env getenv ''GACHA_CONFIG_QUERY_TIMEOUT_SECONDS''
        (st_gacha_config_query_timeout_seconds d)) (\<lambda>config_timeout.
      res_bind (int_env getenv ''GACHA_CONFIG_POOL_SIZE'' (st_gacha_config_pool_size d)) (\<lambda>config_pool.
      res_bind (int_env getenv ''GACHA_STATE_QUERY_TIMEOUT_SECONDS''
        (st_gacha_state_query_timeout_seconds d)) (\<lambda>state_timeout.
      res_bind (int_env getenv ''GACHA_STATE_POOL_SIZE'' (st_gacha_state_pool_size d)) (\<lambda>state_pool.
      res_bind (int_env getenv ''ASSET_REQUEST_TIMEOUT_SECONDS''
        (st_asset_request_timeout_seconds d)) (\<lambda>asset_timeout.
      res_bind (int_env getenv ''BACKPACK_REQUEST_TIMEOUT_SECONDS''
        (st_backpack_request_timeout_seconds d)) (\<lambda>backpack_timeout.
      res_bind (bool_env getenv ''PENDING_EVENT_RECOVERY_ENABLED''
        (st_pending_event_recovery_enabled d)) (\<lambda>recovery.
      res_bind (int_env getenv ''PENDING_EVENT_RECOVERY_INTERVAL_SECONDS''
        (st_pending_event_recovery_interval_seconds d)) (\<lambda>interval.
      res_bind (int_env getenv ''PENDING_EVENT_RECOVERY_BATCH_SIZE''
        (st_pending_event_recovery_batch_size d)) (\<lambda>batch.
      res_bind (int_env getenv ''PENDING_EVENT_RECOVERY_LOCK_TTL_SECONDS''
        (st_pending_event_recovery_lock_ttl_seconds d)) (\<lambda>lock_ttl.
        Inr (d\<lparr>st_engine_build_sha := env_or getenv ''GACHA_ENGINE_BUILD_SHA'' (st_engine_build_sha d),
          st_host := env_or getenv ''HOST'' (st_host d), st_port := port,
          st_internal_token := env_text getenv ''INTERNAL_TOKEN'' [],
          st_kafka_bootstrap_servers :=
            env_or getenv ''KAFKA_BOOTSTRAP_SERVERS'' (st_kafka_bootstrap_servers d),
          st_kafka_topic := env_or getenv ''KAFKA_TOPIC'' (st_kafka_topic d),
          st_kafka_client_id := env_or getenv ''KAFKA_CLIENT_ID'' (st_kafka_client_id d),
          st_gacha_config_database_url := config_url, st_gacha_state_database_url := state_url,
          st_gacha_project_id := env_text getenv ''GACHA_PROJECT_ID'' [],
          st_gacha_environment_id := env_text getenv ''GACHA_ENVIRONMENT_ID'' [],
          st_gacha_config_cache_ttl_seconds := cache_ttl,
          st_gacha_config_query_timeout_seconds := config_timeout,
          st_gacha_config_pool_size := config_pool,
          st_gacha_state_query_timeout_seconds := state_timeout,
          st_gacha_state_pool_size := state_pool,
          st_asset_service_url := env_or getenv ''ASSET_SERVICE_URL'' (st_asset_service_url d),
          st_asset_internal_token := env_text getenv ''ASSET_INTERNAL_TOKEN'' [],
          st_asset_request_timeout_seconds := asset_timeout,
          st_backpack_service_url := env_or getenv ''BACKPACK_SERVICE_URL'' (st_backpack_service_url d),
          st_backpack_internal_token := env_text getenv ''BACKPACK_INTERNAL_TOKEN'' [],
          st_backpack_request_timeout_seconds := backpack_timeout,
          st_pending_event_recovery_enabled := recovery,
          st_pending_event_recovery_interval_seconds := interval,
          st_pending_event_recovery_batch_size := batch,
          st_pending_event_recovery_lock_ttl_seconds := lock_ttl\<rparr>))))))))))))))"

text \<open>What every setting read from the environment satisfies.\<close>

definition settings_valid :: "settings \<Rightarrow> bool" where
  "settings_valid s \<longleftrightarrow>
     1 \<le> st_port s \<and> 0 \<le> st_gacha_config_cache_ttl_seconds s \<and>
     1 \<le> st_gacha_config_query_timeout_seconds s \<and> 1 \<le> st_gacha_config_pool_size s \<and>
     1 \<le> st_gacha_state_query_timeout_seconds s \<and> 1 \<le> st_gacha_state_pool_size s \<and>
     1 \<le> st_asset_request_timeout_seconds s \<and> 1 \<le> st_backpack_request_timeout_seconds s \<and>
     1 \<le> st_pending_event_recovery_interval_seconds s \<and> 1 \<le> st_pending_event_recovery_batch_size s \<and>
     1 \<le> st_pending_event_recovery_lock_ttl_seconds s \<and>
     st_host s \<noteq> [] \<and> st_kafka_topic s \<noteq> [] \<and> st_kafka_bootstrap_servers s \<noteq> [] \<and>
     st_kafka_client_id s \<noteq> [] \<and> st_asset_service_url s \<noteq> [] \<and> st_backpack_service_url s \<noteq> [] \<and>
     st_engine_build_sha s \<noteq> []"

lemma int_env_bounds:
  "int_env getenv name d = Inr n \<Longrightarrow> 1 \<le> d \<Longrightarrow> 1 \<le> n"
  "non_negative_int_env getenv name d = Inr n \<Longrightarrow> 0 \<le> d \<Longrightarrow> 0 \<le> n"
  by (auto simp: int_env_def non_negative_int_env_def int_env_at_least_def Let_def
      split: if_splits option.splits)

lemma env_or_nonempty: "fallback \<noteq> [] \<Longrightarrow> env_or getenv name fallback \<noteq> []"
  by (simp add: env_or_def Let_def)

lemma res_bind_InrE:
  assumes "res_bind r f = Inr y"
  obtains x where "r = Inr x" "f x = Inr y"
  using assms by (auto simp: res_bind_Inr_iff)

lemma default_nonempty:
  "st_host default_settings \<noteq> []" "st_kafka_topic default_settings \<noteq> []"
  "st_kafka_bootstrap_servers default_settings \<noteq> []" "st_kafka_client_id default_settings \<noteq> []"
  "st_asset_service_url default_settings \<noteq> []" "st_backpack_service_url default_settings \<noteq> []"
  "st_engine_build_sha default_settings \<noteq> []"
  by (simp_all add: default_settings_def)

lemma settings_checked:
  assumes "settings_from_env getenv = Inr s"
  shows "settings_valid s \<and>
    (st_gacha_state_database_url s = [] \<longrightarrow> st_gacha_config_database_url s = [])"
  using assms unfolding settings_from_env_def Let_def settings_valid_def
  apply -
  apply (elim res_bind_InrE)
  apply (drule sum.inject(2)[THEN iffD1])
  apply hypsubst
  apply (simp (no_asm) add: env_or_nonempty default_nonempty env_text_def)
  apply (intro conjI)
  apply (erule int_env_bounds, simp add: default_settings_def)+
  done

end
