(* ===== verification/Http_Api.thy ===== *)
theory Http_Api
  imports Recovery Catalog_Repository Settings
begin

text \<open>
  The HTTP surface of \<open>main.py\<close> and \<open>auth.py\<close>: the gateway authentication, the header
  dependencies, every endpoint, the projections of stored operations the read endpoints return, and
  the mapping of exceptions to error responses. FastAPI itself (routing, serialisation, the 422 and
  500 answers of the framework) is not modelled; a rejected body is the exception
  \<open>request_validation_error\<close>. The catalog provider appears by its answers.
\<close>

section \<open>Error responses\<close>

record http_response =
  hr_status :: int
  hr_headers :: "(string \<times> string) list"
  hr_body :: json

text \<open>The model \<open>ErrorResponse\<close> around an \<open>ApiError\<close>.\<close>

abbreviation error_response :: "string \<Rightarrow> string \<Rightarrow> json" where
  "error_response code message \<equiv>
     JObj [(''error'', JObj [(''code'', JStr code), (''message'', JStr message)])]"

definition write_error :: "int \<Rightarrow> string \<Rightarrow> string \<Rightarrow> http_response" where
  "write_error status code message =
     \<lparr>hr_status = status, hr_headers = [],
      hr_body = error_response code message\<rparr>"

text \<open>The registered exception handler; other exceptions are left to the framework.\<close>

definition http_exception_handler :: "exn \<Rightarrow> http_response option" where
  "http_exception_handler e =
     (case e of HTTPException status code message \<Rightarrow> Some (write_error status code message) | _ \<Rightarrow> None)"

definition unauthorized :: exn where
  "unauthorized = HTTPException 401 ''unauthorized'' ''request is not authorized''"

definition request_validation_error :: exn where
  "request_validation_error = OtherException ''RequestValidationError''"

section \<open>Gateway authentication\<close>

definition is_ascii :: "string \<Rightarrow> bool" where
  "is_ascii s \<longleftrightarrow> list_all (\<lambda>c. (of_char c :: nat) < 128) s"

text \<open>\<open>secrets.compare_digest\<close> raises \<open>TypeError\<close> for a \<open>str\<close> that is not ASCII.\<close>

definition compare_digest :: "string \<Rightarrow> string \<Rightarrow> bool result" where
  "compare_digest a b = (if \<not> is_ascii a \<or> \<not> is_ascii b then Inl TypeError else Inr (a = b))"

definition authenticate_gateway_request ::
    "settings \<Rightarrow> string option \<Rightarrow> string option \<Rightarrow> uuid result" where
  "authenticate_gateway_request s internal_token user_id =
     (let expected = st_internal_token s in
      case internal_token of
        None \<Rightarrow> Inl unauthorized
      | Some token \<Rightarrow>
          (if expected = [] \<or> token = [] then Inl unauthorized
           else res_bind (compare_digest token expected) (\<lambda>same.
             if \<not> same then Inl unauthorized
             else case uuid_parse (case user_id of None \<Rightarrow> ''None'' | Some u \<Rightarrow> u) of
               None \<Rightarrow> Inl (HTTPException 400 ''invalid_user_id'' ''X-User-Id must be a UUID'')
             | Some u \<Rightarrow> Inr u)))"

section \<open>Header dependencies\<close>

definition max_idempotency_key_length :: int where
  "max_idempotency_key_length = 128"

definition max_accepted_at_future_skew_seconds :: int where
  "max_accepted_at_future_skew_seconds = 5"

definition header_text :: "string option \<Rightarrow> string" where
  "header_text v = py_strip (case v of None \<Rightarrow> [] | Some s \<Rightarrow> s)"

definition idempotency_key_header :: "string option \<Rightarrow> string result" where
  "idempotency_key_header v =
     (let key = header_text v in
      if key = [] then Inl (HTTPException 400 ''missing_idempotency_key'' ''Idempotency-Key header is required'')
      else if py_len key > max_idempotency_key_length
      then Inl (HTTPException 400 ''invalid_idempotency_key'' ''Idempotency-Key must be 128 characters or fewer'')
      else Inr key)"

definition invalid_accepted_at :: "string \<Rightarrow> exn" where
  "invalid_accepted_at why =
     HTTPException 400 ''invalid_request_accepted_at'' (''trusted request acceptance time '' @ why)"

definition request_accepted_at_header :: "'g lib \<Rightarrow> instant \<Rightarrow> string option \<Rightarrow> py_datetime result" where
  "request_accepted_at_header L now v =
     (let raw = header_text v in
      if raw = []
      then Inl (HTTPException 400 ''missing_request_accepted_at'' ''trusted request acceptance time is required'')
      else case lib_fromisoformat L (py_replace_char (CHR ''Z'') ''+00:00'' raw) of
        None \<Rightarrow> Inl (invalid_accepted_at ''is invalid'')
      | Some (Naive _) \<Rightarrow> Inl (invalid_accepted_at ''must include a timezone'')
      | Some (Aware t) \<Rightarrow>
          (if t > now + seconds max_accepted_at_future_skew_seconds
           then Inl (invalid_accepted_at ''is too far in the future'') else Inr (Aware t)))"

text \<open>The request id: the header when it is a UUID, a fresh one otherwise.\<close>

definition request_id_from_header :: "uuid \<Rightarrow> string option \<Rightarrow> string" where
  "request_id_from_header fresh v =
     (case v of
        None \<Rightarrow> uuid_str fresh
      | Some s \<Rightarrow>
          (if s = [] then uuid_str fresh
           else case uuid_parse (py_strip s) of None \<Rightarrow> uuid_str fresh | Some u \<Rightarrow> uuid_str u))"

definition with_request_id :: "string \<Rightarrow> http_response \<Rightarrow> http_response" where
  "with_request_id request_id r =
     r\<lparr>hr_headers := AList.update ''X-Request-Id'' request_id (hr_headers r)\<rparr>"

text \<open>The constraints of \<open>PullRequest\<close>, which the framework checks on the body.\<close>

definition pull_request_valid :: "pull_request \<Rightarrow> bool" where
  "pull_request_valid rq \<longleftrightarrow>
     1 \<le> py_len (pq_banner_id rq) \<and> py_len (pq_banner_id rq) \<le> 100 \<and>
     (pq_count rq = 1 \<or> pq_count rq = 10) \<and>
     (case pq_seed rq of None \<Rightarrow> True | Some s \<Rightarrow> 1 \<le> py_len s \<and> py_len s \<le> 200)"

section \<open>Projections of a stored operation\<close>

definition operation_error :: "string \<Rightarrow> string \<Rightarrow> pull_operation \<Rightarrow> api_error option" where
  "operation_error code message po =
     (if truthy_str (po_error_code po) \<or> truthy_str (po_error_message po)
      then Some \<lparr>ae_code = str_or (po_error_code po) code, ae_message = str_or (po_error_message po) message\<rparr>
      else None)"

record pull_operation_state_response =
  so_status :: pull_operation_status
  so_response :: "pull_response option"
  so_error :: "api_error option"

definition pull_operation_state :: "pull_operation \<Rightarrow> pull_operation_state_response" where
  "pull_operation_state po =
     \<lparr>so_status = po_status po,
      so_response = (if po_status po \<in> {Event_Pending, Event_Published, Succeeded} then po_response po else None),
      so_error = operation_error ''pull_failed'' ''pull operation failed'' po\<rparr>"

record pull_operation_summary =
  su_operation_id :: string
  su_event_id :: "string option"
  su_request_id :: "string option"
  su_banner_id :: "string option"
  su_banner_version_id :: "string option"
  su_pity_group_id :: "string option"
  su_count :: "int option"
  su_status :: pull_operation_status
  su_error :: "api_error option"
  su_next_pity :: "pity_snapshot option"
  su_created_at :: instant
  su_updated_at :: instant

text \<open>\<open>response.f if response is not None else event.f if event is not None else ...\<close>.\<close>

definition from_result ::
    "pull_operation \<Rightarrow> (pull_response \<Rightarrow> 'a) \<Rightarrow> (pull_completed_event \<Rightarrow> 'a) \<Rightarrow> 'a \<Rightarrow> 'a" where
  "from_result po of_response of_event otherwise =
     (case po_response po of
        Some r \<Rightarrow> of_response r
      | None \<Rightarrow> (case po_event po of Some e \<Rightarrow> of_event e | None \<Rightarrow> otherwise))"

definition from_context :: "pull_operation \<Rightarrow> (pull_recovery_context \<Rightarrow> 'a option) \<Rightarrow> 'a option" where
  "from_context po f = (case po_recovery_context po of None \<Rightarrow> None | Some x \<Rightarrow> f x)"

definition response_records :: "pull_operation \<Rightarrow> pull_record list" where
  "response_records po = (case po_response po of None \<Rightarrow> [] | Some r \<Rightarrow> re_records r)"

definition result_banner_id :: "pull_operation \<Rightarrow> string option \<Rightarrow> string option" where
  "result_banner_id po otherwise =
     (case response_records po of
        r # _ \<Rightarrow> Some (pr_banner_id r)
      | [] \<Rightarrow> (case po_event po of Some e \<Rightarrow> Some (ev_banner_id e) | None \<Rightarrow> otherwise))"

definition recorded_request_id :: "pull_operation_record \<Rightarrow> string option" where
  "recorded_request_id record =
     (case or_request_id record of
        Some u \<Rightarrow> Some (uuid_str u)
      | None \<Rightarrow> from_context (or_operation record)
          (\<lambda>x. if rc_request_id x = [] then None else Some (rc_request_id x)))"

definition missing_timestamps :: exn where
  "missing_timestamps = GachaStateStoreError ''pull operation timestamps are missing''"

definition pull_operation_summary_of :: "pull_operation_record \<Rightarrow> pull_operation_summary result" where
  "pull_operation_summary_of record =
     (let po = or_operation record in
      case (or_created_at record, or_updated_at record) of
        (Some created, Some changed) \<Rightarrow>
          Inr \<lparr>su_operation_id = or_operation_key record,
            su_event_id = from_result po (Some \<circ> re_event_id) (Some \<circ> ev_event_id)
              (from_context po (\<lambda>x. Some (uuid_str (rc_event_id x)))),
            su_request_id = recorded_request_id record,
            su_banner_id = result_banner_id po (from_context po (\<lambda>x. Some (b_id (rc_banner x)))),
            su_banner_version_id = from_result po re_banner_version_id ev_banner_version_id
              (from_context po rc_banner_version_id),
            su_pity_group_id = from_result po re_pity_group_id ev_pity_group_id
              (from_context po (\<lambda>x. Some (rc_pity_group_id x))),
            su_count = from_result po (\<lambda>r. Some (int (length (re_records r))))
              (\<lambda>e. Some (int (length (ev_records e)))) (from_context po (\<lambda>x. Some (rc_count x))),
            su_status = po_status po,
            su_error = operation_error ''pull_failed'' ''pull operation failed'' po,
            su_next_pity = from_result po (Some \<circ> re_next_pity) (Some \<circ> ev_next_pity) None,
            su_created_at = created, su_updated_at = changed\<rparr>
      | _ \<Rightarrow> Inl missing_timestamps)"

datatype replay_source = Recovery_Context | Persisted_Result | Operation_Only

record pull_operation_replay_request =
  rq_source :: replay_source
  rq_banner_id :: "string option"
  rq_banner_version_id :: "string option"
  rq_pity_group_id :: "string option"
  rq_count :: "int option"
  rq_seed :: "string option"
  rq_event_id :: "string option"
  rq_amount_minor :: "int option"
  rq_accepted_at :: "py_datetime option"

record pull_operation_replay_response =
  rp_operation_id :: string
  rp_request_id :: "string option"
  rp_status :: pull_operation_status
  rp_request :: pull_operation_replay_request
  rp_response :: "pull_response option"
  rp_event :: "pull_completed_event option"
  rp_error :: "api_error option"
  rp_created_at :: instant
  rp_updated_at :: instant

text \<open>The model's constraints \<open>ge=1\<close> on the count and the amount.\<close>

definition replay_request_valid :: "pull_operation_replay_request \<Rightarrow> bool" where
  "replay_request_valid q \<longleftrightarrow>
     (case rq_count q of None \<Rightarrow> True | Some n \<Rightarrow> 1 \<le> n) \<and>
     (case rq_amount_minor q of None \<Rightarrow> True | Some n \<Rightarrow> 1 \<le> n)"

definition replay_request_of :: "pull_operation \<Rightarrow> instant \<Rightarrow> pull_operation_replay_request" where
  "replay_request_of po created =
     (case po_recovery_context po of
        Some x \<Rightarrow>
          \<lparr>rq_source = Recovery_Context, rq_banner_id = Some (b_id (rc_banner x)),
           rq_banner_version_id = rc_banner_version_id x, rq_pity_group_id = Some (rc_pity_group_id x),
           rq_count = Some (rc_count x), rq_seed = Some (rc_seed x),
           rq_event_id = Some (uuid_str (rc_event_id x)), rq_amount_minor = Some (rc_amount_minor x),
           rq_accepted_at = rc_accepted_at x\<rparr>
      | None \<Rightarrow>
          (let count = from_result po (\<lambda>r. Some (int (length (re_records r))))
                 (\<lambda>e. Some (int (length (ev_records e)))) None in
           \<lparr>rq_source = (if po_response po \<noteq> None \<or> po_event po \<noteq> None then Persisted_Result else Operation_Only),
            rq_banner_id = result_banner_id po None,
            rq_banner_version_id = from_result po re_banner_version_id ev_banner_version_id None,
            rq_pity_group_id = from_result po re_pity_group_id ev_pity_group_id None,
            rq_count = count,
            rq_seed = from_result po (Some \<circ> re_seed) (Some \<circ> ev_seed) None,
            rq_event_id = from_result po (Some \<circ> re_event_id) (Some \<circ> ev_event_id) None,
            rq_amount_minor = map_option (\<lambda>n. n * astrite_per_pull) count,
            rq_accepted_at = from_result po re_accepted_at ev_accepted_at (Some (Aware created))\<rparr>))"

definition pull_operation_replay_of :: "pull_operation_record \<Rightarrow> pull_operation_replay_response result" where
  "pull_operation_replay_of record =
     (let po = or_operation record in
      case (or_created_at record, or_updated_at record) of
        (Some created, Some changed) \<Rightarrow>
          (let rq = replay_request_of po created in
           if \<not> replay_request_valid rq then Inl ValidationError
           else Inr \<lparr>rp_operation_id = or_operation_key record, rp_request_id = recorded_request_id record,
             rp_status = po_status po, rp_request = rq, rp_response = po_response po,
             rp_event = po_event po,
             rp_error = operation_error ''pull_failed'' ''pull operation failed'' po,
             rp_created_at = created, rp_updated_at = changed\<rparr>)
      | _ \<Rightarrow> Inl missing_timestamps)"


section \<open>Endpoints\<close>

definition svc_now :: "env \<Rightarrow> instant svc" where
  "svc_now E w = (Inr (e_now E (w_clock w)), w)"

definition current_catalog_snapshot :: "catalog_snapshot result \<Rightarrow> catalog_snapshot svc" where
  "current_catalog_snapshot answer =
     (case answer of
        Inl (CatalogLoadError _) \<Rightarrow>
          eff_raise (HTTPException 503 ''gacha_config_unavailable'' ''gacha config is unavailable'')
      | _ \<Rightarrow> eff_lift answer)"

definition store_unavailable :: "string \<Rightarrow> 'a svc \<Rightarrow> 'a svc" where
  "store_unavailable message m =
     eff_catch m (on_store_error (HTTPException 503 ''state_store_unavailable'' message))"

record ready_response =
  rd_status :: int
  rd_checks :: "(string \<times> string) list"

definition ping_check :: "string \<Rightarrow> 'a svc \<Rightarrow> (string \<times> string) list svc" where
  "ping_check name m =
     eff_catch (eff_then m (eff_return [])) (\<lambda>_. eff_return [(name, ''unavailable'')])"

definition st_ping :: "env \<Rightarrow> unit svc" where
  "st_ping E = db_call E ''gacha state database is unavailable'' (\<lambda>n. db_query (\<lambda>db. ()))"

definition readiness_check ::
    "'g services \<Rightarrow> settings \<Rightarrow> catalog_snapshot result \<Rightarrow> ready_response svc" where
  "readiness_check S s answer =
     (let token = (if st_internal_token s = [] then [(''internal_token'', ''missing'')] else []) in
      eff_bind (ping_check ''state_database'' (st_ping (sv_env S))) (\<lambda>db.
      eff_bind (ping_check ''kafka'' (ensure_started (sv_env S))) (\<lambda>kafka.
      eff_bind (ping_check ''asset_service'' (asset_ping (sv_env S) (sv_asset_client S))) (\<lambda>asset.
      eff_bind (ping_check ''gacha_config'' (eff_lift answer)) (\<lambda>config.
        let checks = token @ db @ kafka @ asset @ config in
        eff_return \<lparr>rd_status = (if checks = [] then 200 else 503), rd_checks = checks\<rparr>)))))"

definition list_banners :: "'g services \<Rightarrow> catalog_snapshot result \<Rightarrow> banner list svc" where
  "list_banners S answer =
     eff_bind (current_catalog_snapshot answer) (\<lambda>snapshot.
     eff_bind (svc_now (sv_env S)) (\<lambda>now. eff_lift (banners_at snapshot (Aware now))))"

definition list_items :: "catalog_snapshot result \<Rightarrow> gacha_item list svc" where
  "list_items answer = eff_bind (current_catalog_snapshot answer) (\<lambda>snapshot. eff_return (cs_items snapshot))"

definition get_pity :: "'g services \<Rightarrow> catalog_snapshot result \<Rightarrow> string \<Rightarrow> uuid \<Rightarrow> pity_snapshot svc" where
  "get_pity S answer banner_id user =
     eff_bind (current_catalog_snapshot answer) (\<lambda>snapshot.
     eff_bind (svc_now (sv_env S)) (\<lambda>now.
     eff_bind (eff_lift (banner_config_at snapshot banner_id (Aware now))) (\<lambda>found.
     case found of
       None \<Rightarrow> eff_raise (HTTPException 404 ''banner_not_found'' ''banner was not found'')
     | Some c \<Rightarrow>
         store_unavailable ''pity state is unavailable''
           (st_get_snapshot (sv_env S) user (bc_pity_group_id c)))))"

definition operation_not_found :: exn where
  "operation_not_found = HTTPException 404 ''pull_operation_not_found'' ''pull operation was not found''"

definition get_pull_operation_endpoint ::
    "'g services \<Rightarrow> uuid \<Rightarrow> string \<Rightarrow> pull_operation_state_response svc" where
  "get_pull_operation_endpoint S user key =
     eff_bind (store_unavailable ''pull operation state is unavailable''
         (st_get_pull_operation (sv_env S) (sv_lib S) user key))
       (\<lambda>found. case found of
          None \<Rightarrow> eff_raise operation_not_found
        | Some po \<Rightarrow> eff_return (pull_operation_state po))"

definition list_pull_operations_endpoint ::
    "'g services \<Rightarrow> uuid \<Rightarrow> int \<Rightarrow> pull_operation_summary list svc" where
  "list_pull_operations_endpoint S user limit =
     store_unavailable ''pull operation history is unavailable''
       (eff_bind (st_list_pull_operations (sv_env S) user limit)
         (\<lambda>records. eff_lift (map_result pull_operation_summary_of records)))"

definition replay_pull_operation ::
    "'g services \<Rightarrow> uuid \<Rightarrow> uuid \<Rightarrow> pull_operation_replay_response svc" where
  "replay_pull_operation S user operation_id =
     eff_bind (store_unavailable ''pull operation replay is unavailable''
         (st_get_pull_operation_record (sv_env S) user operation_id))
       (\<lambda>found. case found of
          None \<Rightarrow> eff_raise operation_not_found
        | Some record \<Rightarrow>
            store_unavailable ''pull operation replay is unavailable''
              (eff_lift (pull_operation_replay_of record)))"

text \<open>\<open>release\<close> is what the provider answers for a recorded release, \<open>answer\<close> for the current one.\<close>

definition audit_pull ::
    "'g services \<Rightarrow> catalog_snapshot result \<Rightarrow> (string \<Rightarrow> catalog_snapshot result) \<Rightarrow> uuid \<Rightarrow> uuid
     \<Rightarrow> pull_audit_verification svc" where
  "audit_pull S answer release user event_id =
     eff_bind (store_unavailable ''pull audit evidence is unavailable''
         (st_get_pull_operation_by_event_id (sv_env S) user event_id))
       (\<lambda>found. case (case found of None \<Rightarrow> None | Some po \<Rightarrow> po_response po) of
          None \<Rightarrow> eff_raise (HTTPException 404 ''pull_audit_not_found'' ''pull audit evidence was not found'')
        | Some response \<Rightarrow>
            (let loaded = (case re_audit response of
                   None \<Rightarrow> answer
                 | Some a \<Rightarrow> (case am_release_id a of None \<Rightarrow> answer | Some i \<Rightarrow> release i)) in
             case loaded of
               Inl (CatalogLoadError _) \<Rightarrow>
                 eff_raise (HTTPException 503 ''pull_audit_release_unavailable''
                   ''recorded gacha release is unavailable'')
             | Inl e \<Rightarrow> eff_raise e
             | Inr snapshot \<Rightarrow> eff_lift (verify_pull_response (sv_lib S) response snapshot)))"

text \<open>The headers of a request, as the dependencies read them.\<close>

record request_headers =
  hd_internal_token :: "string option"
  hd_user_id :: "string option"
  hd_idempotency_key :: "string option"
  hd_request_id :: "string option"
  hd_accepted_at :: "string option"

text \<open>
  \<open>POST /v1/me/pulls\<close>: the middleware names the request, the dependencies run in the order of the
  parameters, then the body is checked and the handler called.
\<close>

definition pulls_endpoint ::
    "'g services \<Rightarrow> settings \<Rightarrow> catalog_snapshot result \<Rightarrow> request_headers \<Rightarrow> pull_request
     \<Rightarrow> pull_response svc" where
  "pulls_endpoint S s answer hs body =
     eff_bind (svc_now (sv_env S)) (\<lambda>now.
     eff_bind (eff_lift (authenticate_gateway_request s (hd_internal_token hs) (hd_user_id hs))) (\<lambda>user.
     eff_bind (eff_lift (idempotency_key_header (hd_idempotency_key hs))) (\<lambda>key.
     eff_bind (eff_lift (request_accepted_at_header (sv_lib S) now (hd_accepted_at hs))) (\<lambda>accepted.
       if \<not> pull_request_valid body then eff_raise request_validation_error
       else (\<lambda>w. create_pull S answer body user key accepted
              (request_id_from_header (e_uuid4 (sv_env S) (w_clock w)) (hd_request_id hs)) w)))))"

section \<open>Assembly\<close>

datatype catalog_repository_choice = Static_Repository | Postgres_Repository postgres_repository

definition create_catalog_repository :: "settings \<Rightarrow> catalog_repository_choice result" where
  "create_catalog_repository s =
     (if st_gacha_config_database_url s = [] then Inr Static_Repository
      else if st_gacha_project_id s = [] \<or> st_gacha_environment_id s = []
      then Inl (ValueError
        ''GACHA_PROJECT_ID and GACHA_ENVIRONMENT_ID are required when GACHA_CONFIG_DATABASE_URL is configured'')
      else Inr (Postgres_Repository
        \<lparr>pg_project_id = st_gacha_project_id s, pg_environment_id = st_gacha_environment_id s\<rparr>))"

text \<open>The adapters that \<open>create_app\<close> builds from the settings when none are injected.\<close>

definition create_app :: "env \<Rightarrow> 'g lib \<Rightarrow> settings \<Rightarrow> ('g services \<times> catalog_provider) result" where
  "create_app E L s =
     res_bind (create_catalog_repository s) (\<lambda>_.
       Inr (\<lparr>sv_env = E, sv_lib = L,
          sv_asset_client = service_client_init (st_asset_service_url s)
            (if st_asset_internal_token s = [] then st_internal_token s else st_asset_internal_token s),
          sv_backpack_receipt_client = Some (backpack_client_init (st_backpack_service_url s)
            (if st_backpack_internal_token s = [] then st_internal_token s
             else st_backpack_internal_token s)),
          sv_kafka_topic = st_kafka_topic s, sv_engine_version = st_app_version s,
          sv_engine_build_sha = st_engine_build_sha s\<rparr>,
        provider_init (st_gacha_config_cache_ttl_seconds s)))"

end
