(* ===== verification/Api_Guarantees.thy ===== *)
theory Api_Guarantees
  imports Http_Api Flow_Guarantees
begin

text \<open>
  The promises of the boundary: the settings the service starts with, the requests that reach the
  pull flow, what the read endpoints show of a committed pull, and the errors they answer with.
\<close>

section \<open>Settings\<close>

text \<open>The service never starts on an out-of-range setting. Whatever the environment variables are,
  \<open>Settings.from_env\<close> either raises or yields positive ports, pool sizes, timeouts, intervals and
  batch sizes, a non-negative cache time, and non-empty host, topic, client id, service URLs and build
  id; the state database falls back to the config database.\<close>

theorem settings_are_in_range:
  assumes "settings_from_env getenv = Inr s"
  shows "settings_valid s \<and>
    (st_gacha_state_database_url s = [] \<longrightarrow> st_gacha_config_database_url s = [])"
  using assms by (rule settings_checked)

definition sample_environ :: environ where
  "sample_environ = [''PORT'' \<mapsto> ''9000'']"

lemma sample_environ_reads:
  "py_strip [] = []" "py_strip ''9000'' = ''9000''" "py_int ''9000'' = Some 9000"
proof -
  show "py_strip [] = []" by (simp add: py_strip_def strip_tokens_fix)
  show "py_strip ''9000'' = ''9000''" by (rule hex_text_strip) (simp add: hex_text_def)
  then show "py_int ''9000'' = Some 9000" by (simp add: py_int_def dec_val_def)
qed

lemma sample_environ_values:
  "int_env sample_environ ''PORT'' d = Inr 9000"
  "name \<noteq> ''PORT'' \<Longrightarrow> int_env sample_environ name d = Inr d"
  "name \<noteq> ''PORT'' \<Longrightarrow> non_negative_int_env sample_environ name d = Inr d"
  "name \<noteq> ''PORT'' \<Longrightarrow> bool_env sample_environ name b = Inr b"
  by (simp_all add: int_env_def non_negative_int_env_def int_env_at_least_def bool_env_def env_text_def
      sample_environ_def sample_environ_reads ascii_lower_def)

lemma settings_are_in_range_witness:
  "\<exists>s. settings_from_env sample_environ = Inr s \<and> st_port s = 9000 \<and> settings_valid s"
proof -
  have "\<exists>s. settings_from_env sample_environ = Inr s \<and> st_port s = 9000"
    unfolding settings_from_env_def Let_def by (simp add: sample_environ_values)
  with settings_are_in_range show ?thesis by blast
qed

section \<open>Admission\<close>

text \<open>A request the boundary admits, with the values it hands on.\<close>

definition admitted ::
    "'g lib \<Rightarrow> settings \<Rightarrow> instant \<Rightarrow> request_headers \<Rightarrow> pull_request \<Rightarrow> uuid \<Rightarrow> string \<Rightarrow> instant \<Rightarrow> bool" where
  "admitted L s now hs body user key t \<longleftrightarrow>
     st_internal_token s \<noteq> [] \<and> hd_internal_token hs = Some (st_internal_token s) \<and>
     (\<exists>u. hd_user_id hs = Some u \<and> uuid_parse u = Some user) \<and>
     (\<exists>k. hd_idempotency_key hs = Some k \<and> key = py_strip k) \<and> key \<noteq> [] \<and> py_len key \<le> 128 \<and>
     (\<exists>a. hd_accepted_at hs = Some a \<and>
        lib_fromisoformat L (py_replace_char (CHR ''Z'') ''+00:00'' (py_strip a)) = Some (Aware t)) \<and>
     t \<le> now + 5000000 \<and> pull_request_valid body"

lemma authenticate_Inr:
  assumes "authenticate_gateway_request s token user_id = Inr user"
  shows "st_internal_token s \<noteq> []" "token = Some (st_internal_token s)"
    "\<exists>u. user_id = Some u \<and> uuid_parse u = Some user"
proof -
  have "uuid_parse ''None'' = None" by simp
  with assms show "st_internal_token s \<noteq> []" "token = Some (st_internal_token s)"
      "\<exists>u. user_id = Some u \<and> uuid_parse u = Some user"
    by (auto simp: authenticate_gateway_request_def Let_def compare_digest_def split: option.splits if_splits)
qed

lemma header_text_nonempty: "header_text v \<noteq> [] \<Longrightarrow> \<exists>s. v = Some s \<and> header_text v = py_strip s"
  by (cases v) (simp_all add: header_text_def sample_environ_reads)

lemma idempotency_key_Inr:
  "idempotency_key_header v = Inr key \<Longrightarrow>
     (\<exists>k. v = Some k \<and> key = py_strip k) \<and> key \<noteq> [] \<and> py_len key \<le> 128"
  using header_text_nonempty[of v]
  by (auto simp: idempotency_key_header_def max_idempotency_key_length_def Let_def split: if_splits)

lemma accepted_at_Inr:
  assumes "request_accepted_at_header L now v = Inr accepted"
  shows "\<exists>t a. accepted = Aware t \<and> v = Some a \<and> t \<le> now + 5000000 \<and>
    lib_fromisoformat L (py_replace_char (CHR ''Z'') ''+00:00'' (py_strip a)) = Some (Aware t)"
  using assms header_text_nonempty[of v]
  by (auto simp: request_accepted_at_header_def max_accepted_at_future_skew_seconds_def seconds_def Let_def
      split: if_splits option.splits py_datetime.splits)

text \<open>C27: only admitted requests touch anything. A request to \<open>POST /v1/me/pulls\<close> either raises before
  any effect (no store call, no charge, no message) or it carries the configured non-empty internal
  token, a well-formed user id, a stripped idempotency key of at most 128 characters, an acceptance
  time with a zone at most five seconds ahead of the clock and a body within its constraints, and
  then exactly the pull flow runs on those values.\<close>

theorem only_admitted_requests_have_effects:
  "(\<exists>e. pulls_endpoint S s answer hs body w = (Inl e, w)) \<or>
   (\<exists>user key t. admitted (sv_lib S) s (e_now (sv_env S) (w_clock w)) hs body user key t \<and>
      pulls_endpoint S s answer hs body w =
        create_pull S answer body user key (Aware t)
          (request_id_from_header (e_uuid4 (sv_env S) (w_clock w)) (hd_request_id hs)) w)"
proof (cases "authenticate_gateway_request s (hd_internal_token hs) (hd_user_id hs)")
  case (Inl e)
  then show ?thesis by (simp add: pulls_endpoint_def eff_defs svc_now_def)
next
  case user: (Inr user)
  let ?now = "e_now (sv_env S) (w_clock w)"
  show ?thesis
  proof (cases "idempotency_key_header (hd_idempotency_key hs)")
    case (Inl e)
    with user show ?thesis by (simp add: pulls_endpoint_def eff_defs svc_now_def)
  next
    case key: (Inr key)
    show ?thesis
    proof (cases "request_accepted_at_header (sv_lib S) ?now (hd_accepted_at hs)")
      case (Inl e)
      with user key show ?thesis by (simp add: pulls_endpoint_def eff_defs svc_now_def)
    next
      case (Inr accepted)
      from accepted_at_Inr[OF this] obtain t where t: "accepted = Aware t" by blast
      show ?thesis
      proof (cases "pull_request_valid body")
        case False
        with user key Inr show ?thesis by (simp add: pulls_endpoint_def eff_defs svc_now_def)
      next
        case True
        have "admitted (sv_lib S) s ?now hs body user key t"
          using authenticate_Inr[OF user] idempotency_key_Inr[OF key] accepted_at_Inr[OF Inr] t True
          by (auto simp: admitted_def)
        with user key Inr t True show ?thesis
          by (auto simp: pulls_endpoint_def eff_defs svc_now_def)
      qed
    qed
  qed
qed

section \<open>Reading a committed pull\<close>

text \<open>The row of a user and key is unique, and later reads find its later versions.\<close>

lemma find_operation:
  assumes wf: "wf_db db" and r: "r \<in> set (db_ops db)" "op_user_id r = user" "op_key_hash r = kh"
  shows "select_pull_operation_sql user kh db = Some r"
proof -
  have "distinct (map op_key (db_ops db))" using wf by (simp add: wf_db_def)
  then have "find (\<lambda>x. op_key x = (user, kh)) (db_ops db) = Some r"
    using find_key_Some[of op_key "db_ops db" "(user, kh)" r] r by (simp add: op_key_def)
  then show ?thesis by (simp add: select_pull_operation_sql_def op_key_def)
qed

text \<open>C38: a pull can be read back. After \<open>create_pull\<close> has answered, in any lawful environment, the
  operation endpoint, called for the same user and key at any later moment, either answers 503 or
  shows a committed status with exactly the response that was returned.\<close>

theorem pull_can_be_read_back:
  assumes E: "lawful_env (sv_env S)" and inv: "service_inv w"
    and made: "create_pull S current rq user key accepted request_id w = (Inr response, w1)"
    and between: "quiet w1 w2"
    and read: "get_pull_operation_endpoint S user key w2 = (res, w3)"
  shows "(\<exists>message. res = Inl (HTTPException 503 ''state_store_unavailable'' message)) \<or>
    (\<exists>view. res = Inr view \<and> so_response view = Some response \<and>
       so_status view \<in> {Event_Pending, Event_Published, Succeeded})"
proof -
  let ?kh = "idempotency_key_hash (sv_lib S) key"
  from wpD(1)[OF create_pull_ok[OF E inv, unfolded handler_ok_def] made]
  have "service_inv w1" "\<exists>h. stored user ?kh h response w1" by blast+
  then obtain h where w2: "service_inv w2" "stored user ?kh h response w2"
    using quiet_stable(2,4)[OF between] by blast
  show ?thesis
  proof (cases "st_get_pull_operation (sv_env S) (sv_lib S) user key w2")
    case (Pair found v)
    show ?thesis
    proof (cases found)
      case (Inl e)
      obtain m where "e = GachaStateStoreError m"
        using state_errorE[OF raisesD[OF raises_st(3) Pair[unfolded Inl]]] by blast
      with Inl Pair read show ?thesis
        by (auto simp: get_pull_operation_endpoint_def store_unavailable_def eff_defs on_store_error_def)
    next
      case (Inr y)
      note ran = Pair[unfolded Inr]
      have "quiet w2 v" using guaranteesD[OF st_quiet(3)[OF E] ran] .
      then have v: "wf_db (w_db v)" "stored user ?kh h response v"
        using quiet_stable(2,4) w2 by (auto simp: service_inv_def)
      then obtain r where r: "r \<in> set (db_ops (w_db v))" "op_user_id r = user" "op_key_hash r = ?kh"
          "has_evidence r" "op_response r = Some response"
        by (auto simp: stored_def)
      from db_call_InrD[OF E ran[unfolded st_get_pull_operation_def]]
      have "y = map_option operation_from_row (select_pull_operation_sql user ?kh (w_db v))"
        by (auto simp: get_pull_operation_def db_query_def)
      then have "y = Some (operation_from_row r)" using find_operation[OF v(1) r(1-3)] by simp
      with ran read r(4,5) show ?thesis
        by (auto simp: get_pull_operation_endpoint_def store_unavailable_def eff_defs pull_operation_state_def
            operation_from_row_def has_evidence_def)
    qed
  qed
qed

lemma pull_can_be_read_back_witness:
  "\<exists>view w. get_pull_operation_endpoint sample_services 2 ''k'' (published_world\<lparr>w_clock := 1\<rparr>) = (Inr view, w) \<and>
     so_response view = Some sample_response"
proof -
  have found: "select_pull_operation_sql 2 (idempotency_key_hash sample_lib ''k'') (w_db published_world)
      = Some published_row"
    by (simp add: select_pull_operation_sql_def published_world_def)
  have "\<exists>view w. get_pull_operation_endpoint sample_services 2 ''k'' (published_world\<lparr>w_clock := 1\<rparr>) = (Inr view, w)"
    using found
    by (simp add: get_pull_operation_endpoint_def store_unavailable_def eff_defs st_get_pull_operation_def
        db_call_def tick_def Let_def sample_services_def calm_env_def get_pull_operation_def db_query_def)
  then obtain view w where read:
      "get_pull_operation_endpoint sample_services 2 ''k'' (published_world\<lparr>w_clock := 1\<rparr>) = (Inr view, w)"
    by blast
  from pull_can_be_read_back[OF sample_services_lawful published_world_inv sample_replay quiet_refl read] read
  show ?thesis by auto
qed

end
