(* ===== verification/Store_Relations.thy ===== *)
theory Store_Relations
  imports Postgres_Props
begin

text \<open>
  Relations between the database before and after any method of the store. \<open>store_relation\<close> takes a
  preorder that every statement on \<open>pull_operations\<close> keeps, for the operations that \<open>allowed\<close> admits
  in a save, and derives that every method keeps it.
\<close>

locale store_relation =
  fixes Q :: "database \<Rightarrow> database \<Rightarrow> bool" and allowed :: "pull_operation \<Rightarrow> bool"
  assumes preorder_store [simp]: "preorder_rel Q"
    and same_operations: "db_ops db' = db_ops db \<Longrightarrow> Q db db'"
    and inserts: "guarantees Q (insert_pull_operation_sql (new_op_row oid user kh h token now lease ctx rid))"
    and claims: "guarantees Q (claim_processing_operation_sql now user kh h token lease ctx)"
      "guarantees Q (claim_expired_processing_operation_sql now oid token lease)"
    and locks: "guarantees Q (claim_pending_operation_sql now oid lock expected)"
      "guarantees Q (release_pending_operation_sql now oid)"
    and saves: "allowed po \<Longrightarrow> guarantees Q (update_pull_operation_sql now oid po)"
      "allowed po \<Longrightarrow> guarantees Q (transition_processing_operation_sql now oid user h token po)"
      "allowed po \<Longrightarrow> guarantees Q (save_pull_operation_sql now user kh po)"
begin

lemma pity_statements: "guarantees Q (insert_initial_pity_sql now user grp)"
  "guarantees Q (update_pity_sql now user grp v p)"
  by (auto simp: guarantees_def insert_initial_pity_sql_def update_pity_sql_def Let_def intro!: same_operations)

lemma methods: "guarantees Q (get_snapshot user grp)"
  "guarantees Q (get_pull_operation L user key)"
  "guarantees Q (get_pull_operation_by_key k)"
  "allowed po \<Longrightarrow> guarantees Q (transition_pull_operation_from_processing now k user h token po)"
  "allowed po \<Longrightarrow> guarantees Q (save_pull_operation L now user key po)"
  "guarantees Q (iter_event_pending_pull_operations limit)"
  "guarantees Q (iter_refund_pending_pull_operations limit)"
  "guarantees Q (iter_expired_processing_pull_operations now limit)"
  "guarantees Q (claim_expired_processing_pull_operation now token k lease)"
  "guarantees Q (claim_pull_operation_recovery now k st ttl)"
  "guarantees Q (release_pull_operation_recovery now k)"
  "allowed po \<Longrightarrow> guarantees Q (save_pull_operation_by_key now k po)"
  "allowed po \<Longrightarrow> guarantees Q (compare_and_set_with_pull_operation now k user grp h v p po token)"
  unfolding get_snapshot_def get_pull_operation_def get_pull_operation_by_key_def
    transition_pull_operation_from_processing_def save_pull_operation_def
    iter_event_pending_pull_operations_def iter_refund_pending_pull_operations_def
    iter_expired_processing_pull_operations_def claim_expired_processing_pull_operation_def
    claim_pull_operation_recovery_def release_pull_operation_recovery_def save_pull_operation_by_key_def
    compare_and_set_with_pull_operation_def advance_pity_def current_pity_version_def
  by (auto intro!: guarantees_intros inserts claims locks saves pity_statements)

lemma begins:
  assumes "\<And>db. Q db (fst others db)" "\<And>db. Q db (snd others db)"
  shows "guarantees Q (begin_pull_operation L nows others fresh user key h lease ctx)"
  unfolding begin_pull_operation_def Let_def case_prod_beta
  by (auto intro!: guarantees_intros inserts claims assms split: list.splits)

end

end
