(* ===== verification/Service_Relations.thy ===== *)
theory Service_Relations
  imports Recovery Service_Guarantees Store_Relations
begin

text \<open>
  Relations between the world before and after any handler. \<open>service_calls\<close> takes a preorder that
  every primitive call but the spend keeps and derives, once, that the handlers which send no spend
  keep it. \<open>service_flow\<close> adds the two places where a pull is executed and derives that every request
  and every pass of the recovery worker keeps the preorder; \<open>service_relation\<close> is the case where the
  spend keeps it like any other call. Two instances are here: \<open>advances\<close> (the database only moves by
  the program's statements) and \<open>confirms\<close> (an operation only becomes "succeeded" after the backpack
  service has confirmed its event).
\<close>

locale service_calls =
  fixes S :: "'g services" and R :: "world \<Rightarrow> world \<Rightarrow> bool"
  assumes preorder: "preorder_rel R"
    and get_snapshot: "guarantees R (st_get_snapshot (sv_env S) user grp)"
    and begin_operation: "guarantees R (st_begin_pull_operation (sv_env S) (sv_lib S) user key h lease x)"
    and get_operation: "guarantees R (st_get_pull_operation (sv_env S) (sv_lib S) user key)"
    and get_by_key: "guarantees R (st_get_pull_operation_by_key (sv_env S) k)"
    and commit: "po_status po = Event_Pending \<Longrightarrow>
      guarantees R (st_commit (sv_env S) k user grp h v p po token)"
    and transition: "po_status po = Failed \<Longrightarrow> guarantees R (st_transition (sv_env S) k user h token po)"
    and save: "po_status po \<in> {Event_Published, Failed} \<Longrightarrow> guarantees R (st_save (sv_env S) (sv_lib S) user key po)"
    and save_by_key: "po_status po \<in> {Event_Published, Failed} \<Longrightarrow> guarantees R (st_save_by_key (sv_env S) k po)"
    and scans: "guarantees R (st_iter_event_pending (sv_env S) limit)"
      "guarantees R (st_iter_refund_pending (sv_env S) limit)"
      "guarantees R (st_iter_expired_processing (sv_env S) limit)"
    and claims: "guarantees R (st_claim_expired_processing (sv_env S) k lease)"
      "guarantees R (st_claim_recovery (sv_env S) k st ttl)" "guarantees R (st_release_recovery (sv_env S) k)"
    and pause: "guarantees R (svc_sleep (sv_env S))"
    and send: "guarantees R (publish_pull_completed (sv_env S) topic ev)"
    and credit: "guarantees R (asset_credit (sv_env S) (sv_lib S) (sv_asset_client S) user a key reason md rid)"
    and delivery: "guarantees R (deliver_pull_event S record response ev)"
begin

lemmas primitives = preorder get_snapshot begin_operation get_operation get_by_key scans claims pause send
  credit delivery

lemmas relate = primitives guarantees_pure[OF preorder] guarantees_bind[OF preorder] guarantees_then[OF preorder]
  guarantees_catch[OF preorder] guarantees_try[OF preorder] guarantees_finally[OF preorder]
  guarantees_if guarantees_case_option guarantees_case_sum guarantees_case_prod guarantees_let

lemma saved_by_key: "guarantees R (st_save_by_key (sv_env S) k (operation_with Event_Published h a b))"
  "guarantees R (st_save_by_key (sv_env S) k (failed_operation h c m))"
  by (simp_all add: save_by_key operation_with_def failed_operation_def)

lemma saved: "guarantees R (st_save (sv_env S) (sv_lib S) user key (operation_with Event_Published h a b))"
  "guarantees R (st_save (sv_env S) (sv_lib S) user key (failed_operation h c m))"
  by (simp_all add: save operation_with_def failed_operation_def)

lemma ignore: "guarantees R m \<Longrightarrow> guarantees R (ignore_store_error m)"
  unfolding ignore_store_error_def by (auto intro!: relate split: exn.splits)

lemma publish: "guarantees R (publish_pull_completed_with_retry S ev)"
  unfolding publish_pull_completed_with_retry_def
  by (intro guarantees_publish_attempts preorder send pause)

lemma publish_caught: "guarantees R (eff_catch (publish_pull_completed_with_retry S ev) on_publish_error)"
  by (auto intro!: relate publish simp: on_publish_error_def split: exn.splits)

lemma publish_and_complete: "guarantees R (publish_and_complete_claimed_pull S k h resp ev)"
  unfolding publish_and_complete_claimed_pull_def
  by (intro relate publish_caught ignore saved_by_key)

lemma credit_caught:
  "guarantees R (eff_catch (asset_credit (sv_env S) (sv_lib S) (sv_asset_client S) user a key reason md rid)
     on_refund_error)"
  by (auto intro!: relate simp: on_refund_error_def split: exn.splits)

lemma refund_claimed: "guarantees R (refund_claimed_spend S user k h x md c m)"
  unfolding refund_claimed_spend_def by (intro relate credit_caught saved_by_key)

lemma refund: "guarantees R (refund_spend S user key h ev a md rid c m)"
  unfolding refund_spend_def mark_pull_operation_failed_def save_pull_operation_best_effort_def
  by (intro relate credit_caught ignore saved)

lemma handle_claimed: "guarantees R (handle_claimed_pull_operation S po user k h x md)"
  unfolding handle_claimed_pull_operation_def
  by (auto intro!: relate publish_and_complete refund_claimed split: option.splits pull_operation_status.splits)

lemma handle_existing: "guarantees R (handle_existing_pull_operation S po user key h ev a rid md)"
  unfolding handle_existing_pull_operation_def save_pull_operation_best_effort_def
  by (auto intro!: relate publish_caught refund ignore saved split: option.splits pull_operation_status.splits)

lemma commit_loop: "guarantees R (commit_attempts S user k h token x n)"
proof (induction n)
  case (Suc n)
  have "guarantees R (st_commit (sv_env S) k user grp h v p (operation_with Event_Pending h a b) token)" for grp v p a b
    by (rule commit) (simp add: operation_with_def)
  then show ?case
    unfolding commit_attempts.simps by (auto intro!: relate Suc.IH split: exn.splits)
qed (simp add: guarantees_pure preorder)

lemma commit_error: "guarantees R (on_commit_error S user k h x e)"
  unfolding on_commit_error_def by (auto intro!: relate handle_claimed split: exn.splits)

lemma spend_error: "guarantees R (on_spend_error S user k h token e)"
proof -
  have "guarantees R (st_transition (sv_env S) k user h token (failed_operation h c m))" for c m
    by (rule transition) (simp add: failed_operation_def)
  then show ?thesis
    unfolding on_spend_error_def by (auto intro!: relate split: exn.splits)
qed

lemma attempt: "guarantees R m \<Longrightarrow> guarantees R (recovered m)"
  unfolding recovered_def by (intro relate)

lemma valued: "guarantees R m \<Longrightarrow> guarantees R (on_store_error_value v m)"
  unfolding on_store_error_value_def by (auto intro!: relate split: exn.splits)

lemma each: "(\<And>record. guarantees R (step record)) \<Longrightarrow> guarantees R (recover_each step records n)"
  by (induction records arbitrary: n) (auto intro!: relate)

lemma locked: "guarantees R m \<Longrightarrow> guarantees R (with_recovery_lock S ttl record st m)"
  unfolding with_recovery_lock_def by (auto intro!: relate attempt valued ignore)

lemma event_record: "guarantees R (recover_event_step S ttl record)"
  unfolding recover_event_step_def Let_def by (auto intro!: relate locked)

lemma refund_record: "guarantees R (recover_refund_step S ttl record)"
  unfolding recover_refund_step_def Let_def by (auto intro!: relate locked refund_claimed)

end

locale service_flow = service_calls +
  assumes claim_or_resume: "guarantees R (claim_or_resume_pull S user key h x rid)"
    and expired_step: "guarantees R (recover_expired_step S lease record)"
begin

lemma request: "guarantees R (create_pull S current rq user key accepted rid)"
  unfolding create_pull_def resume_without_banner_def pull_on_config_def handle_existing_pull_request_def Let_def
  by (auto intro!: relate claim_or_resume handle_existing simp: on_store_error_def split: exn.splits sum.splits)

lemmas steps = expired_step event_record refund_record

lemma passes: "guarantees R (recover_expired_processing_pulls_once S limit lease)"
  "guarantees R (recover_pending_pull_events_once S limit ttl)"
  "guarantees R (recover_pending_pull_refunds_once S limit ttl)"
  unfolding recover_expired_processing_pulls_once_def recover_pending_pull_events_once_def
    recover_pending_pull_refunds_once_def recover_scanned_def
  by (auto intro!: relate valued each steps)

lemma recovery: "guarantees R (recovery_pass S batch ttl)"
  unfolding recovery_pass_def by (auto intro!: relate passes)

end

locale service_relation = service_calls +
  assumes spend: "guarantees R (asset_spend (sv_env S) (sv_lib S) (sv_asset_client S) user a key reason md rid)"
begin

lemma execute: "guarantees R (execute_claimed_pull S user k h token x)"
  unfolding execute_claimed_pull_def generate_and_commit_pull_with_retry_def
  by (intro relate spend spend_error commit_error commit_loop) (auto intro!: publish_and_complete split: prod.splits)

lemma executed: "guarantees R (claim_or_resume_pull S user key h x rid)"
  "guarantees R (recover_expired_step S lease record)"
  unfolding claim_or_resume_pull_def recover_expired_step_def Let_def
  by (auto intro!: relate execute handle_existing valued attempt simp: on_store_error_def split: exn.splits)

end

sublocale service_relation \<subseteq> service_flow
  by unfold_locales (rule executed)+

section \<open>The database only advances\<close>

definition advances :: "'g services \<Rightarrow> world \<Rightarrow> world \<Rightarrow> bool" where
  "advances S w w' \<longleftrightarrow> (lawful_env (sv_env S) \<longrightarrow> store_steps (w_db w) (w_db w'))"

lemma preorder_advances: "preorder_rel (advances S)"
  by (auto simp: preorder_rel_def advances_def intro!: reflpI transpI)

lemma quiet_advances: "(lawful_env (sv_env S) \<Longrightarrow> guarantees quiet m) \<Longrightarrow> guarantees (advances S) m"
  by (auto simp: guarantees_def advances_def quiet_def)

lemma mostly_quiet_advances:
  "(lawful_env (sv_env S) \<Longrightarrow> guarantees mostly_quiet m) \<Longrightarrow> guarantees (advances S) m"
  by (auto simp: guarantees_def advances_def mostly_quiet_def)

lemma advances_http: "guarantees (advances S) (http_call (sv_env S) q)"
  by (auto simp: guarantees_def advances_def http_call_def tick_def lawful_step)

lemma advances_publish: "guarantees (advances S) (publish_pull_completed_with_retry S ev)"
  unfolding publish_pull_completed_with_retry_def
  by (intro guarantees_publish_attempts preorder_advances mostly_quiet_advances mostly_quiet_publish)

lemma advances_receipt: "guarantees (advances S) (has_pull_event (sv_env S) L c user eid)"
  unfolding has_pull_event_def Let_def
  by (auto intro!: guarantees_intros preorder_advances advances_http split: http_outcome.splits prod.splits)

lemma advances_post: "guarantees (advances S) (post_entry (sv_env S) L c path user a key reason md rid)"
  unfolding post_entry_def Let_def
  by (auto intro!: guarantees_intros preorder_advances advances_http split: http_outcome.splits prod.splits)

interpretation advancing: service_relation S "advances S" for S
proof
  show "guarantees (advances S) (deliver_pull_event S rd response ev)" for rd response ev
    unfolding deliver_pull_event_def Let_def
    by (auto intro!: guarantees_intros preorder_advances advances_publish advances_receipt
        quiet_advances[OF st_quiet(11)] split: option.splits)
  show "guarantees (advances S) (publish_pull_completed (sv_env S) topic ev)" for topic ev
    by (intro mostly_quiet_advances mostly_quiet_publish)
qed (auto simp: asset_credit_def asset_spend_def intro!: preorder_advances advances_post quiet_advances st_quiet)

section \<open>Success is confirmed\<close>

text \<open>No row becomes "succeeded".\<close>

definition no_new_success :: "database \<Rightarrow> database \<Rightarrow> bool" where
  "no_new_success db db' \<longleftrightarrow> (\<forall>r' \<in> set (db_ops db'). op_status r' = Succeeded \<longrightarrow>
     (\<exists>r \<in> set (db_ops db). op_id r = op_id r' \<and> op_status r = Succeeded \<and> op_event r = op_event r'))"

lemma preorder_no_new_success [simp]: "preorder_rel no_new_success"
  unfolding preorder_rel_def reflp_def transp_def no_new_success_def by (metis (no_types, lifting))

lemma same_ops_no_new_success: "db_ops db' = db_ops db \<Longrightarrow> no_new_success db db'"
  by (auto simp: no_new_success_def)

lemma update_no_new_success:
  assumes "\<And>r. op_status (upd r) = Succeeded \<Longrightarrow> op_status r = Succeeded"
  shows "guarantees no_new_success (update_ops sel upd)"
proof (rule guaranteesI)
  fix db res db'
  assume "update_ops sel upd db = (res, db')"
  then show "no_new_success db db'"
  proof (cases rule: update_ops_cases)
    case ok
    have "\<exists>r \<in> set (db_ops db). op_id r = op_id s \<and> op_status r = Succeeded \<and> op_event r = op_event s"
      if s: "s \<in> set (db_ops db')" "op_status s = Succeeded" for s
    proof -
      from s(1) obtain r where r: "r \<in> set (db_ops db)" "s = updated sel upd r" by (auto simp: ok(2))
      have "\<not> sel r" using ok(3) r s(2) assms[of r] by (auto simp: updated_def protect_update_def)
      with r s(2) show ?thesis by (auto simp: updated_def)
    qed
    then show ?thesis by (simp add: no_new_success_def)
  qed (simp add: same_ops_no_new_success)
qed

lemma no_new_success_statements:
  "guarantees no_new_success (claim_processing_operation_sql now user kh h token lease ctx)"
  "po_status po \<noteq> Succeeded \<Longrightarrow> guarantees no_new_success (update_pull_operation_sql now oid po)"
  "po_status po \<noteq> Succeeded \<Longrightarrow> guarantees no_new_success (transition_processing_operation_sql now oid user h token po)"
  "po_status po \<noteq> Succeeded \<Longrightarrow> guarantees no_new_success (save_pull_operation_sql now user kh po)"
  "guarantees no_new_success (claim_expired_processing_operation_sql now oid token lease)"
  "guarantees no_new_success (claim_pending_operation_sql now oid lock expected)"
  "guarantees no_new_success (release_pending_operation_sql now oid)"
  "guarantees no_new_success (insert_pull_operation_sql (new_op_row oid user kh h token now' lease ctx rid))"
  unfolding claim_processing_operation_sql_def update_pull_operation_sql_def
    transition_processing_operation_sql_def save_pull_operation_sql_def
    claim_expired_processing_operation_sql_def claim_pending_operation_sql_def
    release_pending_operation_sql_def
  by (auto intro!: update_no_new_success simp: release_claim_def with_operation_def)
     (auto simp: guarantees_def no_new_success_def insert_pull_operation_sql_def new_op_row_def)

interpretation successes: store_relation no_new_success "\<lambda>po. po_status po \<noteq> Succeeded"
  by unfold_locales (auto intro: no_new_success_statements same_ops_no_new_success)

text \<open>Other sessions that report no success of their own.\<close>

definition sober_env :: "env \<Rightarrow> bool" where
  "sober_env E \<longleftrightarrow> (\<forall>n db. no_new_success db (e_others E n db))"

text \<open>
  An await between two worlds at which the backpack service answered, with a success status, that it
  holds this event; and the request that asked for it is in the log.
\<close>

definition receipted :: "'g services \<Rightarrow> uuid \<Rightarrow> world \<Rightarrow> world \<Rightarrow> bool" where
  "receipted S event_id w w' \<longleftrightarrow>
     (\<exists>c n status b. sv_backpack_receipt_client S = Some c \<and> w_clock w \<le> n \<and> n < w_clock w' \<and>
        e_http (sv_env S) n = Http_Response status (Some b) \<and> is_success status \<and>
        json_get (json_get b ''event'') ''event_id'' = JStr (uuid_str event_id) \<and>
        (\<exists>q \<in> set (w_http w'). hq_method q = ''GET'' \<and> hq_url q = receipt_url c event_id))"

definition confirmed :: "'g services \<Rightarrow> op_row \<Rightarrow> world \<Rightarrow> world \<Rightarrow> bool" where
  "confirmed S r w w' \<longleftrightarrow>
     (\<exists>ev event_id. op_event r = Some ev \<and> uuid_parse (ev_event_id ev) = Some event_id \<and>
        receipted S event_id w w')"

definition forward :: "world \<Rightarrow> world \<Rightarrow> bool" where
  "forward w w' \<longleftrightarrow> w_clock w \<le> w_clock w' \<and> set (w_http w) \<subseteq> set (w_http w')"

definition confirms :: "'g services \<Rightarrow> world \<Rightarrow> world \<Rightarrow> bool" where
  "confirms S w w' \<longleftrightarrow> (sober_env (sv_env S) \<longrightarrow> forward w w' \<and>
     (\<forall>r' \<in> set (db_ops (w_db w')). op_status r' = Succeeded \<longrightarrow>
        (\<exists>r \<in> set (db_ops (w_db w)). op_id r = op_id r' \<and> op_status r = Succeeded \<and> op_event r = op_event r') \<or>
        confirmed S r' w w'))"

lemma receipted_wider:
  "receipted S i v w \<Longrightarrow> w_clock u \<le> w_clock v \<Longrightarrow> forward w x \<Longrightarrow> receipted S i u x"
  unfolding receipted_def forward_def by (meson le_trans less_le_trans subsetD)

lemma confirmed_wider:
  "confirmed S r v w \<Longrightarrow> w_clock u \<le> w_clock v \<Longrightarrow> forward w x \<Longrightarrow> op_event s = op_event r \<Longrightarrow> confirmed S s u x"
  unfolding confirmed_def by (metis receipted_wider)

lemma preorder_confirms: "preorder_rel (confirms S)"
  unfolding preorder_rel_def
proof
  show "reflp (confirms S)" by (auto simp: confirms_def forward_def intro!: reflpI)
  show "transp (confirms S)"
  proof (rule transpI)
    fix u v w assume uv: "confirms S u v" and vw: "confirms S v w"
    show "confirms S u w"
      unfolding confirms_def
    proof (intro impI conjI ballI)
      assume E: "sober_env (sv_env S)"
      have f: "forward u v" "forward v w" using E uv vw by (simp_all add: confirms_def)
      then show "forward u w" by (auto simp: forward_def)
      fix t assume t: "t \<in> set (db_ops (w_db w))" "op_status t = Succeeded"
      show "(\<exists>r \<in> set (db_ops (w_db u)). op_id r = op_id t \<and> op_status r = Succeeded \<and> op_event r = op_event t) \<or>
          confirmed S t u w"
      proof (cases "confirmed S t v w")
        case True
        then show ?thesis
          using confirmed_wider[OF True, of u w t] f by (auto simp: forward_def)
      next
        case False
        then obtain s where s: "s \<in> set (db_ops (w_db v))" "op_id s = op_id t" "op_status s = Succeeded"
            "op_event s = op_event t"
          using E vw t by (auto simp: confirms_def)
        show ?thesis
        proof (cases "confirmed S s u v")
          case True
          then show ?thesis using confirmed_wider[OF True, of u w t] f s by auto
        next
          case False
          with E uv s(1,3) obtain r where "r \<in> set (db_ops (w_db u))" "op_id r = op_id s"
              "op_status r = Succeeded" "op_event r = op_event s"
            by (auto simp: confirms_def)
          with s(2,4) show ?thesis by auto
        qed
      qed
    qed
  qed
qed

lemma plain_confirms:
  "(sober_env (sv_env S) \<Longrightarrow> forward w w' \<and> no_new_success (w_db w) (w_db w')) \<Longrightarrow> confirms S w w'"
  by (auto simp: confirms_def no_new_success_def)

lemma tick_confirms: "sober_env E \<Longrightarrow> forward w (tick E w) \<and> no_new_success (w_db w) (w_db (tick E w))"
  by (simp add: forward_def tick_def sober_env_def)

lemma confirms_db_call:
  assumes "\<And>n. sober_env (sv_env S) \<Longrightarrow> guarantees no_new_success (m n)"
  shows "guarantees (confirms S) (db_call (sv_env S) msg m)"
proof (rule guaranteesI)
  fix w r w'
  assume c: "db_call (sv_env S) msg m w = (r, w')"
  show "confirms S w w'"
  proof (rule plain_confirms)
    assume E: "sober_env (sv_env S)"
    let ?d = "e_others (sv_env S) (w_clock w) (w_db w)"
    obtain x d where x: "m (w_clock w) ?d = (x, d)" by force
    have 1: "no_new_success ?d d" using guaranteesD[OF assms[OF E] x] .
    have 2: "no_new_success (w_db w) ?d" using E by (simp add: sober_env_def)
    from preorder_relD(2)[OF preorder_no_new_success 2 1]
    show "forward w w' \<and> no_new_success (w_db w) (w_db w')"
      using c x 2 by (auto simp: db_call_def Let_def tick_def forward_def split: db_outcome.splits)
  qed
qed

lemma confirms_pass: "guarantees (confirms S) m \<Longrightarrow> guarantees (confirms S) (pass k m)"
proof (rule guaranteesI)
  fix w r w'
  assume m: "guarantees (confirms S) m" and p: "pass k m w = (r, w')"
  from p obtain v where v: "m w = (r, v)" "w' = v\<lparr>w_clock := w_clock v + k\<rparr>"
    by (auto simp: pass_def split: prod.splits)
  have "confirms S v w'" by (rule plain_confirms) (simp add: v forward_def same_ops_no_new_success)
  then show "confirms S w w'"
    using preorder_relD(2)[OF preorder_confirms] guaranteesD[OF m v(1)] by blast
qed

lemma confirms_calls:
  "guarantees (confirms S) (svc_sleep (sv_env S))" "guarantees (confirms S) (http_call (sv_env S) q)"
  "guarantees (confirms S) (ensure_started (sv_env S))" "guarantees (confirms S) (send_and_wait (sv_env S) m)"
  using tick_confirms
  by (auto simp: guarantees_def svc_sleep_def http_call_def ensure_started_def send_and_wait_def Let_def
      forward_def same_ops_no_new_success intro!: plain_confirms split: send_outcome.splits)

lemma confirms_publish: "guarantees (confirms S) (publish_pull_completed (sv_env S) topic ev)"
  unfolding publish_pull_completed_def by (intro guarantees_then preorder_confirms confirms_calls)

lemma confirms_receipt: "guarantees (confirms S) (has_pull_event (sv_env S) L c user i)"
  unfolding has_pull_event_def Let_def
  by (auto intro!: guarantees_intros preorder_confirms confirms_calls split: http_outcome.splits prod.splits)

lemma receipt_receipted:
  assumes "has_pull_event (sv_env S) L c user i w = (Inr True, v)" "sv_backpack_receipt_client S = Some c"
  shows "receipted S i w v"
proof -
  let ?n = "w_clock w"
  from assms(1) obtain status b where b: "e_http (sv_env S) ?n = Http_Response status (Some b)"
      "is_success status" "json_get (json_get b ''event'') ''event_id'' = JStr (uuid_str i)"
    by (auto simp: has_pull_event_def http_call_def eff_defs Let_def
        split: http_outcome.splits prod.splits if_splits option.splits)
  from assms(1) have v: "w_clock v = ?n + 1"
      "w_http v = w_http w @ [get_request (receipt_url c i) [(''X-Internal-Token'', sc_internal_token c),
         (''X-User-Id'', uuid_str user), (''X-Request-Id'', uuid_str i)]]"
    by (auto simp: has_pull_event_def http_call_def eff_defs Let_def tick_def
        split: http_outcome.splits prod.splits if_splits option.splits)
  show ?thesis
    unfolding receipted_def
    by (rule exI[of _ c], rule exI[of _ ?n], rule exI[of _ status], rule exI[of _ b])
       (use assms(2) b v in \<open>simp add: get_request_def\<close>)
qed

text \<open>A save of an operation makes no other row succeed than those with its event.\<close>

lemma saved_rows:
  assumes "save_pull_operation_by_key now k po db = (res, db')" "s \<in> set (db_ops db')"
  shows "s \<in> set (db_ops db) \<or> op_event s = po_event po"
proof (cases "operation_id_of k")
  case (Inl e)
  with assms show ?thesis by (simp add: save_pull_operation_by_key_def eff_defs)
next
  case (Inr oid)
  obtain rows d where u: "update_pull_operation_sql now oid po db = (rows, d)" by force
  have d: "db' = d"
    using assms(1) Inr u by (auto simp: save_pull_operation_by_key_def eff_defs split: sum.splits if_splits)
  from u[unfolded update_pull_operation_sql_def] show ?thesis
  proof (cases rule: update_ops_cases)
    case ok
    then show ?thesis using assms(2) d by (auto simp: updated_def release_claim_def with_operation_def)
  qed (use assms(2) d in auto)
qed

lemma st_saved_rows:
  assumes "st_save_by_key E k po w = (res, w')" "sober_env E"
  shows "forward w w' \<and> (\<forall>t \<in> set (db_ops (w_db w')). op_status t = Succeeded \<longrightarrow>
     (\<exists>r \<in> set (db_ops (w_db w)). op_id r = op_id t \<and> op_status r = Succeeded \<and> op_event r = op_event t) \<or>
     op_event t = po_event po)"
proof -
  let ?d = "e_others E (w_clock w) (w_db w)"
  obtain x d where x: "save_pull_operation_by_key (e_now E (w_clock w)) k po ?d = (x, d)" by force
  have old: "no_new_success (w_db w) ?d" using assms(2) by (simp add: sober_env_def)
  have "w_db w' = d \<or> w_db w' = ?d" "forward w w'"
    using assms(1) x by (auto simp: st_save_by_key_def db_call_def Let_def tick_def forward_def
        split: db_outcome.splits)
  moreover have "(\<exists>r \<in> set (db_ops (w_db w)). op_id r = op_id s \<and> op_status r = Succeeded \<and>
      op_event r = op_event s) \<or> op_event s = po_event po"
    if "s \<in> set (db_ops ?d) \<or> op_event s = po_event po" "op_status s = Succeeded" for s
    using that old by (auto simp: no_new_success_def)
  ultimately show ?thesis
    using saved_rows[OF x] by (metis (no_types, lifting))
qed

text \<open>The save of "succeeded" that follows a receipt.\<close>

lemma confirms_receipted_save:
  assumes wv: "confirms S w v" and rec: "receipted S i w v"
    and i: "uuid_parse (ev_event_id ev) = Some i" "po_event po = Some ev"
    and s: "st_save_by_key (sv_env S) k po v = (r, w')"
  shows "confirms S w w'"
  unfolding confirms_def
proof (intro impI conjI ballI)
  assume E: "sober_env (sv_env S)"
  note rows = st_saved_rows[OF s E]
  have f: "forward w v" "forward v w'" using wv E rows by (simp_all add: confirms_def)
  then show "forward w w'" by (auto simp: forward_def)
  fix t assume t: "t \<in> set (db_ops (w_db w'))" "op_status t = Succeeded"
  from rows t consider (old) r where "r \<in> set (db_ops (w_db v))" "op_id r = op_id t"
      "op_status r = Succeeded" "op_event r = op_event t"
    | (saved) "op_event t = Some ev"
    using i by auto
  then show "(\<exists>r \<in> set (db_ops (w_db w)). op_id r = op_id t \<and> op_status r = Succeeded \<and>
      op_event r = op_event t) \<or> confirmed S t w w'"
  proof cases
    case saved
    then show ?thesis
      using i receipted_wider[OF rec _ f(2)] by (auto simp: confirmed_def)
  next
    case (old r)
    with wv E consider q where "q \<in> set (db_ops (w_db w))" "op_id q = op_id r"
        "op_status q = Succeeded" "op_event q = op_event r"
      | "confirmed S r w v"
      by (auto simp: confirms_def)
    then show ?thesis
    proof cases
      case 1
      with old show ?thesis by auto
    next
      case 2
      with confirmed_wider[OF 2 _ f(2), of w t] old show ?thesis by simp
    qed
  qed
qed

lemma confirms_receipt_branch:
  fixes S :: "'g services"
  assumes c: "sv_backpack_receipt_client S = Some c"
    and i: "uuid_parse (ev_event_id ev) = Some i" "po_event po = Some ev"
    and retry: "guarantees (confirms S) m"
  shows "guarantees (confirms S) (eff_bind (has_pull_event (sv_env S) (sv_lib S) c user i)
    (\<lambda>reward_applied. if reward_applied then st_save_by_key (sv_env S) k po else m))"
proof (rule guaranteesI)
  fix w r w'
  assume run: "eff_bind (has_pull_event (sv_env S) (sv_lib S) c user i)
    (\<lambda>reward_applied. if reward_applied then st_save_by_key (sv_env S) k po else m) w = (r, w')"
  obtain a v where h: "has_pull_event (sv_env S) (sv_lib S) c user i w = (a, v)" by force
  have wv: "confirms S w v" by (rule guaranteesD[OF confirms_receipt h])
  consider e where "a = Inl e" | "a = Inr True" | "a = Inr False"
    by (cases a) auto
  then show "confirms S w w'"
  proof cases
    case 1
    with run h wv show ?thesis by (simp add: eff_bind_def)
  next
    case 2
    with run h have "st_save_by_key (sv_env S) k po v = (r, w')" by (simp add: eff_bind_def)
    then show ?thesis
      using confirms_receipted_save[OF wv receipt_receipted[OF h[unfolded 2] c] i] by blast
  next
    case 3
    with run h have "m v = (r, w')" by (simp add: eff_bind_def)
    from preorder_relD(2)[OF preorder_confirms wv guaranteesD[OF retry this]] show ?thesis .
  qed
qed

lemma confirms_delivery: "guarantees (confirms S) (deliver_pull_event S rd response ev)"
proof -
  have retry: "guarantees (confirms S) (publish_pull_completed_with_retry S ev)"
    unfolding publish_pull_completed_with_retry_def
    by (intro guarantees_publish_attempts preorder_confirms confirms_publish confirms_calls)
  have save: "guarantees (confirms S) (st_save_by_key (sv_env S) k
      (operation_with Event_Published h (Some response) (Some ev)))" for k h
    unfolding st_save_by_key_def
    by (intro confirms_db_call successes.methods) (simp add: operation_with_def)
  show ?thesis
    unfolding deliver_pull_event_def Let_def
    by (intro guarantees_if guarantees_case_option guarantees_then guarantees_pure preorder_confirms
        retry save confirms_receipt_branch)
       (simp_all add: operation_with_def)
qed

lemma confirms_post: "guarantees (confirms S) (post_entry (sv_env S) L c path user a key reason md rid)"
  unfolding post_entry_def Let_def
  by (auto intro!: guarantees_intros preorder_confirms confirms_calls split: http_outcome.splits prod.splits)

interpretation confirming: service_relation S "confirms S" for S
proof
  show "guarantees (confirms S) (deliver_pull_event S rd response ev)" for rd response ev
    by (rule confirms_delivery)
  show "guarantees (confirms S) (st_begin_pull_operation (sv_env S) (sv_lib S) user key h lease x)"
    for user key h lease x
    unfolding st_begin_pull_operation_def
    by (intro confirms_pass confirms_db_call successes.begins) (simp_all add: sober_env_def)
qed (auto simp: st_defs asset_credit_def asset_spend_def intro!: preorder_confirms confirms_calls confirms_publish
    confirms_post confirms_db_call     successes.methods)

end
