(* ===== verification/Recovery_Guarantees.thy ===== *)
theory Recovery_Guarantees
  imports Service_Relations Flow_Guarantees
begin

text \<open>
  The recovery worker together with the requests. \<open>service_step\<close> is one whole request or one whole
  iteration of the worker, at any moment and in any environment; the outbox invariant is proved for
  every world it reaches. One pass is shown to survive every record it cannot handle. What a pass
  brings about when nothing fails is shown in \<open>Delivery_Guarantees\<close> and \<open>Completion_Guarantees\<close>.
\<close>

section \<open>Records of a scan\<close>

text \<open>What a record taken from a scan still means in a later world.\<close>

definition scanned :: "pull_operation_record \<Rightarrow> world \<Rightarrow> bool" where
  "scanned rd w \<longleftrightarrow>
     (\<exists>kh. owned (or_operation_key rd) (or_user_id rd) kh w) \<and>
     (\<forall>ev. po_event (or_operation rd) = Some ev \<and>
        po_status (or_operation rd) \<in> {Event_Pending, Event_Published} \<longrightarrow> committed_event ev w)"

lemma scanned_row: "r \<in> set (db_ops (w_db w)) \<Longrightarrow> scanned (pending_record_from_row r) w"
  by (auto simp: scanned_def pending_record_from_row_def operation_from_row_def owned_def row_of_def
      committed_event_def has_evidence_def)

lemma scanned_steps: "scanned rd w \<Longrightarrow> store_steps (w_db w) (w_db w') \<Longrightarrow> scanned rd w'"
  unfolding scanned_def by (blast intro: owned_steps committed_event_steps)

lemma set_take_sort: "x \<in> set (take n (sort_key f xs)) \<Longrightarrow> x \<in> set xs"
  by (metis set_sort set_take_subset subsetD)

lemma scan_rows:
  "st_iter_event_pending E limit w = (Inr records, w') \<Longrightarrow> list_all (\<lambda>rd. scanned rd w') records"
  "st_iter_refund_pending E limit w = (Inr records, w') \<Longrightarrow> list_all (\<lambda>rd. scanned rd w') records"
  "st_iter_expired_processing E limit w = (Inr records, w') \<Longrightarrow> list_all (\<lambda>rd. scanned rd w') records"
  by (auto simp: st_defs db_call_def Let_def db_query_def iter_event_pending_pull_operations_def
      iter_refund_pending_pull_operations_def iter_expired_processing_pull_operations_def list_all_iff
      select_pending_operations_sql_def select_refund_pending_operations_sql_def
      select_expired_processing_operations_sql_def tick_def
      split: db_outcome.splits dest!: set_take_sort intro!: scanned_row)

section \<open>Every pass keeps the invariant\<close>

definition keeps_inv :: "'a svc \<Rightarrow> world \<Rightarrow> bool" where
  "keeps_inv m w \<longleftrightarrow> wp m (\<lambda>_. service_inv) (\<lambda>_. service_inv) w"

lemma keeps_inv_quiet: "guarantees quiet m \<Longrightarrow> service_inv w \<Longrightarrow> keeps_inv m w"
  unfolding keeps_inv_def by (rule quiet_inv)

lemma keeps_inv_recovered: "keeps_inv m w \<Longrightarrow> keeps_inv (recovered m) w"
  unfolding keeps_inv_def recovered_def wp_simps by (erule wp_mono) (simp_all add: wp_simps)

lemma on_store_error_value_quiet [guarantees_intros]:
  "guarantees quiet m \<Longrightarrow> guarantees quiet (on_store_error_value v m)"
  unfolding on_store_error_value_def by (auto intro!: guarantees_intros split: exn.splits)

lemma wp_on_store_error_value:
  assumes "guarantees quiet m"
    and "\<And>x w'. quiet w w' \<Longrightarrow> m w = (Inr x, w') \<Longrightarrow> Q x w'"
    and "\<And>w'. quiet w w' \<Longrightarrow> Q v w'" and "\<And>e w'. quiet w w' \<Longrightarrow> X e w'"
  shows "wp (on_store_error_value v m) Q X w"
  unfolding on_store_error_value_def wp_simps
  by (rule wp_quiet[OF assms(1)]) (auto simp: wp_simps assms(2-4) split: exn.splits)

lemma locked_keeps:
  assumes E: "lawful_env (sv_env S)" and inv: "service_inv w"
    and body: "\<And>w'. quiet w w' \<Longrightarrow> keeps_inv body w'"
  shows "keeps_inv (with_recovery_lock S ttl rd st body) w"
proof -
  have "wp (ignore_store_error (st_release_recovery (sv_env S) k)) (\<lambda>_. service_inv) (\<lambda>_. service_inv) v"
    if "service_inv v" for v k
    by (intro quiet_inv ignore_store_quiet st_quiet E that)
  then have rel: "keeps_inv (eff_finally (recovered body)
      (ignore_store_error (st_release_recovery (sv_env S) (or_operation_key rd)))) w'" if "quiet w w'" for w'
    using keeps_inv_recovered[OF body[OF that]] unfolding keeps_inv_def wp_simps
    by (elim wp_mono) simp_all
  show ?thesis
    unfolding keeps_inv_def with_recovery_lock_def wp_bind
    by (rule wp_on_store_error_value[OF st_quiet(16)[OF E]])
       (use rel quiet_stable(4)[OF _ inv] in \<open>auto simp: keeps_inv_def wp_simps\<close>)
qed

lemma publish_keeps:
  assumes E: "lawful_env (sv_env S)" and inv: "service_inv w" "committed_event ev w"
  shows "keeps_inv (publish_pull_completed_with_retry S ev) w"
  unfolding keeps_inv_def
  by (rule wp_publish[OF E]; erule published_stable(4)[OF _ _ inv(1)])
     (use inv(2) in \<open>simp_all add: kafka_message_of_def\<close>)

lemma keeps_inv_return: "service_inv w \<Longrightarrow> keeps_inv (eff_return x) w"
  by (simp add: keeps_inv_def wp_pure)

lemma keeps_inv_then:
  "keeps_inv m w \<Longrightarrow> (\<And>w'. service_inv w' \<Longrightarrow> keeps_inv n w') \<Longrightarrow> keeps_inv (eff_then m n) w"
  unfolding keeps_inv_def wp_then by (erule wp_mono) simp_all

lemma deliver_keeps:
  assumes E: "lawful_env (sv_env S)" and inv: "service_inv w" "committed_event ev w"
  shows "keeps_inv (deliver_pull_event S rd response ev) w"
proof -
  have save: "keeps_inv (st_save_by_key (sv_env S) k po) v" if "service_inv v" for k po v
    by (rule keeps_inv_quiet[OF st_quiet(11)[OF E] that])
  have receipt: "wp (has_pull_event (sv_env S) (sv_lib S) c user i)
      (\<lambda>_ w'. service_inv w' \<and> committed_event ev w') (\<lambda>_. service_inv) w" for c user i
    unfolding has_pull_event_def wp_simps
    by (rule wp_http[OF E])
       (use http_stable inv in \<open>auto simp: wp_simps Let_def split: http_outcome.splits prod.splits option.splits\<close>)
  have confirm: "keeps_inv (eff_bind (has_pull_event (sv_env S) (sv_lib S) c user i)
      (\<lambda>applied. if applied then st_save_by_key (sv_env S) k po else publish_pull_completed_with_retry S ev)) w"
    for c user i k po
    unfolding keeps_inv_def wp_bind
    by (rule wp_mono[OF receipt])
       (use save publish_keeps[OF E] in \<open>auto simp: keeps_inv_def\<close>)
  show ?thesis
    unfolding deliver_pull_event_def Let_def
    using keeps_inv_then[OF publish_keeps[OF E inv] save] confirm inv(1)
    by (auto simp: keeps_inv_def wp_pure split: option.splits)
qed

lemma event_step_keeps:
  assumes E: "lawful_env (sv_env S)" and inv: "service_inv w" "scanned rd w"
  shows "keeps_inv (recover_event_step S ttl rd) w"
proof -
  have "keeps_inv (with_recovery_lock S ttl rd st (deliver_pull_event S rd response ev)) w"
    if "po_event (or_operation rd) = Some ev" "po_status (or_operation rd) \<in> {Event_Pending, Event_Published}"
    for st response ev
  proof (rule locked_keeps[OF E inv(1)])
    fix w' assume q: "quiet w w'"
    have "committed_event ev w" using inv(2) that by (auto simp: scanned_def)
    with quiet_stable(3)[OF q] have "committed_event ev w'" by blast
    then show "keeps_inv (deliver_pull_event S rd response ev) w'"
      by (rule deliver_keeps[OF E quiet_stable(4)[OF q inv(1)]])
  qed
  then show ?thesis
    using inv(1) unfolding recover_event_step_def Let_def
    by (auto simp: keeps_inv_def wp_pure split: option.splits)
qed

lemma refund_step_keeps:
  assumes E: "lawful_env (sv_env S)" and inv: "service_inv w" "scanned rd w"
  shows "keeps_inv (recover_refund_step S ttl rd) w"
proof -
  from inv(2) obtain kh where own: "owned (or_operation_key rd) (or_user_id rd) kh w"
    by (auto simp: scanned_def)
  have "keeps_inv (with_recovery_lock S ttl rd st (refund_claimed_spend S user k h x md c m)) w"
    for st user k h x md c m
  proof (rule locked_keeps[OF E inv(1)])
    fix w' assume q: "quiet w w'"
    show "keeps_inv (refund_claimed_spend S user k h x md c m) w'"
      unfolding keeps_inv_def
      by (rule refund_claimed_ok[OF E quiet_stable(4)[OF q inv(1)] quiet_stable(1)[OF q own]])
  qed
  then show ?thesis
    using inv(1) unfolding recover_refund_step_def Let_def
    by (auto simp: keeps_inv_def wp_pure split: option.splits)
qed

lemma claim_expired_owned:
  assumes E: "lawful_env E"
    and c: "st_claim_expired_processing E k lease w = (Inr (Some cl), w')"
  shows "\<exists>kh. owned (rcl_operation_key cl) (rcl_user_id cl) kh w'"
proof -
  from db_call_InrD[OF E c[unfolded st_claim_expired_processing_def]] obtain d where
    d: "claim_expired_processing_pull_operation (e_now E (w_clock w)) (e_uuid4 E (w_clock w)) k lease d
      = (Inr (Some cl), w_db w')" by blast
  then obtain oid rows where
    "claim_expired_processing_operation_sql (e_now E (w_clock w)) oid (e_uuid4 E (w_clock w)) (max 1 lease) d
      = (Inr rows, w_db w')" and
    cl: "\<exists>r \<in> set rows. rcl_operation_key cl = uuid_str (op_id r) \<and> rcl_user_id cl = op_user_id r"
    by (auto simp: claim_expired_processing_pull_operation_def eff_defs
        split: sum.splits prod.splits list.splits)
  from this(1)[unfolded claim_expired_processing_operation_sql_def] show ?thesis
  proof (cases rule: update_ops_cases)
    case ok
    from cl obtain r where r: "r \<in> set rows" "rcl_operation_key cl = uuid_str (op_id r)"
      "rcl_user_id cl = op_user_id r" by blast
    from r(1) ok(1,2) have "r \<in> set (db_ops (w_db w'))" by (auto simp: updated_def)
    with r(2,3) show ?thesis by (auto simp: owned_def row_of_def)
  qed simp
qed

lemma expired_step_keeps:
  assumes E: "lawful_env (sv_env S)" and inv: "service_inv w"
  shows "keeps_inv (recover_expired_step S lease rd) w"
proof -
  have execute: "keeps_inv (recovered (execute_claimed_pull S (rcl_user_id cl) (rcl_operation_key cl) h t x)) w'"
    if "quiet w w'" "st_claim_expired_processing (sv_env S) k lease w = (Inr (Some cl), w')" for cl h t x k w'
  proof -
    from claim_expired_owned[OF E that(2)] obtain kh where
      "owned (rcl_operation_key cl) (rcl_user_id cl) kh w'" by blast
    from execute_claimed_ok[OF E quiet_stable(4)[OF that(1) inv] this, of h t x]
    have "keeps_inv (execute_claimed_pull S (rcl_user_id cl) (rcl_operation_key cl) h t x) w'"
      unfolding keeps_inv_def handler_ok_def by (rule wp_mono) simp_all
    then show ?thesis by (rule keeps_inv_recovered)
  qed
  have "keeps_inv (eff_bind (on_store_error_value None (st_claim_expired_processing (sv_env S) k lease))
      (\<lambda>claim. case claim of None \<Rightarrow> eff_return False
         | Some cl \<Rightarrow> (case po_recovery_context (rcl_operation cl) of None \<Rightarrow> eff_return False
             | Some x \<Rightarrow> recovered (execute_claimed_pull S (rcl_user_id cl) (rcl_operation_key cl)
                 (po_request_hash (rcl_operation cl)) (rcl_processing_token cl) x)))) w" for k
    unfolding keeps_inv_def wp_bind
    by (rule wp_on_store_error_value[OF st_quiet(15)[OF E]])
       (use execute quiet_stable(4)[OF _ inv] in \<open>auto simp: keeps_inv_def wp_pure split: option.splits\<close>)
  then show ?thesis
    using inv unfolding recover_expired_step_def by (simp add: keeps_inv_def wp_pure)
qed

text \<open>The loop over a scan: what each step needs of its record survives the steps before it.\<close>

lemma each_keeps:
  assumes E: "lawful_env (sv_env S)"
    and step: "\<And>rd w. service_inv w \<Longrightarrow> scanned rd w \<Longrightarrow> keeps_inv (step rd) w"
    and adv: "\<And>rd. guarantees (advances S) (step rd)"
  shows "service_inv w \<Longrightarrow> list_all (\<lambda>rd. scanned rd w) records \<Longrightarrow> keeps_inv (recover_each step records n) w"
proof (induction records arbitrary: n w)
  case (Cons rd records)
  have "wp (step rd) (\<lambda>_ w'. service_inv w' \<and> advances S w w') (\<lambda>_ w'. service_inv w' \<and> advances S w w') w"
    using wp_conj[OF step[of w rd, unfolded keeps_inv_def] guarantees_wp[OF adv]] Cons.prems by simp
  moreover have "list_all (\<lambda>rd. scanned rd w') records" if "advances S w w'" for w'
    using that E Cons.prems(2) scanned_steps by (auto simp: advances_def list_all_iff)
  ultimately show ?case
    unfolding recover_each.simps keeps_inv_def wp_bind
    by (elim wp_mono) (use Cons.IH in \<open>auto simp: keeps_inv_def\<close>)
qed (simp add: keeps_inv_def wp_pure)

lemma scanned_keeps:
  assumes E: "lawful_env (sv_env S)" and inv: "service_inv w"
    and scan: "guarantees quiet scan" "\<And>w records w'. scan w = (Inr records, w') \<Longrightarrow> list_all (\<lambda>rd. scanned rd w') records"
    and step: "\<And>rd w. service_inv w \<Longrightarrow> scanned rd w \<Longrightarrow> keeps_inv (step rd) w"
    and adv: "\<And>rd. guarantees (advances S) (step rd)"
  shows "keeps_inv (recover_scanned scan step) w"
  unfolding keeps_inv_def recover_scanned_def wp_bind
proof (rule wp_on_store_error_value[OF scan(1)])
  fix records w' assume "quiet w w'" "scan w = (Inr records, w')"
  then show "wp (recover_each step records 0) (\<lambda>_. service_inv) (\<lambda>_. service_inv) w'"
    unfolding keeps_inv_def[symmetric]
    by (intro each_keeps[OF E step adv] scan(2)) (auto intro: quiet_stable(4)[OF _ inv])
qed (use quiet_stable(4)[OF _ inv] in \<open>simp_all add: wp_pure\<close>)

lemma passes_keep:
  assumes E: "lawful_env (sv_env S)" and inv: "service_inv w"
  shows "keeps_inv (recover_expired_processing_pulls_once S limit lease) w"
    "keeps_inv (recover_pending_pull_events_once S limit ttl) w"
    "keeps_inv (recover_pending_pull_refunds_once S limit ttl) w"
  unfolding recover_expired_processing_pulls_once_def recover_pending_pull_events_once_def
    recover_pending_pull_refunds_once_def
  by (rule scanned_keeps[OF E inv]; (rule st_quiet[OF E] advancing.steps expired_step_keeps[OF E]
      event_step_keeps[OF E] refund_step_keeps[OF E]; assumption | erule scan_rows))+

lemma recovery_pass_keeps:
  assumes E: "lawful_env (sv_env S)" and inv: "service_inv w"
  shows "keeps_inv (recovery_pass S batch ttl) w"
proof -
  have passes: "keeps_inv (eff_then (recover_expired_processing_pulls_once S batch pull_processing_lease_seconds)
      (eff_then (recover_pending_pull_events_once S batch ttl)
        (eff_then (recover_pending_pull_refunds_once S batch ttl) (eff_return ())))) v" if "service_inv v" for v
    using that by (intro keeps_inv_then keeps_inv_return passes_keep[OF E])
  have caught: "keeps_inv (eff_catch m (\<lambda>_. eff_return ())) v" if "keeps_inv m v" for m :: "unit svc" and v
    using that unfolding keeps_inv_def wp_catch by (elim wp_mono) (simp_all add: wp_pure)
  show ?thesis
    unfolding recovery_pass_def
    by (rule keeps_inv_then[OF keeps_inv_quiet[OF st_quiet(18)[OF E] inv] caught[OF passes]])
qed

section \<open>Requests and the worker together\<close>

inductive service_step :: "'g services \<Rightarrow> world \<Rightarrow> world \<Rightarrow> bool" for S where
  step_request: "service_step S w (snd (create_pull S current rq user key accepted request_id w))"
| step_recovery: "service_step S w (snd (recovery_pass S batch ttl w))"

inductive_cases service_stepE: "service_step S w w'"

lemma wp_snd: "wp m (\<lambda>_. P) (\<lambda>_. P) w \<Longrightarrow> P (snd (m w))"
  by (auto simp: wp_def split: prod.splits sum.splits)

lemma service_step_inv:
  assumes "lawful_env (sv_env S)" "service_inv w"
  shows "service_step S w w' \<Longrightarrow> service_inv w'"
proof (erule service_stepE)
  fix current rq user key accepted request_id
  assume w': "w' = snd (create_pull S current rq user key accepted request_id w)"
  have "wp (create_pull S current rq user key accepted request_id) (\<lambda>_. service_inv) (\<lambda>_. service_inv) w"
    using create_pull_ok[OF assms, unfolded handler_ok_def] by (rule wp_mono) simp_all
  from wp_snd[OF this] show "service_inv w'" by (simp add: w')
next
  fix batch ttl assume "w' = snd (recovery_pass S batch ttl w)"
  with wp_snd[OF recovery_pass_keeps[OF assms, unfolded keeps_inv_def]] show "service_inv w'" by simp
qed

text \<open>C4: in every run of requests and recovery iterations, in any order and in any environment, the
  tables stay well-formed and every message on the Kafka topic is the event of a pull that is
  committed in the database.\<close>

theorem outbox_holds_in_every_run:
  assumes "(service_step S)\<^sup>*\<^sup>* w w'" "lawful_env (sv_env S)" "wf_db (w_db w)"
    and "\<forall>m \<in> set (w_topic w). \<exists>r \<in> set (db_ops (w_db w)). has_evidence r \<and> op_event r = Some (km_event m)"
  shows "wf_db (w_db w') \<and>
    (\<forall>m \<in> set (w_topic w'). \<exists>r \<in> set (db_ops (w_db w')). has_evidence r \<and> op_event r = Some (km_event m))"
proof -
  from assms(1) have "service_inv w'"
  proof induction
    case base
    show ?case using assms(3,4) by (simp add: service_inv_def topic_ok_def committed_event_def)
  next
    case (step v w')
    then show ?case by (blast intro: service_step_inv[OF assms(2)])
  qed
  then show ?thesis by (simp add: service_inv_def topic_ok_def committed_event_def)
qed

lemma outbox_holds_in_every_run_witness:
  "wf_db (w_db (snd (recovery_pass sample_services 50 60
     (snd (create_pull sample_services (Inr empty_catalog) sample_request 2 ''k'' (Aware 0) [] published_world)))))"
proof -
  have "(service_step sample_services)\<^sup>*\<^sup>* published_world (snd (recovery_pass sample_services 50 60
      (snd (create_pull sample_services (Inr empty_catalog) sample_request 2 ''k'' (Aware 0) [] published_world))))"
    by (rule rtranclp.intros(2)[OF r_into_rtranclp]; rule service_step.intros)
  from outbox_holds_in_every_run[OF this sample_services_lawful] published_world_inv show ?thesis
    by (simp add: service_inv_def topic_ok_def committed_event_def)
qed

section \<open>Relations over a run\<close>

context service_flow
begin

lemma runs: "(service_step S)\<^sup>*\<^sup>* w w' \<Longrightarrow> R w w'"
proof (induction rule: rtranclp_induct)
  case base
  show ?case by (rule preorder_relD(1)[OF preorder])
next
  case (step v w')
  from step(2) have "R v w'"
    by (cases rule: service_step.cases)
       (simp_all add: request[unfolded guarantees_def] recovery[unfolded guarantees_def])
  with step(3) show ?case by (rule preorder_relD(2)[OF preorder])
qed

end

section \<open>A pass survives every record\<close>

lemma raises_scans:
  "raises state_error (st_iter_event_pending E limit)" "raises state_error (st_iter_refund_pending E limit)"
  "raises state_error (st_iter_expired_processing E limit)"
  unfolding st_defs iter_event_pending_pull_operations_def iter_refund_pending_pull_operations_def
    iter_expired_processing_pull_operations_def
  by (rule raises_db_call; simp add: raises_query)+

lemma raises_claims:
  "raises state_error (st_claim_expired_processing E k lease)"
  "raises state_error (st_claim_recovery E k st ttl)" "raises state_error (st_release_recovery E k)"
  unfolding st_defs claim_expired_processing_pull_operation_def claim_pull_operation_recovery_def
    release_pull_operation_recovery_def claim_expired_processing_operation_sql_def
    claim_pending_operation_sql_def release_pending_operation_sql_def
  by (auto intro!: raises_db_call raises_bind[OF raises_operation_id] raises_map_plain raises_bind
      raises_mono[OF raises_map_plain] raises_update raises_pure)

lemma raises_value: "raises state_error m \<Longrightarrow> raises P (on_store_error_value v m)"
  unfolding on_store_error_value_def
  by (erule raises_catch) (auto dest!: state_errorE intro!: raises_intros)

lemma raises_recovered: "raises P (recovered m)"
  unfolding recovered_def by (rule raises_catch[of "\<lambda>_. True"]) (simp_all add: raises_def[of "\<lambda>_. True"] raises_pure)

lemma raises_finally: "raises P m \<Longrightarrow> raises P n \<Longrightarrow> raises P (eff_finally m n)"
  by (rule raisesI) (auto simp: eff_finally_def dest: raisesD split: prod.splits sum.splits)

lemma raises_locked: "raises P (with_recovery_lock S ttl rd st body)"
  unfolding with_recovery_lock_def
  by (auto intro!: raises_bind raises_value raises_claims raises_finally raises_recovered raises_ignore raises_pure)

lemma raises_steps:
  "raises P (recover_expired_step S lease rd)" "raises P (recover_event_step S ttl rd)"
  "raises P (recover_refund_step S ttl rd)"
  unfolding recover_expired_step_def recover_event_step_def recover_refund_step_def Let_def
  by (auto intro!: raises_bind raises_value raises_claims raises_recovered raises_locked raises_pure
      split: option.splits)

lemma never_raises: "raises (\<lambda>_. False) m \<Longrightarrow> \<exists>x w'. m w = (Inr x, w')"
  by (metis raisesD surj_pair sumE)

text \<open>Every record is tried once, in the order given, each in the world the one before it left, whether
  that one was recovered or not; \<open>n\<close> of them are recovered. \<open>worlds ! i\<close> is the world before record \<open>i\<close>.\<close>

definition tried_each :: "('r \<Rightarrow> bool svc) \<Rightarrow> 'r list \<Rightarrow> world \<Rightarrow> nat \<Rightarrow> world \<Rightarrow> bool" where
  "tried_each step records w n w' \<longleftrightarrow>
     (\<exists>worlds outcomes. length worlds = Suc (length records) \<and> length outcomes = length records \<and>
        worlds ! 0 = w \<and> worlds ! length records = w' \<and>
        (\<forall>i < length records. step (records ! i) (worlds ! i) = (Inr (outcomes ! i), worlds ! Suc i)) \<and>
        n = length (filter id outcomes))"

lemma tried_Nil: "tried_each step [] w 0 w"
  unfolding tried_each_def by (intro exI[of _ "[w]"] exI[of _ "[]"]) simp

lemma tried_Cons:
  assumes "step rd w = (Inr b, v)" "tried_each step records v n w'"
  shows "tried_each step (rd # records) w (if b then Suc n else n) w'"
proof -
  from assms(2) obtain worlds outcomes where rest: "length worlds = Suc (length records)"
      "length outcomes = length records" "worlds ! 0 = v" "worlds ! length records = w'"
      "\<forall>i < length records. step (records ! i) (worlds ! i) = (Inr (outcomes ! i), worlds ! Suc i)"
      "n = length (filter id outcomes)"
    unfolding tried_each_def by blast
  show ?thesis
    unfolding tried_each_def
    by (intro exI[of _ "w # worlds"] exI[of _ "b # outcomes"])
       (use assms(1) rest in \<open>auto simp: less_Suc_eq_0_disj\<close>)
qed

lemma tried_count: "tried_each step records w n w' \<Longrightarrow> n \<le> length records"
  by (auto simp: tried_each_def intro: order_trans[OF length_filter_le])

lemma each_tries:
  assumes "\<And>rd w. \<exists>b w'. step rd w = (Inr b, w')"
  shows "\<exists>n w'. recover_each step records k w = (Inr (k + n), w') \<and> tried_each step records w n w'"
proof (induction records arbitrary: k w)
  case Nil
  show ?case by (intro exI[of _ 0] exI[of _ w]) (simp add: eff_return_def tried_Nil)
next
  case (Cons rd records)
  from assms obtain b v where one: "step rd w = (Inr b, v)" by blast
  let ?k = "if b then k + 1 else k"
  from Cons.IH[of ?k v] obtain n w' where
    rest: "recover_each step records ?k v = (Inr (?k + n), w')" "tried_each step records v n w'" by blast
  have "recover_each step (rd # records) k w = (Inr (?k + n), w')"
    using rest(1) by (simp add: eff_bind_def one)
  with tried_Cons[OF one rest(2)] show ?case by (intro exI[of _ "if b then Suc n else n"] exI[of _ w']) simp
qed

lemma scan_length:
  "st_iter_event_pending E limit w = (Inr records, w') \<Longrightarrow> length records \<le> nat (max 1 limit)"
  "st_iter_refund_pending E limit w = (Inr records, w') \<Longrightarrow> length records \<le> nat (max 1 limit)"
  "st_iter_expired_processing E limit w = (Inr records, w') \<Longrightarrow> length records \<le> nat (max 1 limit)"
  by (auto simp: st_defs db_call_def Let_def db_query_def iter_event_pending_pull_operations_def
      iter_refund_pending_pull_operations_def iter_expired_processing_pull_operations_def
      select_pending_operations_sql_def select_refund_pending_operations_sql_def
      select_expired_processing_operations_sql_def split: db_outcome.splits)

text \<open>A pass that reads its records with \<open>scan\<close> tries them all; a store error of the scan leaves none.\<close>

definition tries_all ::
    "nat svc \<Rightarrow> pull_operation_record list svc \<Rightarrow> (pull_operation_record \<Rightarrow> bool svc) \<Rightarrow> nat \<Rightarrow> world \<Rightarrow> bool" where
  "tries_all run scan step batch w \<longleftrightarrow>
     (\<exists>records v n w'.
        (scan w = (Inr records, v) \<or> (\<exists>msg. scan w = (Inl (GachaStateStoreError msg), v)) \<and> records = []) \<and>
        run w = (Inr n, w') \<and> tried_each step records v n w' \<and> n \<le> length records \<and> length records \<le> batch)"

lemma scanned_tries_all:
  assumes scan: "raises state_error scan" "\<And>w records w'. scan w = (Inr records, w') \<Longrightarrow> length records \<le> m"
    and step: "\<And>P rd. raises P (step rd)"
  shows "tries_all (recover_scanned scan step) scan step m w"
proof -
  obtain r v where run: "scan w = (r, v)" by force
  define records where "records = (case r of Inl e \<Rightarrow> [] | Inr records \<Rightarrow> records)"
  have e: "\<exists>msg. e = GachaStateStoreError msg" if "r = Inl e" for e
    using state_errorE[OF raisesD[OF scan(1), of w e v]] run that by simp
  have read: "on_store_error_value [] scan w = (Inr records, v)"
    using run e by (cases r) (auto simp: on_store_error_value_def eff_defs records_def)
  have "length records \<le> m" using scan(2)[of w] run by (cases r) (simp_all add: records_def)
  moreover have "scan w = (Inr records, v) \<or> (\<exists>msg. scan w = (Inl (GachaStateStoreError msg), v)) \<and> records = []"
    using run e by (cases r) (auto simp: records_def)
  moreover obtain n w' where "recover_each step records 0 v = (Inr (0 + n), w')" "tried_each step records v n w'"
    using each_tries[of step records 0 v] never_raises[OF step] by blast
  moreover from this have "recover_scanned scan step w = (Inr n, w')"
    by (simp add: recover_scanned_def eff_bind_def read)
  ultimately show ?thesis unfolding tries_all_def using tried_count by blast
qed

lemma passes_try_all:
  "tries_all (recover_expired_processing_pulls_once S limit lease)
     (st_iter_expired_processing (sv_env S) limit) (recover_expired_step S lease) (nat (max 1 limit)) w"
  "tries_all (recover_pending_pull_events_once S limit ttl)
     (st_iter_event_pending (sv_env S) limit) (recover_event_step S ttl) (nat (max 1 limit)) w"
  "tries_all (recover_pending_pull_refunds_once S limit ttl)
     (st_iter_refund_pending (sv_env S) limit) (recover_refund_step S ttl) (nat (max 1 limit)) w"
  unfolding recover_expired_processing_pulls_once_def recover_pending_pull_events_once_def
    recover_pending_pull_refunds_once_def
  by (intro scanned_tries_all raises_scans raises_steps; erule scan_length)+

lemma tries_all_returns: "tries_all run scan step m w \<Longrightarrow> \<exists>n w'. run w = (Inr n, w')"
  unfolding tries_all_def by blast

text \<open>C31: no record stops the recovery worker. In every environment and whatever the rows hold, each of
  the three passes returns, and every record of its scan, at most the batch size, was tried once and in
  order, each in the world its predecessor left, whether or not that one could be recovered; the value
  is the number of those that were. An iteration of the worker runs all three passes, one after the
  other, and returns.\<close>

theorem recovery_passes_return:
  "tries_all (recover_expired_processing_pulls_once S limit lease)
     (st_iter_expired_processing (sv_env S) limit) (recover_expired_step S lease) (nat (max 1 limit)) w \<and>
   tries_all (recover_pending_pull_events_once S limit ttl)
     (st_iter_event_pending (sv_env S) limit) (recover_event_step S ttl) (nat (max 1 limit)) w \<and>
   tries_all (recover_pending_pull_refunds_once S limit ttl)
     (st_iter_refund_pending (sv_env S) limit) (recover_refund_step S ttl) (nat (max 1 limit)) w \<and>
   (\<exists>w0 n1 w1 n2 w2 n3 w3. svc_sleep (sv_env S) w = (Inr (), w0) \<and>
      recover_expired_processing_pulls_once S limit pull_processing_lease_seconds w0 = (Inr n1, w1) \<and>
      recover_pending_pull_events_once S limit ttl w1 = (Inr n2, w2) \<and>
      recover_pending_pull_refunds_once S limit ttl w2 = (Inr n3, w3) \<and>
      recovery_pass S limit ttl w = (Inr (), w3))"
proof (intro conjI passes_try_all)
  obtain w0 where 0: "svc_sleep (sv_env S) w = (Inr (), w0)" by (simp add: svc_sleep_def)
  obtain n1 w1 n2 w2 n3 w3 where
    "recover_expired_processing_pulls_once S limit pull_processing_lease_seconds w0 = (Inr n1, w1)"
    "recover_pending_pull_events_once S limit ttl w1 = (Inr n2, w2)"
    "recover_pending_pull_refunds_once S limit ttl w2 = (Inr n3, w3)"
    by (meson passes_try_all[THEN tries_all_returns])
  with 0 show "\<exists>w0 n1 w1 n2 w2 n3 w3. svc_sleep (sv_env S) w = (Inr (), w0) \<and>
      recover_expired_processing_pulls_once S limit pull_processing_lease_seconds w0 = (Inr n1, w1) \<and>
      recover_pending_pull_events_once S limit ttl w1 = (Inr n2, w2) \<and>
      recover_pending_pull_refunds_once S limit ttl w2 = (Inr n3, w3) \<and>
      recovery_pass S limit ttl w = (Inr (), w3)"
    by (intro exI[of _ w0] exI[of _ n1] exI[of _ w1] exI[of _ n2] exI[of _ w2] exI[of _ n3] exI[of _ w3])
      (simp add: recovery_pass_def eff_defs)
qed

end
