(* ===== verification/Delivery_Guarantees.thy ===== *)
theory Delivery_Guarantees
  imports Recovery_Guarantees
begin

text \<open>
  What the recovery worker brings about when nothing fails: a pending event is published, a published
  event becomes "succeeded" once the backpack service confirms it, and in no run does an operation
  succeed without that confirmation. The lemmas follow one row through the statements that touch it;
  \<open>spares\<close> is what the steps for other rows leave alone.
\<close>

section \<open>An environment in which nothing fails\<close>

definition calm :: "env \<Rightarrow> bool" where
  "calm E \<longleftrightarrow> (\<forall>n db. e_others E n db = db) \<and> (\<forall>n. e_db E n = Db_Ok) \<and> (\<forall>n. e_send E n = Send_Acked) \<and>
     (\<forall>n. e_kafka_start E n)"

lemma calm_lawful: "calm E \<Longrightarrow> lawful_env E"
  by (simp add: calm_def lawful_env_def)

lemma wp_calm_db:
  assumes "calm E"
    and "wp (m (w_clock w)) (\<lambda>x d. Q x (w\<lparr>w_clock := w_clock w + 1, w_db := d\<rparr>))
      (\<lambda>e d. X e (w\<lparr>w_clock := w_clock w + 1, w_db := d\<rparr>)) (w_db w)"
  shows "wp (db_call E msg m) Q X w"
  using assms by (auto simp: wp_def db_call_def Let_def tick_def calm_def split: prod.splits sum.splits)

lemma wp_publish_calm:
  assumes E: "calm (sv_env S)"
    and Q: "\<And>w'. w_db w' = w_db w \<Longrightarrow> w_http w' = w_http w \<Longrightarrow>
      w_topic w' = w_topic w @ [kafka_message_of (sv_kafka_topic S) ev] \<Longrightarrow> Q () w'"
  shows "wp (publish_pull_completed_with_retry S ev) Q X w"
proof -
  let ?E = "sv_env S"
  obtain v where "ensure_started ?E w = (Inr (), v)" "w_db v = w_db w" "w_http v = w_http w" "w_topic v = w_topic w"
    using E by (cases "w_producer_started w") (auto simp: ensure_started_def tick_def calm_def)
  then obtain w' where send: "publish_pull_completed ?E (sv_kafka_topic S) ev w = (Inr (), w')"
    and w': "w_db w' = w_db w" "w_http w' = w_http w"
      "w_topic w' = w_topic w @ [kafka_message_of (sv_kafka_topic S) ev]"
    using E by (auto simp: publish_pull_completed_def eff_defs send_and_wait_def Let_def tick_def calm_def)
  have "publish_pull_completed_with_retry S ev w = (Inr (), w')"
    using send by (simp add: publish_pull_completed_with_retry_def
        eval_nat_numeral eff_defs)
  with Q[OF w'] show ?thesis by (simp add: wp_def)
qed

section \<open>Following one row\<close>

definition holds :: "op_row \<Rightarrow> world \<Rightarrow> bool" where
  "holds r w \<longleftrightarrow> wf_db (w_db w) \<and> r \<in> set (db_ops (w_db w))"

lemma filter_unique:
  assumes "distinct (map f xs)" "x \<in> set xs" "P x" "\<And>y. P y \<Longrightarrow> f y = f x"
  shows "filter P xs = [x]"
proof -
  have "P y \<longleftrightarrow> f y = f x" if "y \<in> set xs" for y
  proof
    assume "P y"
    then show "f y = f x" by (rule assms(4))
  next
    assume "f y = f x"
    with assms(1,2) that have "y = x" by (auto simp: distinct_map dest: inj_onD)
    with assms(3) show "P y" by simp
  qed
  then have "filter P xs = filter (\<lambda>y. f y = f x) xs" by (rule filter_cong[OF refl])
  with assms(1,2) show ?thesis by (simp add: filter_eq_single_distinct)
qed

lemma event_ids_map:
  "(\<And>s. s \<in> set xs \<Longrightarrow> op_response (f s) = op_response s) \<Longrightarrow> event_ids (map f xs) = event_ids xs"
  by (induction xs) (simp_all add: event_ids_def map_filter_def)

lemma update_one:
  assumes wf: "wf_db db" and r: "r \<in> set (db_ops db)" "sel r" "\<And>s. sel s \<Longrightarrow> op_id s = op_id r"
    and upd: "protect_update r (upd r)" "op_checks (upd r)" "keeps_identity upd"
    and ids: "distinct (event_ids (map (updated sel upd) (db_ops db)))"
  shows "\<exists>db'. update_ops sel upd db = (Inr [upd r], db') \<and> wf_db db' \<and> upd r \<in> set (db_ops db') \<and>
    db_pity db' = db_pity db"
proof -
  have one: "filter sel (db_ops db) = [r]"
    by (rule filter_unique[where f = op_id and P = sel and x = r, OF _ r]) (use wf in \<open>simp add: wf_db_def\<close>)
  let ?db = "db\<lparr>db_ops := map (updated sel upd) (db_ops db)\<rparr>"
  have run: "update_ops sel upd db = (Inr [upd r], ?db)"
    using upd(1,2) ids by (simp add: update_ops_def Let_def one updated_def[abs_def])
  from update_ops_wf[OF wf upd(3) this] have "wf_db ?db" by blast
  moreover have "upd r \<in> set (db_ops ?db)" using r(1,2) by (auto simp: updated_def intro!: image_eqI[of _ _ r])
  ultimately show ?thesis using run by simp
qed

lemma only_row:
  "wf_db db \<Longrightarrow> r \<in> set (db_ops db) \<Longrightarrow> (\<And>s. sel s \<Longrightarrow> op_id s = op_id r) \<Longrightarrow> s \<in> set (db_ops db) \<Longrightarrow> sel s \<Longrightarrow> s = r"
  by (rule op_id_unique[of db s r])

lemma update_row:
  assumes wf: "wf_db db" and r: "r \<in> set (db_ops db)" "sel r" "\<And>s. sel s \<Longrightarrow> op_id s = op_id r"
    and upd: "protect_update r (upd r)" "op_checks (upd r)" "op_response (upd r) = op_response r" "keeps_identity upd"
  shows "\<exists>db'. update_ops sel upd db = (Inr [upd r], db') \<and> wf_db db' \<and> upd r \<in> set (db_ops db') \<and>
    db_pity db' = db_pity db"
proof (rule update_one[where sel = sel and upd = upd and r = r, OF wf r upd(1,2,4)])
  have "event_ids (map (updated sel upd) (db_ops db)) = event_ids (db_ops db)"
  proof (rule event_ids_map)
    fix s assume s: "s \<in> set (db_ops db)"
    show "op_response (updated sel upd s) = op_response s"
    proof (cases "sel s")
      case True
      have "s = r" by (rule only_row[where sel = sel, OF wf r(1) r(3) s True])
      with upd(3) r(2) show ?thesis by (simp add: updated_def)
    qed (simp add: updated_def)
  qed
  with wf show "distinct (event_ids (map (updated sel upd) (db_ops db)))" by (simp add: wf_db_def)
qed

text \<open>The event id of a row that had no response, added to the column.\<close>

lemma event_ids_new:
  assumes "wf_db db" "r \<in> set (db_ops db)" "\<And>s. s \<in> set (db_ops db) \<Longrightarrow> sel s \<longleftrightarrow> s = r"
    and "op_response r = None" "op_response (upd r) = Some resp" "re_event_id resp \<notin> set (event_ids (db_ops db))"
  shows "distinct (event_ids (map (updated sel upd) (db_ops db)))"
proof -
  obtain xs ys where rows: "db_ops db = xs @ r # ys" "r \<notin> set xs" "r \<notin> set ys"
  proof -
    have "distinct (db_ops db)" using assms(1) by (auto simp: wf_db_def distinct_map)
    with assms(2) that show ?thesis by (auto simp: in_set_conv_decomp)
  qed
  have other: "map (updated sel upd) zs = zs" if "set zs \<subseteq> set (db_ops db)" "r \<notin> set zs" for zs
    by (rule map_idI) (use that assms(3) in \<open>auto simp: updated_def\<close>)
  have "map (updated sel upd) (db_ops db) = xs @ upd r # ys"
    using other[of xs] other[of ys] rows assms(3)[of r] assms(2) by (auto simp: updated_def)
  moreover have "event_ids (q # zs) = (case op_response q of None \<Rightarrow> [] | Some x \<Rightarrow> [re_event_id x]) @ event_ids zs" for q zs
    by (simp add: event_ids_def map_filter_def split: option.splits)
  ultimately show ?thesis
    using assms(1,4-6) by (auto simp: rows(1) wf_db_def)
qed

text \<open>Same operation, possibly at another stage of its delivery.\<close>

definition same_pull :: "op_row \<Rightarrow> op_row \<Rightarrow> bool" where
  "same_pull r s \<longleftrightarrow> op_id s = op_id r \<and> op_user_id s = op_user_id r \<and> op_key_hash s = op_key_hash r \<and>
     op_request_hash s = op_request_hash r \<and> op_response s = op_response r \<and> op_event s = op_event r"

lemma same_pull_refl [simp]: "same_pull r r"
  by (simp add: same_pull_def)

lemma same_pull_trans: "same_pull r s \<Longrightarrow> same_pull s t \<Longrightarrow> same_pull r t"
  by (simp add: same_pull_def)

definition untouched :: "world \<Rightarrow> world \<Rightarrow> bool" where
  "untouched w w' \<longleftrightarrow> w_topic w' = w_topic w \<and> w_http w' = w_http w"

lemma holds_checks: "holds r w \<Longrightarrow> op_checks r"
  by (simp add: holds_def wf_db_def)

lemma wp_lock:
  assumes E: "calm E" and r: "holds r w" "op_status r = st" "delivery_status st" "op_recovery_locked_until r = None"
    and Q: "\<And>s w'. holds s w' \<Longrightarrow> same_pull r s \<Longrightarrow> op_status s = st \<Longrightarrow> untouched w w' \<Longrightarrow>
      w_clock w' = w_clock w + 1 \<Longrightarrow> Q True w'"
  shows "wp (st_claim_recovery E (uuid_str (op_id r)) st ttl) Q X w"
proof -
  let ?now = "e_now E (w_clock w)"
  let ?upd = "\<lambda>r. r\<lparr>op_recovery_locked_until := Some (?now + seconds (max 1 ttl)), op_updated_at := ?now\<rparr>"
  obtain db' where run: "claim_pending_operation_sql ?now (op_id r) (max 1 ttl) st (w_db w) = (Inr [?upd r], db')"
      "wf_db db'" "?upd r \<in> set (db_ops db')"
    using update_row[of "w_db w" r "\<lambda>s. op_id s = op_id r \<and> op_status s = st \<and> delivery_status (op_status s) \<and>
        recovery_unlocked ?now s" ?upd] r holds_checks[OF r(1)]
    by (auto simp: claim_pending_operation_sql_def holds_def recovery_unlocked_def protect_update_def
        delivery_status_def op_checks_def)
  have "Q True (w\<lparr>w_clock := w_clock w + 1, w_db := db'\<rparr>)"
    by (rule Q[of "?upd r"]) (use run(2,3) r(2) in \<open>simp_all add: holds_def same_pull_def untouched_def\<close>)
  with run(1) show ?thesis
    unfolding st_claim_recovery_def
    by (intro wp_calm_db[OF E])
       (simp add: wp_def claim_pull_operation_recovery_def eff_defs operation_id_of_def uuid_parse_str)
qed

lemma wp_save_row:
  assumes E: "calm E" and r: "holds r w" "op_status r \<in> {Event_Pending, Event_Published}"
    and st: "st \<in> {Event_Published, Succeeded}"
    and Q: "\<And>s w'. holds s w' \<Longrightarrow> same_pull r s \<Longrightarrow> op_status s = st \<Longrightarrow> op_recovery_locked_until s = None \<Longrightarrow>
      untouched w w' \<Longrightarrow> db_pity (w_db w') = db_pity (w_db w) \<Longrightarrow> Q () w'"
  shows "wp (st_save_by_key E (uuid_str (op_id r))
    (operation_with st (op_request_hash r) (op_response r) (op_event r))) Q X w"
proof -
  let ?now = "e_now E (w_clock w)" and ?po = "operation_with st (op_request_hash r) (op_response r) (op_event r)"
  let ?upd = "\<lambda>r. release_claim ?now (with_operation ?po r)\<lparr>op_recovery_locked_until := None\<rparr>"
  have wf: "wf_db (w_db w)" "r \<in> set (db_ops (w_db w))" using r(1) by (simp_all add: holds_def)
  have "protect_update r (?upd r)" "op_checks (?upd r)"
    using r(2) st holds_checks[OF r(1)]
    by (auto simp: protect_update_def with_operation_def release_claim_def operation_with_def op_checks_def)
  from update_row[OF wf, of "\<lambda>s. op_id s = op_id r" ?upd, OF _ _ this] obtain db' where run:
      "update_pull_operation_sql ?now (op_id r) ?po (w_db w) = (Inr [?upd r], db')"
      "wf_db db'" "?upd r \<in> set (db_ops db')" "db_pity db' = db_pity (w_db w)"
    by (auto simp: update_pull_operation_sql_def with_operation_def release_claim_def operation_with_def
        keeps_identity_def)
  have "Q () (w\<lparr>w_clock := w_clock w + 1, w_db := db'\<rparr>)"
    by (rule Q[of "?upd r"])
       (use run(2-4) in \<open>simp_all add: holds_def same_pull_def untouched_def with_operation_def release_claim_def
          operation_with_def\<close>)
  with run(1) show ?thesis
    unfolding st_save_by_key_def
    by (intro wp_calm_db[OF E])
       (simp add: wp_def save_pull_operation_by_key_def eff_defs operation_id_of_def uuid_parse_str)
qed

lemma wp_release:
  assumes E: "calm E" and r: "holds r w" "op_recovery_locked_until r = None"
    and Q: "\<And>s w'. holds s w' \<Longrightarrow> same_pull r s \<Longrightarrow> op_status s = op_status r \<Longrightarrow>
      op_recovery_locked_until s = None \<Longrightarrow> untouched w w' \<Longrightarrow> Q () w'"
  shows "wp (ignore_store_error (st_release_recovery E (uuid_str (op_id r)))) Q X w"
proof -
  let ?now = "e_now E (w_clock w)" and ?sel = "\<lambda>s. op_id s = op_id r \<and> delivery_status (op_status s)"
  let ?upd = "\<lambda>r. r\<lparr>op_recovery_locked_until := None, op_updated_at := ?now\<rparr>"
  have wf: "wf_db (w_db w)" "r \<in> set (db_ops (w_db w))" using r(1) by (simp_all add: holds_def)
  have "\<exists>s rows db'. release_pending_operation_sql ?now (op_id r) (w_db w) = (Inr rows, db') \<and> wf_db db' \<and>
      s \<in> set (db_ops db') \<and> same_pull r s \<and> op_status s = op_status r \<and> op_recovery_locked_until s = None"
  proof (cases "delivery_status (op_status r)")
    case True
    have "protect_update r (?upd r)" "op_checks (?upd r)"
      using True holds_checks[OF r(1)] by (auto simp: protect_update_def delivery_status_def op_checks_def)
    from update_row[OF wf, of ?sel ?upd, OF _ _ this] True obtain db' where
      "release_pending_operation_sql ?now (op_id r) (w_db w) = (Inr [?upd r], db')" "wf_db db'"
      "?upd r \<in> set (db_ops db')"
      by (auto simp: release_pending_operation_sql_def)
    then show ?thesis by (intro exI[of _ "?upd r"]) (auto simp: same_pull_def)
  next
    case False
    then have none: "\<forall>s \<in> set (db_ops (w_db w)). \<not> ?sel s"
      using op_id_unique[OF wf(1) _ wf(2)] by blast
    then have "filter ?sel (db_ops (w_db w)) = []" by (simp add: filter_empty_conv)
    moreover have "map (updated ?sel ?upd) (db_ops (w_db w)) = db_ops (w_db w)"
      by (rule map_idI) (use none in \<open>auto simp: updated_def\<close>)
    ultimately have "release_pending_operation_sql ?now (op_id r) (w_db w) = (Inr [], w_db w)"
      using wf(1) by (simp add: release_pending_operation_sql_def update_ops_def Let_def updated_def[abs_def] wf_db_def)
    then show ?thesis using wf r(2) by (intro exI[of _ r]) auto
  qed
  then obtain s rows db' where run: "release_pending_operation_sql ?now (op_id r) (w_db w) = (Inr rows, db')"
    and s: "wf_db db'" "s \<in> set (db_ops db')" "same_pull r s" "op_status s = op_status r"
      "op_recovery_locked_until s = None" by blast
  have "Q () (w\<lparr>w_clock := w_clock w + 1, w_db := db'\<rparr>)"
    by (rule Q[of s]) (use s in \<open>simp_all add: holds_def untouched_def\<close>)
  with run show ?thesis
    unfolding ignore_store_error_def wp_catch st_release_recovery_def
    by (intro wp_calm_db[OF E])
       (simp add: wp_def release_pull_operation_recovery_def eff_defs operation_id_of_def uuid_parse_str)
qed

section \<open>The step for one event\<close>

definition settled :: "'g services \<Rightarrow> op_row \<Rightarrow> pull_operation_status \<Rightarrow> world \<Rightarrow> bool" where
  "settled S r st w \<longleftrightarrow>
     (\<exists>s. holds s w \<and> same_pull r s \<and> op_status s = st \<and> op_recovery_locked_until s = None)"

lemma record_of_row:
  "or_operation_key (pending_record_from_row r) = uuid_str (op_id r)"
  "or_user_id (pending_record_from_row r) = op_user_id r"
  "po_status (or_operation (pending_record_from_row r)) = op_status r"
  "po_response (or_operation (pending_record_from_row r)) = op_response r"
  "po_event (or_operation (pending_record_from_row r)) = op_event r"
  "po_request_hash (or_operation (pending_record_from_row r)) = op_request_hash r"
  by (simp_all add: pending_record_from_row_def operation_from_row_def)

lemma wp_recovered: "wp m (\<lambda>_. Q True) (\<lambda>_. Q False) w \<Longrightarrow> wp (recovered m) Q X w"
  unfolding recovered_def wp_simps by (erule wp_mono) (simp_all add: wp_pure)

text \<open>The lock is taken, the body runs on the locked row, and the lock is given back.\<close>

lemma wp_locked_step:
  assumes E: "calm (sv_env S)"
    and r: "holds r w" "op_status r = st" "delivery_status st" "op_recovery_locked_until r = None"
    and body: "\<And>s w'. holds s w' \<Longrightarrow> same_pull r s \<Longrightarrow> op_status s = st \<Longrightarrow> untouched w w' \<Longrightarrow>
      wp body (\<lambda>_ v. settled S r st' v \<and> P v) (\<lambda>_ _. False) w'"
    and P: "\<And>v v'. P v \<Longrightarrow> untouched v v' \<Longrightarrow> P v'"
  shows "wp (with_recovery_lock S ttl (pending_record_from_row r) st body)
    (\<lambda>b w'. b \<and> settled S r st' w' \<and> P w') (\<lambda>_ _. False) w"
proof -
  let ?k = "uuid_str (op_id r)" and ?Q = "\<lambda>b w'. b \<and> settled S r st' w' \<and> P w'"
  have release: "wp (ignore_store_error (st_release_recovery (sv_env S) ?k)) (\<lambda>_. ?Q True) (\<lambda>_ _. False) v"
    if v: "settled S r st' v" "P v" for v
  proof -
    from v(1) obtain s where s: "holds s v" "same_pull r s" "op_status s = st'" "op_recovery_locked_until s = None"
      by (auto simp: settled_def)
    then have "op_id s = op_id r" by (simp add: same_pull_def)
    have "wp (ignore_store_error (st_release_recovery (sv_env S) (uuid_str (op_id s)))) (\<lambda>_. ?Q True) (\<lambda>_ _. False) v"
    proof (rule wp_release[OF E s(1,4)])
      fix t v' assume "holds t v'" "same_pull s t" "op_status t = op_status s" "op_recovery_locked_until t = None"
        "untouched v v'"
      with s(2,3) v(2) show "?Q True v'" by (auto simp: settled_def intro: same_pull_trans P)
    qed
    with \<open>op_id s = op_id r\<close> show ?thesis by simp
  qed
  have locked: "wp (eff_finally (recovered body) (ignore_store_error (st_release_recovery (sv_env S) ?k))) ?Q
      (\<lambda>_ _. False) w'"
    if "holds s w'" "same_pull r s" "op_status s = st" "untouched w w'" for s w'
    unfolding wp_finally
    by (rule wp_recovered, rule wp_mono[OF body[OF that]]) (use release in auto)
  show ?thesis
    unfolding with_recovery_lock_def on_store_error_value_def wp_bind wp_catch record_of_row(1)
    by (rule wp_lock[OF E r]) (use locked in simp)
qed

lemma pending_event_step:
  assumes E: "calm (sv_env S)"
    and r: "holds r w" "op_status r = Event_Pending" "op_recovery_locked_until r = None"
      "op_response r = Some response" "op_event r = Some ev"
  shows "wp (recover_event_step S ttl (pending_record_from_row r))
    (\<lambda>b w'. b \<and> settled S r Event_Published w' \<and> kafka_message_of (sv_kafka_topic S) ev \<in> set (w_topic w'))
    (\<lambda>_ _. False) w"
proof -
  let ?P = "\<lambda>w'. kafka_message_of (sv_kafka_topic S) ev \<in> set (w_topic w')"
  have body: "wp (deliver_pull_event S (pending_record_from_row r) response ev)
      (\<lambda>_ v. settled S r Event_Published v \<and> ?P v) (\<lambda>_ _. False) w'"
    if s: "holds s w'" "same_pull r s" "op_status s = Event_Pending" for s w'
  proof -
    have eq: "uuid_str (op_id r) = uuid_str (op_id s)" "op_request_hash r = op_request_hash s"
      "Some response = op_response s" "Some ev = op_event s"
      using s(2) r(4,5) by (simp_all add: same_pull_def)
    have save: "wp (st_save_by_key (sv_env S) (uuid_str (op_id s))
        (operation_with Event_Published (op_request_hash s) (op_response s) (op_event s)))
        (\<lambda>_ v. settled S r Event_Published v \<and> ?P v) (\<lambda>_ _. False) v"
      if "holds s v" "?P v" for v
      by (rule wp_save_row[OF E that(1)])
         (use that s(2,3) in \<open>auto simp: settled_def untouched_def intro: same_pull_trans\<close>)
    show ?thesis
      unfolding deliver_pull_event_def Let_def record_of_row r(2) simp_thms if_True wp_then eq
      by (rule wp_publish_calm[OF E], rule save) (use s(1) in \<open>simp_all add: holds_def\<close>)
  qed
  have "wp (with_recovery_lock S ttl (pending_record_from_row r) Event_Pending
      (deliver_pull_event S (pending_record_from_row r) response ev))
      (\<lambda>b w'. b \<and> settled S r Event_Published w' \<and> ?P w') (\<lambda>_ _. False) w"
    by (rule wp_locked_step[OF E r(1,2) _ r(3) body])
       (simp_all add: delivery_status_def untouched_def)
  then show ?thesis
    by (simp add: recover_event_step_def Let_def record_of_row r)
qed

text \<open>A backpack service that holds this event.\<close>

definition holds_receipt :: "env \<Rightarrow> uuid \<Rightarrow> bool" where
  "holds_receipt E i \<longleftrightarrow> (\<forall>n. \<exists>status b. e_http E n = Http_Response status (Some b) \<and> is_success status \<and>
     json_get (json_get b ''event'') ''event_id'' = JStr (uuid_str i))"

lemma wp_receipt:
  assumes E: "calm E" "holds_receipt E i"
    and Q: "\<And>w'. w_db w' = w_db w \<Longrightarrow> Q True w'"
  shows "wp (has_pull_event E L c user i) Q X w"
proof -
  obtain status b where b: "e_http E (w_clock w) = Http_Response status (Some b)" "is_success status"
      "json_get (json_get b ''event'') ''event_id'' = JStr (uuid_str i)"
    using E(2) unfolding holds_receipt_def by blast
  then have "status \<noteq> 404" by (auto simp: is_success_def)
  with b E(1) show ?thesis
    by (auto simp: wp_def has_pull_event_def http_call_def eff_defs Let_def tick_def calm_def split: prod.splits
        intro!: Q)
qed

lemma published_event_step:
  assumes E: "calm (sv_env S)"
    and r: "holds r w" "op_status r = Event_Published" "op_recovery_locked_until r = None"
      "op_response r = Some response" "op_event r = Some ev"
    and c: "sv_backpack_receipt_client S = Some c" "uuid_parse (ev_event_id ev) = Some i"
      "holds_receipt (sv_env S) i"
  shows "wp (recover_event_step S ttl (pending_record_from_row r))
    (\<lambda>b w'. b \<and> settled S r Succeeded w' \<and> True) (\<lambda>_ _. False) w"
proof -
  have body: "wp (deliver_pull_event S (pending_record_from_row r) response ev)
      (\<lambda>_ v. settled S r Succeeded v \<and> True) (\<lambda>_ _. False) w'"
    if s: "holds s w'" "same_pull r s" "op_status s = Event_Published" for s w'
  proof -
    have eq: "uuid_str (op_id r) = uuid_str (op_id s)" "op_request_hash r = op_request_hash s"
      "Some response = op_response s" "Some ev = op_event s"
      using s(2) r(4,5) by (simp_all add: same_pull_def)
    have save: "wp (st_save_by_key (sv_env S) (uuid_str (op_id s))
        (operation_with Succeeded (op_request_hash s) (op_response s) (op_event s)))
        (\<lambda>_ v. settled S r Succeeded v \<and> True) (\<lambda>_ _. False) v"
      if "holds s v" for v
      by (rule wp_save_row[OF E that])
         (use s(2,3) in \<open>auto simp: settled_def intro: same_pull_trans\<close>)
    have "wp (eff_bind (has_pull_event (sv_env S) (sv_lib S) c (op_user_id r) i)
        (\<lambda>applied. if applied then st_save_by_key (sv_env S) (uuid_str (op_id s))
            (operation_with Succeeded (op_request_hash s) (op_response s) (op_event s))
          else publish_pull_completed_with_retry S ev))
        (\<lambda>_ v. settled S r Succeeded v \<and> True) (\<lambda>_ _. False) w'"
      unfolding wp_bind
      by (rule wp_receipt[OF E c(3)]) (use save s(1) in \<open>simp add: holds_def\<close>)
    then show ?thesis
      unfolding deliver_pull_event_def Let_def record_of_row r(2) eq by (simp add: c(1,2))
  qed
  have "wp (with_recovery_lock S ttl (pending_record_from_row r) Event_Published
      (deliver_pull_event S (pending_record_from_row r) response ev))
      (\<lambda>b w'. b \<and> settled S r Succeeded w' \<and> True) (\<lambda>_ _. False) w"
    by (rule wp_locked_step[OF E r(1,2) _ r(3) body]) (simp_all add: delivery_status_def)
  then show ?thesis
    by (simp add: recover_event_step_def Let_def record_of_row r)
qed

section \<open>The steps for other events\<close>

definition spares_db :: "uuid \<Rightarrow> database \<Rightarrow> database \<Rightarrow> bool" where
  "spares_db oid db db' \<longleftrightarrow>
     (\<forall>s \<in> set (db_ops db). op_id s = oid \<longrightarrow> s \<in> set (db_ops db')) \<and> (wf_db db \<longrightarrow> wf_db db')"

definition spares :: "uuid \<Rightarrow> world \<Rightarrow> world \<Rightarrow> bool" where
  "spares oid w w' \<longleftrightarrow> spares_db oid (w_db w) (w_db w') \<and> set (w_topic w) \<subseteq> set (w_topic w') \<and>
     set (w_http w) \<subseteq> set (w_http w')"

lemma preorder_spares [simp]: "preorder_rel (spares_db oid)" "preorder_rel (spares oid)"
  by (fastforce simp: preorder_rel_def spares_def spares_db_def intro!: reflpI transpI)+

lemma spares_update_ops:
  assumes "keeps_identity upd" "\<And>s. sel s \<Longrightarrow> op_id s \<noteq> oid"
  shows "guarantees (spares_db oid) (update_ops sel upd)"
proof (rule guaranteesI)
  fix db res db'
  assume u: "update_ops sel upd db = (res, db')"
  then have "wf_db db \<longrightarrow> wf_db db'" using update_ops_wf[OF _ assms(1)] by blast
  moreover from u have "s \<in> set (db_ops db')" if "s \<in> set (db_ops db)" "op_id s = oid" for s
  proof (cases rule: update_ops_cases)
    case ok
    have "updated sel upd s = s" using assms(2)[of s] that(2) by (auto simp: updated_def)
    then have "s \<in> updated sel upd ` set (db_ops db)" by (rule image_eqI[OF sym that(1)])
    then show ?thesis by (simp add: ok(2))
  qed (use that in simp)
  ultimately show "spares_db oid db db'" by (simp add: spares_db_def)
qed

lemma spares_methods:
  assumes "q \<noteq> oid"
  shows "guarantees (spares_db oid) (claim_pull_operation_recovery now (uuid_str q) st ttl)"
    "guarantees (spares_db oid) (release_pull_operation_recovery now (uuid_str q))"
    "guarantees (spares_db oid) (save_pull_operation_by_key now (uuid_str q) po)"
proof -
  have "guarantees (spares_db oid) (update_ops (\<lambda>s. op_id s = q \<and> P s) upd)" if "keeps_identity upd" for P upd
    by (rule spares_update_ops[OF that]) (use assms in simp)
  then have st: "guarantees (spares_db oid) (claim_pending_operation_sql now q ttl' st)"
    "guarantees (spares_db oid) (release_pending_operation_sql now q)"
    "guarantees (spares_db oid) (update_pull_operation_sql now q po)" for ttl'
    using spares_update_ops[of _ "\<lambda>s. op_id s = q" oid] assms
    by (simp_all add: claim_pending_operation_sql_def release_pending_operation_sql_def update_pull_operation_sql_def)
  have lift: "eff_lift (operation_id_of (uuid_str q)) = (eff_return q :: uuid db_op)"
    by (simp add: operation_id_of_def uuid_parse_str fun_eq_iff eff_defs)
  show "guarantees (spares_db oid) (claim_pull_operation_recovery now (uuid_str q) st ttl)"
    "guarantees (spares_db oid) (release_pull_operation_recovery now (uuid_str q))"
    "guarantees (spares_db oid) (save_pull_operation_by_key now (uuid_str q) po)"
    unfolding claim_pull_operation_recovery_def release_pull_operation_recovery_def
      save_pull_operation_by_key_def lift
    by (auto intro!: guarantees_intros st)
qed

lemma spares_db_call:
  assumes "calm E" "\<And>n. guarantees (spares_db oid) (m n)"
  shows "guarantees (spares oid) (db_call E msg m)"
  using assms by (auto simp: guarantees_def spares_def db_call_def Let_def tick_def calm_def split: prod.splits)
    (metis snd_conv)+

lemma spares_calls:
  assumes "calm E"
  shows "guarantees (spares oid) (svc_sleep E)" "guarantees (spares oid) (publish_pull_completed E topic ev)"
    "guarantees (spares oid) (has_pull_event E L c user i)"
  using assms
  by (auto simp: guarantees_def spares_def spares_db_def svc_sleep_def publish_pull_completed_def ensure_started_def
      send_and_wait_def has_pull_event_def http_call_def eff_defs Let_def tick_def calm_def
      split: prod.splits sum.splits http_outcome.splits option.splits)

lemma spares_save:
  "calm E \<Longrightarrow> q \<noteq> oid \<Longrightarrow> guarantees (spares oid) (st_save_by_key E (uuid_str q) po)"
  unfolding st_save_by_key_def by (rule spares_db_call) (simp_all add: spares_methods(3))

lemma spares_locked:
  assumes E: "calm (sv_env S)" and q: "op_id q \<noteq> oid" and body: "guarantees (spares oid) body"
  shows "guarantees (spares oid) (with_recovery_lock S ttl (pending_record_from_row q) st body)"
proof -
  have release: "guarantees (spares oid) (ignore_store_error (st_release_recovery (sv_env S) (uuid_str (op_id q))))"
    unfolding ignore_store_error_def st_release_recovery_def
    by (auto intro!: guarantees_intros spares_db_call[OF E spares_methods(2)[OF q]] split: exn.splits)
  have claim: "guarantees (spares oid) (on_store_error_value v
      (st_claim_recovery (sv_env S) (uuid_str (op_id q)) st ttl))" for v st
    unfolding on_store_error_value_def st_claim_recovery_def
    by (auto intro!: guarantees_intros spares_db_call[OF E spares_methods(1)[OF q]] split: exn.splits)
  show ?thesis
    unfolding with_recovery_lock_def recovered_def record_of_row
    by (intro guarantees_intros preorder_spares release claim body)
qed

lemma spares_step:
  assumes E: "calm (sv_env S)" and q: "op_id q \<noteq> oid"
  shows "guarantees (spares oid) (recover_event_step S ttl (pending_record_from_row q))"
proof -
  have publish: "guarantees (spares oid) (publish_pull_completed_with_retry S ev)" for ev
    unfolding publish_pull_completed_with_retry_def
    by (intro guarantees_publish_attempts spares_calls E preorder_spares)
  have "guarantees (spares oid) (deliver_pull_event S (pending_record_from_row q) response ev)" for response ev
    unfolding deliver_pull_event_def Let_def record_of_row
    by (auto intro!: guarantees_intros publish spares_save q spares_calls E split: option.splits)
  then show ?thesis
    unfolding recover_event_step_def Let_def record_of_row
    by (auto intro!: guarantees_intros spares_locked E q split: option.splits)
qed

section \<open>A pass over the scan\<close>

text \<open>The step for the row reaches its goal, and the steps for the other rows keep it.\<close>

lemma each_delivers:
  assumes E: "calm (sv_env S)"
    and hit: "\<And>v. holds r v \<Longrightarrow> wp (step (pending_record_from_row r)) (\<lambda>_. Q) (\<lambda>_ _. False) v"
    and miss: "\<And>q. op_id q \<noteq> op_id r \<Longrightarrow> guarantees (spares (op_id r)) (step (pending_record_from_row q))"
    and total: "\<And>rd. raises (\<lambda>_. False) (step rd)"
    and stable: "\<And>v v'. Q v \<Longrightarrow> spares (op_id r) v v' \<Longrightarrow> Q v'"
  shows "distinct (map op_id rows) \<Longrightarrow> (r \<in> set rows \<and> holds r w) \<or> (op_id r \<notin> op_id ` set rows \<and> Q w) \<Longrightarrow>
    wp (recover_each step (map pending_record_from_row rows) n) (\<lambda>_. Q) (\<lambda>_ _. False) w"
proof (induction rows arbitrary: n w)
  case Nil
  then show ?case by (simp add: wp_pure)
next
  case (Cons q rows)
  have others: "wp (step (pending_record_from_row q)) (\<lambda>_. spares (op_id r) w) (\<lambda>_ _. False) w" if "op_id q \<noteq> op_id r"
    by (rule wpI) (use guaranteesD[OF miss[OF that]] raisesD[OF total] in blast)+
  show ?case
    unfolding list.map recover_each.simps wp_bind
  proof (cases "q = r")
    case True
    with Cons.prems have "holds r w" "op_id r \<notin> op_id ` set rows" by auto
    with hit True show "wp (step (pending_record_from_row q))
        (\<lambda>b. wp (recover_each step (map pending_record_from_row rows) (if b then n + 1 else n)) (\<lambda>_. Q) (\<lambda>_ _. False))
        (\<lambda>_ _. False) w"
      by (intro wp_mono[OF hit[of w, folded True]]) (use Cons.IH Cons.prems(1) in auto)
  next
    case False
    with Cons.prems have "op_id q \<noteq> op_id r" by (auto simp: image_iff)
    from others[OF this] show "wp (step (pending_record_from_row q))
        (\<lambda>b. wp (recover_each step (map pending_record_from_row rows) (if b then n + 1 else n)) (\<lambda>_. Q) (\<lambda>_ _. False))
        (\<lambda>_ _. False) w"
    proof (rule wp_mono)
      fix b w' assume sp: "spares (op_id r) w w'"
      have "(r \<in> set rows \<and> holds r w') \<or> (op_id r \<notin> op_id ` set rows \<and> Q w')"
        using Cons.prems(2) False sp stable[OF _ sp] by (auto simp: holds_def spares_def spares_db_def)
      then show "wp (recover_each step (map pending_record_from_row rows) (if b then n + 1 else n))
          (\<lambda>_. Q) (\<lambda>_ _. False) w'"
        using Cons.IH Cons.prems(1) by simp
    qed
  qed
qed

lemma scan_delivers:
  assumes E: "calm (sv_env S)" and wf: "wf_db (w_db w)"
    and rows: "set rows \<subseteq> set (db_ops (w_db w))" "distinct (map op_id rows)" "r \<in> set rows"
    and scan: "scan w = (Inr (map pending_record_from_row rows), w\<lparr>w_clock := w_clock w + 1\<rparr>)"
    and hit: "\<And>v. holds r v \<Longrightarrow> wp (step (pending_record_from_row r)) (\<lambda>_. Q) (\<lambda>_ _. False) v"
    and miss: "\<And>q. op_id q \<noteq> op_id r \<Longrightarrow> guarantees (spares (op_id r)) (step (pending_record_from_row q))"
    and total: "\<And>rd. raises (\<lambda>_. False) (step rd)"
    and stable: "\<And>v v'. Q v \<Longrightarrow> spares (op_id r) v v' \<Longrightarrow> Q v'"
  shows "wp (recover_scanned scan step) (\<lambda>_. Q) (\<lambda>_ _. False) w"
proof -
  let ?w = "w\<lparr>w_clock := w_clock w + 1\<rparr>"
  have "holds r ?w" using wf rows by (auto simp: holds_def)
  have "wp (recover_each step (map pending_record_from_row rows) 0) (\<lambda>_. Q) (\<lambda>_ _. False) ?w"
  proof (rule each_delivers[where r = r and Q = Q and step = step, OF E])
    show "wp (step (pending_record_from_row r)) (\<lambda>_. Q) (\<lambda>_ _. False) v" if "holds r v" for v
      using that by (rule hit)
    show "Q v'" if "Q v" "spares (op_id r) v v'" for v v' using that by (rule stable)
  qed (use rows(3) \<open>holds r ?w\<close> in \<open>simp_all add: rows(2) miss total\<close>)
  then show ?thesis
    unfolding recover_scanned_def on_store_error_value_def wp_bind wp_catch
    by (simp add: wp_def scan)
qed

text \<open>The rows a sorted and limited scan selects.\<close>

lemma selected_rows:
  assumes "wf_db db"
  shows "set (take n (sort_key f (filter P (db_ops db)))) \<subseteq> set (db_ops db)"
    "distinct (map op_id (take n (sort_key f (filter P (db_ops db)))))"
proof -
  show "set (take n (sort_key f (filter P (db_ops db)))) \<subseteq> set (db_ops db)" by (auto dest: set_take_sort)
  have "distinct (map op_id (db_ops db))" using assms by (simp add: wf_db_def)
  then show "distinct (map op_id (take n (sort_key f (filter P (db_ops db)))))"
    unfolding take_map[symmetric]
    by (intro distinct_take) (auto simp: distinct_map intro: inj_on_subset)
qed

lemma pass_delivers:
  assumes E: "calm (sv_env S)" and wf: "wf_db (w_db w)"
    and r: "r \<in> set (select_pending_operations_sql (max 1 limit) (w_db w))"
    and hit: "\<And>v. holds r v \<Longrightarrow>
      wp (recover_event_step S ttl (pending_record_from_row r)) (\<lambda>_. Q) (\<lambda>_ _. False) v"
    and stable: "\<And>v v'. Q v \<Longrightarrow> spares (op_id r) v v' \<Longrightarrow> Q v'"
  shows "wp (recover_pending_pull_events_once S limit ttl) (\<lambda>_. Q) (\<lambda>_ _. False) w"
  unfolding recover_pending_pull_events_once_def
proof (rule scan_delivers[where r = r and Q = Q and rows = "select_pending_operations_sql (max 1 limit) (w_db w)",
      OF E wf])
  show "st_iter_event_pending (sv_env S) limit w =
      (Inr (map pending_record_from_row (select_pending_operations_sql (max 1 limit) (w_db w))),
       w\<lparr>w_clock := w_clock w + 1\<rparr>)"
    using E by (simp add: st_iter_event_pending_def db_call_def Let_def tick_def calm_def db_query_def
        iter_event_pending_pull_operations_def)
  show "wp (recover_event_step S ttl (pending_record_from_row r)) (\<lambda>_. Q) (\<lambda>_ _. False) v" if "holds r v" for v
    using that by (rule hit)
  show "Q v'" if "Q v" "spares (op_id r) v v'" for v v' using that by (rule stable)
qed (use r selected_rows[OF wf] in \<open>auto simp: select_pending_operations_sql_def spares_step[OF E] raises_steps\<close>)

lemma settled_spares: "settled S r st v \<Longrightarrow> spares (op_id r) v v' \<Longrightarrow> settled S r st v'"
  by (auto simp: settled_def holds_def same_pull_def spares_def spares_db_def)

lemma pass_confirms:
  assumes E: "calm (sv_env S)" and wf: "wf_db (w_db w)"
    and r: "r \<in> set (select_pending_operations_sql (max 1 limit) (w_db w))" "op_status r = Event_Published"
      "op_recovery_locked_until r = None" "op_response r = Some response" "op_event r = Some ev"
    and c: "sv_backpack_receipt_client S = Some c" "uuid_parse (ev_event_id ev) = Some i"
      "holds_receipt (sv_env S) i"
  shows "wp (recover_pending_pull_events_once S limit ttl) (\<lambda>_. settled S r Succeeded) (\<lambda>_ _. False) w"
proof (rule pass_delivers[OF E wf r(1)])
  show "wp (recover_event_step S ttl (pending_record_from_row r)) (\<lambda>_. settled S r Succeeded) (\<lambda>_ _. False) v"
    if "holds r v" for v
    by (rule wp_mono[OF published_event_step[OF E that r(2-5) c]]) simp_all
qed (rule settled_spares)

section \<open>Delivery\<close>

text \<open>C23: a pending event is delivered. When the database, the broker and the other sessions cause no
  failure, one pass of the recovery worker publishes the event of every unlocked "event_pending"
  operation its scan selects and moves that operation, unchanged otherwise, to "event_published".\<close>

theorem pending_event_is_published:
  assumes "calm (sv_env S)" "wf_db (w_db w)"
    and "r \<in> set (select_pending_operations_sql (max 1 limit) (w_db w))" "op_status r = Event_Pending"
      "op_recovery_locked_until r = None" "op_response r = Some response" "op_event r = Some ev"
    and "recover_pending_pull_events_once S limit ttl w = (res, w')"
  shows "kafka_message_of (sv_kafka_topic S) ev \<in> set (w_topic w') \<and>
    (\<exists>s \<in> set (db_ops (w_db w')). same_pull r s \<and> op_status s = Event_Published \<and> op_recovery_locked_until s = None)"
proof -
  let ?Q = "\<lambda>v. settled S r Event_Published v \<and> kafka_message_of (sv_kafka_topic S) ev \<in> set (w_topic v)"
  have "wp (recover_pending_pull_events_once S limit ttl) (\<lambda>_. ?Q) (\<lambda>_ _. False) w"
  proof (rule pass_delivers[OF assms(1-3)])
    show "wp (recover_event_step S ttl (pending_record_from_row r)) (\<lambda>_. ?Q) (\<lambda>_ _. False) v" if "holds r v" for v
      by (rule wp_mono[OF pending_event_step[OF assms(1) that assms(4-7)]]) simp_all
    show "?Q v'" if "?Q v" "spares (op_id r) v v'" for v v'
      using that settled_spares[of S r Event_Published v v'] by (auto simp: spares_def)
  qed
  with assms(8) have "?Q w'" by (auto simp: wp_def split: sum.splits)
  then show ?thesis by (auto simp: settled_def holds_def)
qed

text \<open>A pull whose event is still pending.\<close>

definition pending_row :: op_row where
  "pending_row = published_row\<lparr>op_status := Event_Pending\<rparr>"

definition pending_world :: world where
  "pending_world = published_world\<lparr>w_db := \<lparr>db_pity = [sample_pity_row], db_ops = [pending_row]\<rparr>, w_topic := []\<rparr>"

lemma pending_world_wf: "wf_db (w_db pending_world)"
  using published_world_wf
  by (simp add: pending_world_def pending_row_def published_world_def wf_db_def event_ids_def map_filter_def
      op_checks_def)

lemma calm_env_calm: "calm (calm_env body)"
  by (simp add: calm_def calm_env_def)

lemma pending_event_is_published_witness:
  "kafka_message_of ''gacha.pull.completed'' sample_event
     \<in> set (w_topic (snd (recover_pending_pull_events_once sample_services 10 60 pending_world)))"
proof -
  obtain res w' where run: "recover_pending_pull_events_once sample_services 10 60 pending_world = (res, w')" by force
  have sv: "calm (sv_env sample_services)" "sv_kafka_topic sample_services = ''gacha.pull.completed''"
    by (simp_all add: sample_services_def calm_env_calm)
  have "pending_row \<in> set (select_pending_operations_sql (max 1 10) (w_db pending_world))"
    by (simp add: select_pending_operations_sql_def pending_world_def pending_row_def)
  then show ?thesis
    using pending_event_is_published[OF sv(1) pending_world_wf _ _ _ _ _ run, of pending_row sample_response sample_event]
    by (simp add: run sv(2) pending_row_def published_row_def new_op_row_def)
qed

text \<open>C24: a delivered pull succeeds. When nothing fails and the backpack service holds the event, one
  pass of the recovery worker moves every unlocked "event_published" operation its scan selects to
  "succeeded".\<close>

theorem confirmed_pull_succeeds:
  assumes "calm (sv_env S)" "wf_db (w_db w)"
    and "r \<in> set (select_pending_operations_sql (max 1 limit) (w_db w))" "op_status r = Event_Published"
      "op_recovery_locked_until r = None" "op_response r = Some response" "op_event r = Some ev"
    and "sv_backpack_receipt_client S = Some c" "uuid_parse (ev_event_id ev) = Some i" "holds_receipt (sv_env S) i"
    and "recover_pending_pull_events_once S limit ttl w = (res, w')"
  shows "\<exists>s \<in> set (db_ops (w_db w')). same_pull r s \<and> op_status s = Succeeded"
  using pass_confirms[OF assms(1-10), of ttl] assms(11)
  by (auto simp: wp_def settled_def holds_def split: sum.splits)

definition receipt_body :: json where
  "receipt_body = JObj [(''event'', JObj [(''event_id'', JStr (uuid_str 7))])]"

definition receipt_services :: "nat services" where
  "receipt_services = sample_services\<lparr>sv_env := calm_env (Some receipt_body)\<rparr>"

lemma receipt_services_holds: "holds_receipt (sv_env receipt_services) 7"
  by (simp add: holds_receipt_def receipt_services_def calm_env_def is_success_def receipt_body_def json_get_def)

lemma sample_event_id: "uuid_parse (ev_event_id sample_event) = Some 7"
  by (simp add: sample_event_def pull_event_of_def sample_context_def uuid_parse_str)

lemma confirmed_pull_succeeds_witness:
  "\<exists>s \<in> set (db_ops (w_db (snd (recover_pending_pull_events_once receipt_services 10 60 published_world)))).
     op_id s = 1 \<and> op_status s = Succeeded"
proof -
  obtain res w' where run: "recover_pending_pull_events_once receipt_services 10 60 published_world = (res, w')" by force
  have sv: "calm (sv_env receipt_services)"
      "sv_backpack_receipt_client receipt_services = Some (service_client_init ''http://backpack/'' ''t'')"
    by (simp_all add: receipt_services_def sample_services_def calm_env_calm)
  have "published_row \<in> set (select_pending_operations_sql (max 1 10) (w_db published_world))"
    by (simp add: select_pending_operations_sql_def published_world_def published_row_def)
  from confirmed_pull_succeeds[OF sv(1) published_world_wf this _ _ _ _ sv(2) sample_event_id receipt_services_holds run]
  show ?thesis by (auto simp: run same_pull_def published_row_def new_op_row_def)
qed

section \<open>Success means delivery\<close>

text \<open>C10: success means delivery. Whatever fails and however requests and recovery iterations are
  ordered, when other sessions report no success of their own, an operation that reaches
  "succeeded" in a run has an event for which, during the run, the backpack service answered a
  receipt request with that event's id.\<close>

theorem success_is_confirmed:
  assumes "(service_step S)\<^sup>*\<^sup>* w w'" "sober_env (sv_env S)"
    and "r \<in> set (db_ops (w_db w'))" "op_status r = Succeeded"
    and "\<not> (\<exists>s \<in> set (db_ops (w_db w)). op_id s = op_id r \<and> op_status s = Succeeded)"
  shows "\<exists>ev i c n status body. op_event r = Some ev \<and> uuid_parse (ev_event_id ev) = Some i \<and>
    sv_backpack_receipt_client S = Some c \<and> w_clock w \<le> n \<and> n < w_clock w' \<and>
    e_http (sv_env S) n = Http_Response status (Some body) \<and> is_success status \<and>
    json_get (json_get body ''event'') ''event_id'' = JStr (uuid_str i) \<and>
    (\<exists>q \<in> set (w_http w'). hq_method q = ''GET'' \<and> hq_url q = receipt_url c i)"
proof -
  have "confirmed S r w w'"
    using confirming.runs[OF assms(1)] assms(2-5) unfolding confirms_def by blast
  then show ?thesis unfolding confirmed_def receipted_def by blast
qed

lemma receipt_pass_succeeds:
  "\<exists>s \<in> set (db_ops (w_db (snd (recovery_pass receipt_services 10 60 published_world)))).
     op_id s = 1 \<and> op_status s = Succeeded \<and> op_event s = Some sample_event"
proof -
  let ?S = receipt_services and ?w = "published_world\<lparr>w_clock := 2\<rparr>"
  have sv: "calm (sv_env ?S)"
      "sv_backpack_receipt_client ?S = Some (service_client_init ''http://backpack/'' ''t'')"
    by (simp_all add: receipt_services_def sample_services_def calm_env_calm)
  obtain n v where ev: "recover_pending_pull_events_once ?S 10 60 ?w = (Inr n, v)"
    using passes_try_all[THEN tries_all_returns] by blast
  obtain m u where re: "recover_pending_pull_refunds_once ?S 10 60 v = (Inr m, u)"
    using passes_try_all[THEN tries_all_returns] by blast
  have "recover_expired_processing_pulls_once ?S 10 pull_processing_lease_seconds (published_world\<lparr>w_clock := 1\<rparr>)
      = (Inr 0, ?w)"
    by (simp add: recover_expired_processing_pulls_once_def recover_scanned_def on_store_error_value_def eff_defs
        st_iter_expired_processing_def db_call_def Let_def tick_def receipt_services_def sample_services_def
        calm_env_def iter_expired_processing_pull_operations_def db_query_def published_world_def
        select_expired_processing_operations_sql_def published_row_def)
  then have pass: "snd (recovery_pass ?S 10 60 published_world) = u"
    using ev re
    by (simp add: recovery_pass_def svc_sleep_def tick_def receipt_services_def sample_services_def calm_env_def
        published_world_def eff_defs)
  have wf: "wf_db (w_db ?w)" using published_world_wf by simp
  have row: "published_row \<in> set (select_pending_operations_sql (max 1 10) (w_db ?w))"
      "op_status published_row = Event_Published" "op_recovery_locked_until published_row = None"
      "op_response published_row = Some sample_response" "op_event published_row = Some sample_event"
    by (simp_all add: select_pending_operations_sql_def published_world_def published_row_def new_op_row_def)
  have "wp (recover_pending_pull_events_once ?S 10 60) (\<lambda>_. settled ?S published_row Succeeded) (\<lambda>_ _. False) ?w"
    by (rule pass_confirms[OF sv(1) wf row sv(2) sample_event_id receipt_services_holds])
  with ev obtain s where s: "s \<in> set (db_ops (w_db v))" "same_pull published_row s" "op_status s = Succeeded"
    by (auto simp: wp_def settled_def holds_def)
  have "store_steps (w_db v) (w_db u)"
    using guaranteesD[OF advancing.passes(3) re] calm_lawful[OF sv(1)] by (simp add: advances_def)
  from later_row[OF this s(1)] obtain t where t: "t \<in> set (db_ops (w_db u))" "row_le s t" by blast
  have "op_status t = Succeeded"
    using t(2) s(3) by (cases "op_status t") (auto simp: row_le_def has_evidence_def)
  with t s show ?thesis
    unfolding pass by (intro bexI[OF _ t(1)])
      (auto simp: row_le_def has_evidence_def same_pull_def published_row_def new_op_row_def)
qed

lemma success_is_confirmed_witness:
  "\<exists>q \<in> set (w_http (snd (recovery_pass receipt_services 10 60 published_world))).
     hq_method q = ''GET'' \<and> hq_url q = receipt_url (service_client_init ''http://backpack/'' ''t'') 7"
proof -
  let ?w = "snd (recovery_pass receipt_services 10 60 published_world)"
  have run: "(service_step receipt_services)\<^sup>*\<^sup>* published_world ?w"
    by (rule r_into_rtranclp, rule step_recovery)
  obtain s where s: "s \<in> set (db_ops (w_db ?w))" "op_status s = Succeeded" "op_id s = 1"
      "op_event s = Some sample_event"
    using receipt_pass_succeeds by blast
  have "sober_env (sv_env receipt_services)"
    by (auto simp: sober_env_def receipt_services_def calm_env_def no_new_success_def)
  moreover have "\<not> (\<exists>r \<in> set (db_ops (w_db published_world)). op_id r = op_id s \<and> op_status r = Succeeded)"
    by (simp add: published_world_def published_row_def)
  moreover have "sv_backpack_receipt_client receipt_services = Some (service_client_init ''http://backpack/'' ''t'')"
    by (simp add: receipt_services_def sample_services_def)
  ultimately show ?thesis
    using success_is_confirmed[OF run _ s(1,2)] s(4) sample_event_id by auto
qed

end
