(* ===== verification/Charge_Guarantees.thy ===== *)
theory Charge_Guarantees
  imports Delivery_Guarantees Release_Audit
begin

text \<open>
  The fate of a charge whose pull cannot be computed from the frozen config, which a released config
  without an item of some rarity allows: the charge stays and no refund is sent. That a charge is
  answered when nothing fails is shown in \<open>Answer_Guarantees\<close>.
\<close>

section \<open>A pull that cannot be computed\<close>

text \<open>Reads change nothing when no other session is at work.\<close>

definition unchanged :: "world \<Rightarrow> world \<Rightarrow> bool" where
  "unchanged w w' \<longleftrightarrow> w_db w' = w_db w \<and> w_topic w' = w_topic w \<and> w_http w' = w_http w"

lemma unchanged_refl [simp]: "unchanged w w"
  by (simp add: unchanged_def)

lemma wp_idle_read:
  assumes idle: "\<And>n d. e_others E n d = d" and m: "\<And>n d. snd (m n d) = d"
    and Q: "\<And>x w'. unchanged w w' \<Longrightarrow> m (w_clock w) (w_db w) = (Inr x, w_db w) \<Longrightarrow> Q x w'"
    and X: "\<And>e w'. unchanged w w' \<Longrightarrow> X e w'"
  shows "wp (db_call E msg m) Q X w"
proof -
  let ?w = "w\<lparr>w_clock := w_clock w + 1\<rparr>"
  have t: "tick E w = ?w" by (simp add: tick_def idle)
  have u: "unchanged w ?w" by (simp add: unchanged_def)
  obtain r where r: "m (w_clock w) (w_db w) = (r, w_db w)"
    using m[of "w_clock w" "w_db w"] by (metis prod.collapse)
  have "?w\<lparr>w_db := w_db w\<rparr> = ?w" by simp
  with r u show ?thesis
    by (cases r) (auto simp: wp_def db_call_def Let_def t intro: Q X split: db_outcome.splits)
qed

lemma reads_keep_db: "snd (get_snapshot user grp d) = d" "snd (get_pull_operation_by_key k d) = d"
  by (simp_all add: get_snapshot_def get_pull_operation_by_key_def eff_defs db_query_def split: sum.splits)

text \<open>The answer to a failed commit reads the operation back; while it is processing nothing is done.\<close>

lemma on_commit_error_idle:
  assumes idle: "\<And>n d. e_others (sv_env S) n d = d"
    and row: "\<And>r. r \<in> set (db_ops (w_db w)) \<Longrightarrow> uuid_parse k = Some (op_id r) \<Longrightarrow> op_status r = Processing"
  shows "wp (on_commit_error S user k h x e) (\<lambda>_ _. False) (\<lambda>_. unchanged w) w"
proof -
  have "wp (st_get_pull_operation_by_key (sv_env S) k)
      (\<lambda>found w'. unchanged w w' \<and> (case found of None \<Rightarrow> True | Some po \<Rightarrow> po_status po = Processing))
      (\<lambda>_. unchanged w) w"
    unfolding st_get_pull_operation_by_key_def
  proof (rule wp_idle_read[OF idle reads_keep_db(2)])
    fix found w' assume w': "unchanged w w'" and g: "get_pull_operation_by_key k (w_db w) = (Inr found, w_db w)"
    have "po_status po = Processing" if "found = Some po" for po
    proof -
      from g that obtain oid where oid: "uuid_parse k = Some oid"
          "map_option operation_from_row (select_pull_operation_by_id_sql oid (w_db w)) = Some po"
        by (auto simp: get_pull_operation_by_key_def eff_defs operation_id_of_def db_query_def split: option.splits)
      then obtain r where r: "find (\<lambda>r. op_id r = oid) (db_ops (w_db w)) = Some r" "po = operation_from_row r"
        by (auto simp: select_pull_operation_by_id_sql_def)
      then have "r \<in> set (db_ops (w_db w))" "op_id r = oid" by (auto simp: find_Some_iff)
      with row[of r] oid r show ?thesis by (simp add: operation_from_row_def)
    qed
    with w' show "unchanged w w' \<and> (case found of None \<Rightarrow> True | Some po \<Rightarrow> po_status po = Processing)"
      by (simp split: option.splits)
  qed simp
  then have "wp (eff_bind (eff_catch (st_get_pull_operation_by_key (sv_env S) k)
      (\<lambda>e'. case e' of GachaStateStoreError _ \<Rightarrow> eff_return None | _ \<Rightarrow> eff_raise e'))
      (\<lambda>reconciled. case reconciled of
         Some po \<Rightarrow>
           (if po_status po \<noteq> Processing
            then handle_claimed_pull_operation S po user k h x (context_metadata x)
            else eff_raise (state_store_http_exception ''pull outcome is being reconciled''))
       | None \<Rightarrow> eff_raise (state_store_http_exception ''pull outcome is being reconciled'')))
      (\<lambda>_ _. False) (\<lambda>_. unchanged w) w"
    unfolding wp_bind wp_catch
    by (elim wp_mono) (auto simp: wp_pure split: option.splits exn.splits)
  then show ?thesis by (auto simp: on_commit_error_def wp_pure split: exn.splits)
qed

text \<open>C22: a pull that cannot be computed keeps its charge. When the spend succeeded and \<open>perform_pulls\<close>
  raises for the frozen config, an execution of the claimed pull, by the request or by the recovery
  worker, ends in an exception after exactly that one spend: no refund is sent or recorded, no event
  is published, and the operation stays "processing", so that every later attempt ends the same way.\<close>

theorem failed_computation_keeps_charge:
  assumes "\<And>n d. e_others (sv_env S) n d = d"
    and "e_http (sv_env S) (w_clock w) = Http_Response status body" "is_success status"
    and "generate_pull (sv_lib S) user x (snapshot_at (user, rc_pity_group_id x) (w_db w)) = Inl e"
    and "\<And>r. r \<in> set (db_ops (w_db w)) \<Longrightarrow> uuid_parse k = Some (op_id r) \<Longrightarrow> op_status r = Processing"
    and "execute_claimed_pull S user k h token x w = (res, w')"
  shows "(\<exists>e'. res = Inl e') \<and> w_http w' = w_http w @ [spend_request S user x] \<and>
    w_topic w' = w_topic w \<and> w_db w' = w_db w"
proof -
  note idle = assms(1)
  let ?w = "(tick (sv_env S) w)\<lparr>w_http := w_http w @ [spend_request S user x]\<rparr>"
  have db: "w_db ?w = w_db w" by (simp add: tick_def idle)
  have row: "op_status r = Processing" if "unchanged ?w v" "r \<in> set (db_ops (w_db v))" "uuid_parse k = Some (op_id r)" for v r
    using assms(5)[of r] that db by (simp add: unchanged_def)
  have raise: "wp (on_commit_error S user k h x e') (\<lambda>_ _. False) (\<lambda>_. unchanged ?w) v" if v: "unchanged ?w v" for e' v
    by (rule wp_mono[OF on_commit_error_idle[OF idle row[OF v]]]) (use v in \<open>auto simp: unchanged_def\<close>)
  have attempt: "wp (commit_attempts S user k h token x (Suc n)) (\<lambda>_ _. False) (\<lambda>_. unchanged ?w) ?w" for n
    unfolding commit_attempts.simps wp_bind st_get_snapshot_def
  proof (rule wp_idle_read[OF idle reads_keep_db(1)])
    fix previous w' assume "unchanged ?w w'" "get_snapshot user (rc_pity_group_id x) (w_db ?w) = (Inr previous, w_db ?w)"
    with assms(4) show "wp (eff_lift (generate_pull (sv_lib S) user x previous))
        (\<lambda>y. wp (case y of (next_state, response, ev) \<Rightarrow> F next_state response ev previous) (\<lambda>_ _. False) (\<lambda>_. unchanged ?w))
        (\<lambda>_. unchanged ?w) w'" for F
      unfolding db get_snapshot_at by (simp add: wp_pure)
  qed simp
  have spend: "asset_spend (sv_env S) (sv_lib S) (sv_asset_client S) user (rc_amount_minor x)
      (spend_idempotency_key (uuid_str (rc_event_id x))) ''gacha_pull'' (context_metadata x) (rc_request_id x) w
      = (Inr (), ?w)"
    by (simp add: asset_spend_def post_entry_run assms(2,3) spend_request_def)
  have "wp (eff_try (generate_and_commit_pull_with_retry S user k h token x) (on_commit_error S user k h x)
      (\<lambda>(response, ev). publish_and_complete_claimed_pull S k h response ev))
      (\<lambda>_ _. False) (\<lambda>_. unchanged ?w) ?w"
    unfolding wp_try generate_and_commit_pull_with_retry_def
    using wp_mono[OF attempt[of 4], of _ "\<lambda>e. wp (on_commit_error S user k h x e) (\<lambda>_ _. False) (\<lambda>_. unchanged ?w)"] raise
    by (simp add: pity_commit_max_attempts_def eval_nat_numeral del: commit_attempts.simps)
  then have "wp (execute_claimed_pull S user k h token x) (\<lambda>_ _. False) (\<lambda>_. unchanged ?w) w"
    by (simp add: execute_claimed_pull_def wp_def eff_try_def spend)
  with assms(6) show ?thesis
    using db by (auto simp: wp_def unchanged_def tick_def split: sum.splits)
qed

text \<open>The released config with one five star item, and a roll of three stars.\<close>

lemma small_rate:
  assumes "rr_base_rate_ppm r \<le> 125000"
  shows "base_rate r \<le> 1 / 8"
proof -
  have "fl (1 / 8) = 1 / 8" using fl_powi[of "- 3"] by (simp add: power_int_minus)
  moreover have "fl (of_int (rr_base_rate_ppm r) / 1000000) \<le> fl (1 / 8)"
  proof (rule fl_mono)
    have "(of_int (rr_base_rate_ppm r) :: rat) \<le> of_int 125000" using assms by (simp only: of_int_le_iff)
    then show "of_int (rr_base_rate_ppm r) / 1000000 \<le> (1 / 8 :: rat)" by simp
  qed
  ultimately show ?thesis by (simp add: base_rate_def int_truediv_def)
qed

lemma lonely_three: "roll_rarity sample_lib lonely_config create_initial_pity (Suc 0) = Inr (3, 7)"
proof -
  have "base_rate \<lparr>rr_rarity = 5, rr_base_rate_ppm = 6000, rr_roll_order = 1\<rparr> \<le> 1 / 8"
    "base_rate \<lparr>rr_rarity = 4, rr_base_rate_ppm = 51000, rr_roll_order = 2\<rparr> \<le> 1 / 8"
    by (rule small_rate, simp)+
  then show ?thesis
    by (simp add: roll_rarity_def lonely_config_def lonely_pity_rule_def create_initial_pity_def sample_lib_def
        get_rarity_rate_def Let_def)
qed

lemma lonely_no_pull:
  "generate_pull sample_lib 2 (lonely_context a) (with_version create_initial_pity 0) =
     Inl (ValueError ''cannot pick from an empty gacha pool'')"
proof -
  have "lib_Random sample_lib (rc_seed (lonely_context a)) = 1" "nat (rc_count (lonely_context a)) = Suc 0"
    by (simp_all add: sample_lib_def lonely_context_def)
  then show ?thesis
    by (simp add: generate_pull_def lonely_thawed without_with_version perform_pulls_def pull_step_def Let_def
        lonely_three lonely_gap)
qed

definition charged_world :: world where
  "charged_world = \<lparr>w_db = \<lparr>db_pity = [], db_ops = [sample_row\<lparr>op_recovery_context := Some (lonely_context None)\<rparr>]\<rparr>,
     w_topic = [], w_http = [], w_producer_started = True, w_clock = 0\<rparr>"

lemma failed_computation_keeps_charge_witness:
  "\<exists>e w'. execute_claimed_pull sample_services 2 (uuid_str 1) sample_hash 3 (lonely_context None) charged_world = (Inl e, w') \<and>
     w_http w' = [spend_request sample_services 2 (lonely_context None)] \<and> w_db w' = w_db charged_world"
proof -
  obtain res w' where run: "execute_claimed_pull sample_services 2 (uuid_str 1) sample_hash 3 (lonely_context None)
      charged_world = (res, w')" by force
  have "generate_pull (sv_lib sample_services) 2 (lonely_context None)
      (snapshot_at (2, rc_pity_group_id (lonely_context None)) (w_db charged_world))
      = Inl (ValueError ''cannot pick from an empty gacha pool'')"
    using lonely_no_pull
    by (simp add: sample_services_def charged_world_def snapshot_at_def select_pity_sql_def)
  from failed_computation_keeps_charge[OF _ _ _ this _ run, of 200 None] run show ?thesis
    by (auto simp: sample_services_def calm_env_def is_success_def charged_world_def)
qed

end
