(* ===== verification/Answer_Guarantees.thy ===== *)
theory Answer_Guarantees
  imports Charge_Guarantees
begin

text \<open>
  A first request for a pull when nothing fails: it is charged once, committed, published and answered.
  The lemmas run each stage of \<open>claim_or_resume_pull\<close> on the row the stage before left.
\<close>

section \<open>The claim of a new operation\<close>

lemma begin_new:
  fixes lease :: int
  assumes E: "calm E" and rid: "request_id_column (rc_request_id x) = Inr rid"
    and hashes: "sha256_text (idempotency_key_hash L key)" "sha256_text h"
    and key: "\<And>r. r \<in> set (db_ops (w_db w)) \<Longrightarrow> op_user_id r \<noteq> user \<or> op_key_hash r \<noteq> idempotency_key_hash L key"
    and oid: "\<And>r. r \<in> set (db_ops (w_db w)) \<Longrightarrow> op_id r \<noteq> e_uuid4 E (w_clock w + 1)"
  defines "row \<equiv> new_op_row (e_uuid4 E (w_clock w + 1)) user (idempotency_key_hash L key) h
    (e_uuid4 E (w_clock w)) (e_now E (w_clock w)) (max 1 lease) x rid"
  shows "st_begin_pull_operation E L user key h lease x w =
    (Inr (claim_of_row (Some (e_uuid4 E (w_clock w))) row),
     w\<lparr>w_clock := w_clock w + 3, w_db := (w_db w)\<lparr>db_ops := db_ops (w_db w) @ [row]\<rparr>\<rparr>)"
proof -
  have "op_checks row" using hashes by (simp add: row_def new_op_row_def op_checks_def)
  then have "insert_pull_operation_sql row (w_db w) = (Inr (Some row), (w_db w)\<lparr>db_ops := db_ops (w_db w) @ [row]\<rparr>)"
    using key oid by (auto simp: insert_pull_operation_sql_def row_def new_op_row_def)
  moreover have "new_op_row (e_uuid4 E (Suc (w_clock w))) user (idempotency_key_hash L key) h
      (e_uuid4 E (w_clock w)) (e_now E (w_clock w)) (max 1 lease) x rid = row"
    by (simp add: row_def)
  ultimately show ?thesis
    using E rid
    by (simp add: st_begin_pull_operation_def pass_def db_call_def Let_def tick_def calm_def begin_pull_operation_def
        eff_defs numeral_3_eq_3)
qed

section \<open>The commit\<close>

text \<open>What a pity snapshot must satisfy to be stored.\<close>

definition storable :: "string \<Rightarrow> pity_state \<Rightarrow> int \<Rightarrow> bool" where
  "storable grp p v \<longleftrightarrow> 0 < py_len grp \<and> py_len grp \<le> 100 \<and> 0 \<le> since_five p \<and> since_five p < 2 ^ 31 \<and>
     0 \<le> since_four p \<and> since_four p < 2 ^ 31 \<and> 0 \<le> v \<and> v < 2 ^ 63"

lemma initial_pity_row:
  assumes wf: "wf_db db" and st: "0 < py_len grp" "py_len grp \<le> 100"
  shows "\<exists>d. insert_initial_pity_sql now user grp db = (Inr (), d) \<and> wf_db d \<and> db_ops d = db_ops db \<and>
    snapshot_at (user, grp) d = snapshot_at (user, grp) db \<and>
    (\<exists>r \<in> set (db_pity d). at_pity user grp r)"
proof -
  obtain res d where run: "insert_initial_pity_sql now user grp db = (res, d)" by force
  have "\<not> (\<exists>r \<in> set (db_pity db). pt_user_id r = user \<and> pt_banner_id r = grp)"
    if "\<not> (\<exists>r \<in> set (db_pity db). at_pity user grp r)"
    using that wf by (auto simp: wf_db_def at_pity_def)
  with run st have "res = Inr () \<and> (\<exists>r \<in> set (db_pity d). at_pity user grp r)"
    by (auto simp: insert_initial_pity_sql_def Let_def pity_checks_def at_pity_def split: if_splits)
  with run insert_pity_wf[OF wf run] insert_pity_snapshot[OF wf run] insert_pity_ops[OF run]
  show ?thesis by auto
qed

lemma advance_pity_runs:
  assumes wf: "wf_db db" and st: "storable grp p (version (snapshot_at (user, grp) db) + 1)"
  shows "\<exists>d. advance_pity now user grp (version (snapshot_at (user, grp) db)) p db =
      (Inr (with_version p (version (snapshot_at (user, grp) db) + 1)), d) \<and> wf_db d \<and> db_ops d = db_ops db \<and>
    snapshot_at (user, grp) d = with_version p (version (snapshot_at (user, grp) db) + 1)"
proof -
  let ?v = "version (snapshot_at (user, grp) db)"
  obtain d1 r where d1: "insert_initial_pity_sql now user grp db = (Inr (), d1)" "wf_db d1"
      "snapshot_at (user, grp) d1 = snapshot_at (user, grp) db" "r \<in> set (db_pity d1)" "at_pity user grp r"
    using initial_pity_row[OF wf, of grp now user] st by (auto simp: storable_def)
  have v: "pt_version r = ?v"
    using snapshot_of_row[OF d1(2,4), of "(user, grp)"] d1(3,5) by (simp add: at_pity_key snapshot_from_row_def)
  have checks: "pity_checks (with_pity now p s)" if "s \<in> set (db_pity d1)" "at_pity user grp s" "pt_version s = ?v" for s
    using that st d1(2) by (auto simp: wf_db_def pity_checks_def with_pity_def storable_def)
  obtain s ss where hit: "filter (\<lambda>r. at_pity user grp r \<and> pt_version r = ?v) (db_pity d1) = s # ss"
    using d1(4,5) v by (cases "filter (\<lambda>r. at_pity user grp r \<and> pt_version r = ?v) (db_pity d1)")
      (auto simp: filter_empty_conv)
  have "\<not> (\<exists>q. q \<in> set (db_pity d1) \<and> at_pity user grp q \<and> pt_version q = ?v \<and> \<not> pity_checks (with_pity now p q))"
    using checks by blast
  then obtain d where upd: "update_pity_sql now user grp ?v p d1 = (Inr (Some (with_pity now p s)), d)"
    by (simp add: update_pity_sql_def Let_def hit)
  have run: "advance_pity now user grp ?v p db = (Inr (snapshot_from_row (with_pity now p s)), d)"
    by (simp add: advance_pity_def eff_defs d1(1) upd)
  note ok = advance_pity_ok[OF wf run]
  from run ok(3,5) advance_pity_wf[OF wf run] show ?thesis unfolding ok(2) by (intro exI[of _ d]) simp
qed

lemma wp_commit_calm:
  assumes E: "calm E" and r: "holds r w" "op_status r = Processing" "op_processing_token r = Some token"
      "op_response r = None"
    and fresh: "re_event_id resp \<notin> set (event_ids (db_ops (w_db w)))"
    and st: "storable grp p (version prev + 1)" "prev = snapshot_at (op_user_id r, grp) (w_db w)"
    and Q: "\<And>n s w'. holds s w' \<Longrightarrow> op_id s = op_id r \<Longrightarrow> op_user_id s = op_user_id r \<Longrightarrow> op_key_hash s = op_key_hash r \<Longrightarrow>
      op_request_hash s = op_request_hash r \<Longrightarrow> op_status s = Event_Pending \<Longrightarrow> op_response s = Some resp \<Longrightarrow>
      op_event s = Some ev \<Longrightarrow> untouched w w' \<Longrightarrow>
      snapshot_at (op_user_id r, grp) (w_db w') = with_version p (version prev + 1) \<Longrightarrow> Q n w'"
  shows "wp (st_commit E (uuid_str (op_id r)) (op_user_id r) grp (op_request_hash r) (version prev) p
    (operation_with Event_Pending (op_request_hash r) (Some resp) (Some ev)) token) Q X w"
proof -
  let ?now = "e_now E (w_clock w)" and ?po = "operation_with Event_Pending (op_request_hash r) (Some resp) (Some ev)"
  let ?upd = "\<lambda>r. release_claim ?now (with_operation ?po r)\<lparr>op_recovery_locked_until := None\<rparr>"
  have wf: "wf_db (w_db w)" "r \<in> set (db_ops (w_db w))" using r(1) by (simp_all add: holds_def)
  obtain d where adv: "advance_pity ?now (op_user_id r) grp (version prev) p (w_db w)
      = (Inr (with_version p (version prev + 1)), d)" "wf_db d" "db_ops d = db_ops (w_db w)"
      "snapshot_at (op_user_id r, grp) d = with_version p (version prev + 1)"
    using advance_pity_runs[OF wf(1), of grp p "op_user_id r" ?now] st by auto
  have one: "op_id s = op_id r \<longleftrightarrow> s = r" if "s \<in> set (db_ops d)" for s
    using op_id_unique[OF wf(1) _ wf(2)] that adv(3) by auto
  have upd: "protect_update r (?upd r)" "op_checks (?upd r)"
    using r(2) holds_checks[OF r(1)]
    by (simp_all add: protect_update_def op_checks_def with_operation_def release_claim_def operation_with_def)
  have "distinct (event_ids (map (updated (\<lambda>s. op_id s = op_id r) ?upd) (db_ops d)))"
    by (rule event_ids_new[OF adv(2), of r])
       (use wf(2) adv(3) one r(4) fresh in \<open>simp_all add: with_operation_def release_claim_def operation_with_def\<close>)
  from update_one[OF adv(2), of r "\<lambda>s. op_id s = op_id r" ?upd, OF _ _ _ upd _ this] wf(2) adv(3)
  obtain db' where run: "update_pull_operation_sql ?now (op_id r) ?po d = (Inr [?upd r], db')" "wf_db db'"
      "?upd r \<in> set (db_ops db')" "db_pity db' = db_pity d"
    by (auto simp: update_pull_operation_sql_def)
  have find: "find (\<lambda>s. op_id s = op_id r \<and> op_user_id s = op_user_id r) (db_ops (w_db w)) = Some r"
  proof (cases "find (\<lambda>s. op_id s = op_id r \<and> op_user_id s = op_user_id r) (db_ops (w_db w))")
    case None
    with wf(2) show ?thesis by (auto simp: find_None_iff)
  next
    case (Some s)
    then have "s \<in> set (db_ops (w_db w))" "op_id s = op_id r" by (auto simp: find_Some_iff)
    with Some op_id_unique[OF wf(1) _ wf(2)] show ?thesis by auto
  qed
  have commit: "compare_and_set_with_pull_operation ?now (uuid_str (op_id r)) (op_user_id r) grp (op_request_hash r)
      (version prev) p ?po token (w_db w) = (Inr (with_version p (version prev + 1)), db')"
    using find r(2,3) adv(1) run(1)
    by (simp add: compare_and_set_with_pull_operation_def eff_defs operation_id_of_def uuid_parse_str db_query_def)
  have "snapshot_at (op_user_id r, grp) db' = with_version p (version prev + 1)"
    using adv(4) run(4) by (simp add: snapshot_at_def select_pity_sql_def)
  then have "Q (with_version p (version prev + 1)) (w\<lparr>w_clock := w_clock w + 1, w_db := db'\<rparr>)"
    by (intro Q[of "?upd r"])
       (use run(2,3) in \<open>simp_all add: holds_def untouched_def with_operation_def release_claim_def operation_with_def\<close>)
  then show ?thesis
    unfolding st_commit_def by (intro wp_calm_db[OF E]) (simp add: wp_def commit)
qed

section \<open>From the claim to the answer\<close>

lemma wp_ignore_store: "wp m (\<lambda>_. Q ()) (\<lambda>_ _. False) w \<Longrightarrow> wp (ignore_store_error m) Q X w"
  unfolding ignore_store_error_def wp_catch by (erule wp_mono) simp_all

lemma wp_publish_and_complete:
  assumes E: "calm (sv_env S)" and r: "holds r w" "op_status r = Event_Pending"
      "op_response r = Some resp" "op_event r = Some ev"
    and Q: "\<And>s w'. holds s w' \<Longrightarrow> same_pull r s \<Longrightarrow> op_status s = Event_Published \<Longrightarrow> op_key_hash s = op_key_hash r \<Longrightarrow>
      w_topic w' = w_topic w @ [kafka_message_of (sv_kafka_topic S) ev] \<Longrightarrow> w_http w' = w_http w \<Longrightarrow>
      db_pity (w_db w') = db_pity (w_db w) \<Longrightarrow> Q resp w'"
  shows "wp (publish_and_complete_claimed_pull S (uuid_str (op_id r)) (op_request_hash r) resp ev) Q X w"
proof -
  have save: "wp (ignore_store_error (st_save_by_key (sv_env S) (uuid_str (op_id r))
      (operation_with Event_Published (op_request_hash r) (op_response r) (op_event r))))
      (\<lambda>_. Q resp) X v"
    if v: "w_db v = w_db w" "w_http v = w_http w" "w_topic v = w_topic w @ [kafka_message_of (sv_kafka_topic S) ev]" for v
  proof (rule wp_ignore_store, rule wp_save_row[OF E])
    show "holds r v" using r(1) v(1) by (simp add: holds_def)
    show "Q resp w'" if "holds s w'" "same_pull r s" "op_status s = Event_Published" "untouched v w'"
        "db_pity (w_db w') = db_pity (w_db v)" for s w'
      by (rule Q[OF that(1-3)]) (use that v in \<open>simp_all add: untouched_def same_pull_def\<close>)
  qed (use r(2) in simp_all)
  show ?thesis
    unfolding publish_and_complete_claimed_pull_def wp_simps
    by (rule wp_publish_calm[OF E]) (use save r(3,4) in simp)
qed

lemma wp_spend:
  assumes E: "calm (sv_env S)" and ok: "e_http (sv_env S) (w_clock w) = Http_Response status body" "is_success status"
    and Q: "\<And>w'. w_db w' = w_db w \<Longrightarrow> w_topic w' = w_topic w \<Longrightarrow> w_http w' = w_http w @ [spend_request S user x] \<Longrightarrow> Q () w'"
  shows "wp (asset_spend (sv_env S) (sv_lib S) (sv_asset_client S) user (rc_amount_minor x)
    (spend_idempotency_key (uuid_str (rc_event_id x))) ''gacha_pull'' (context_metadata x) (rc_request_id x)) Q X w"
  using E ok by (simp add: wp_def asset_spend_def post_entry_run spend_request_def tick_def calm_def Q)

lemma wp_get_snapshot_calm:
  assumes E: "calm E"
    and Q: "\<And>w'. w_db w' = w_db w \<Longrightarrow> untouched w w' \<Longrightarrow> Q (snapshot_at (user, grp) (w_db w)) w'"
  shows "wp (st_get_snapshot E user grp) Q X w"
  unfolding st_get_snapshot_def
  by (rule wp_calm_db[OF E]) (simp add: wp_def get_snapshot_at Q untouched_def)

lemma wp_first_attempt:
  assumes E: "calm (sv_env S)"
    and gen: "generate_pull (sv_lib S) user x (snapshot_at (user, rc_pity_group_id x) (w_db w)) = Inr (p, resp, ev)"
    and commit: "\<And>v. w_db v = w_db w \<Longrightarrow> untouched w v \<Longrightarrow>
      wp (st_commit (sv_env S) k user (rc_pity_group_id x) h (version (snapshot_at (user, rc_pity_group_id x) (w_db w))) p
        (operation_with Event_Pending h (Some resp) (Some ev)) token) (\<lambda>_. C) (\<lambda>_ _. False) v"
  shows "wp (commit_attempts S user k h token x (Suc n)) (\<lambda>y v. y = (resp, ev) \<and> C v) (\<lambda>_ _. False) w"
  unfolding commit_attempts.simps wp_bind
proof (rule wp_get_snapshot_calm[OF E])
  fix w' assume w': "w_db w' = w_db w" "untouched w w'"
  show "wp (eff_lift (generate_pull (sv_lib S) user x (snapshot_at (user, rc_pity_group_id x) (w_db w))))
      (\<lambda>y. wp (case y of (next_state, response, ev) \<Rightarrow> eff_try
          (st_commit (sv_env S) k user (rc_pity_group_id x) h
             (version (snapshot_at (user, rc_pity_group_id x) (w_db w))) next_state
             (operation_with Event_Pending h (Some response) (Some ev)) token)
          (\<lambda>e. case e of
             PityVersionConflict _ \<Rightarrow>
               (if n = 0
                then eff_raise (HTTPException 503 ''pull_recovery_pending''
                       ''pull is queued behind another pull and will continue automatically'')
                else eff_then (svc_sleep (sv_env S)) (commit_attempts S user k h token x n))
           | _ \<Rightarrow> eff_raise e)
          (\<lambda>_. eff_return (response, ev)))
        (\<lambda>y v. y = (resp, ev) \<and> C v) (\<lambda>_ _. False))
      (\<lambda>_ _. False) w'"
    unfolding gen wp_pure sum.case prod.case wp_try
    by (rule wp_mono[OF commit[OF w']]) (simp_all add: wp_pure)
qed

text \<open>The pull is committed on the claimed row and charged; nothing has been published yet.\<close>

definition charged_and_committed ::
    "'g services \<Rightarrow> op_row \<Rightarrow> pull_recovery_context \<Rightarrow> pity_snapshot \<Rightarrow> pull_response \<Rightarrow> pull_completed_event
     \<Rightarrow> world \<Rightarrow> world \<Rightarrow> bool" where
  "charged_and_committed S r x nxt resp ev w v \<longleftrightarrow>
     (\<exists>s. holds s v \<and> op_id s = op_id r \<and> op_user_id s = op_user_id r \<and> op_key_hash s = op_key_hash r \<and>
        op_request_hash s = op_request_hash r \<and> op_status s = Event_Pending \<and> op_response s = Some resp \<and>
        op_event s = Some ev) \<and>
     w_topic v = w_topic w \<and> w_http v = w_http w @ [spend_request S (op_user_id r) x] \<and>
     snapshot_at (op_user_id r, rc_pity_group_id x) (w_db v) = nxt"

definition answered ::
    "'g services \<Rightarrow> op_row \<Rightarrow> pull_recovery_context \<Rightarrow> pity_snapshot \<Rightarrow> pull_response \<Rightarrow> pull_completed_event
     \<Rightarrow> world \<Rightarrow> world \<Rightarrow> bool" where
  "answered S r x nxt resp ev w v \<longleftrightarrow>
     (\<exists>s \<in> set (db_ops (w_db v)). op_user_id s = op_user_id r \<and> op_key_hash s = op_key_hash r \<and>
        op_request_hash s = op_request_hash r \<and> op_status s = Event_Published \<and> op_response s = Some resp \<and>
        op_event s = Some ev) \<and>
     w_topic v = w_topic w @ [kafka_message_of (sv_kafka_topic S) ev] \<and>
     w_http v = w_http w @ [spend_request S (op_user_id r) x] \<and>
     snapshot_at (op_user_id r, rc_pity_group_id x) (w_db v) = nxt"

lemma wp_finish:
  assumes E: "calm (sv_env S)" and c: "charged_and_committed S r x nxt resp ev w v"
  shows "wp (publish_and_complete_claimed_pull S (uuid_str (op_id r)) (op_request_hash r) resp ev)
    (\<lambda>y v'. y = resp \<and> answered S r x nxt resp ev w v') (\<lambda>_ _. False) v"
proof -
  from c obtain s where s: "holds s v" "op_status s = Event_Pending" "op_response s = Some resp" "op_event s = Some ev"
      "op_id s = op_id r" "op_user_id s = op_user_id r" "op_key_hash s = op_key_hash r"
      "op_request_hash s = op_request_hash r"
    by (auto simp: charged_and_committed_def)
  have "wp (publish_and_complete_claimed_pull S (uuid_str (op_id s)) (op_request_hash s) resp ev)
    (\<lambda>y v'. y = resp \<and> answered S r x nxt resp ev w v') (\<lambda>_ _. False) v"
  proof (rule wp_publish_and_complete[OF E s(1-4)])
    fix t v' assume t: "holds t v'" "same_pull s t" "op_status t = Event_Published" "op_key_hash t = op_key_hash s"
      "w_topic v' = w_topic v @ [kafka_message_of (sv_kafka_topic S) ev]" "w_http v' = w_http v"
      "db_pity (w_db v') = db_pity (w_db v)"
    have "snapshot_at k (w_db v') = snapshot_at k (w_db v)" for k
      using t(7) by (simp add: snapshot_at_def select_pity_sql_def)
    then show "resp = resp \<and> answered S r x nxt resp ev w v'"
      using s t c by (auto simp: answered_def charged_and_committed_def same_pull_def holds_def intro!: bexI[of _ t])
  qed
  then show ?thesis by (simp add: s)
qed

text \<open>A claimed row on which nothing stands in the way of the first attempt to commit.\<close>

definition ready :: "'g services \<Rightarrow> op_row \<Rightarrow> uuid \<Rightarrow> pull_recovery_context \<Rightarrow> pity_state \<Rightarrow> pull_response
    \<Rightarrow> pull_completed_event \<Rightarrow> world \<Rightarrow> bool" where
  "ready S r token x p resp ev w \<longleftrightarrow>
     (let prev = snapshot_at (op_user_id r, rc_pity_group_id x) (w_db w) in
      holds r w \<and> op_status r = Processing \<and> op_processing_token r = Some token \<and> op_response r = None \<and>
      generate_pull (sv_lib S) (op_user_id r) x prev = Inr (p, resp, ev) \<and>
      storable (rc_pity_group_id x) p (version prev + 1) \<and>
      re_event_id resp \<notin> set (event_ids (db_ops (w_db w))))"

definition spends_accepted :: "env \<Rightarrow> bool" where
  "spends_accepted E \<longleftrightarrow> (\<forall>n. \<exists>status body. e_http E n = Http_Response status body \<and> is_success status)"

lemma wp_execute_calm:
  assumes E: "calm (sv_env S)" "spends_accepted (sv_env S)" and r: "ready S r token x p resp ev w"
  defines "nxt \<equiv> with_version p (version (snapshot_at (op_user_id r, rc_pity_group_id x) (w_db w)) + 1)"
  shows "wp (execute_claimed_pull S (op_user_id r) (uuid_str (op_id r)) (op_request_hash r) token x)
    (\<lambda>y v. y = resp \<and> answered S r x nxt resp ev w v) (\<lambda>_ _. False) w"
proof -
  let ?user = "op_user_id r" and ?k = "uuid_str (op_id r)" and ?h = "op_request_hash r" and ?grp = "rc_pity_group_id x"
  let ?prev = "snapshot_at (?user, ?grp) (w_db w)" and ?C = "charged_and_committed S r x nxt resp ev w"
  note r' = r[unfolded ready_def Let_def]
  have commit: "wp (st_commit (sv_env S) ?k ?user ?grp ?h (version ?prev) p
      (operation_with Event_Pending ?h (Some resp) (Some ev)) token) (\<lambda>_. ?C) (\<lambda>_ _. False) v"
    if v: "w_db v = w_db w" "w_topic v = w_topic w" "w_http v = w_http w @ [spend_request S ?user x]" for v
  proof (rule wp_commit_calm[OF E(1)])
    show "?C w'" if "holds s w'" "op_id s = op_id r" "op_user_id s = ?user" "op_key_hash s = op_key_hash r"
      "op_request_hash s = ?h" "op_status s = Event_Pending" "op_response s = Some resp" "op_event s = Some ev"
      "untouched v w'" "snapshot_at (?user, ?grp) (w_db w') = with_version p (version ?prev + 1)" for s w'
      using that v by (auto simp: charged_and_committed_def untouched_def nxt_def)
  qed (use r' v in \<open>simp_all add: holds_def\<close>)
  have generated: "wp (generate_and_commit_pull_with_retry S ?user ?k ?h token x)
      (\<lambda>y v. y = (resp, ev) \<and> ?C v) (\<lambda>_ _. False) v"
    if v: "w_db v = w_db w" "w_topic v = w_topic w" "w_http v = w_http w @ [spend_request S ?user x]" for v
    using wp_first_attempt[OF E(1), of ?user x v p resp ev ?k ?h token ?C 4] r' v commit
    by (simp add: generate_and_commit_pull_with_retry_def pity_commit_max_attempts_def eval_nat_numeral untouched_def
        del: commit_attempts.simps)
  obtain status body where http: "e_http (sv_env S) (w_clock w) = Http_Response status body" "is_success status"
    using E(2) unfolding spends_accepted_def by blast
  show ?thesis
    unfolding execute_claimed_pull_def wp_try
    by (rule wp_spend[OF E(1) http], rule wp_mono[OF generated]) (use wp_finish[OF E(1)] in auto)
qed

section \<open>A first request\<close>

text \<open>C6: a first request is answered. When nothing fails, the idempotency key is new and the pull can
  be computed from the pity that is stored, the request ends with the computed response after exactly
  one spend: the operation holds the response and the event and is "event_published", the pity has
  moved to its next version, and the event is the one new message on the topic.\<close>

theorem first_request_is_answered:
  assumes "calm (sv_env S)" "spends_accepted (sv_env S)" "wf_db (w_db w)"
    and "request_id_column (rc_request_id x) = Inr rid"
    and "sha256_text (idempotency_key_hash (sv_lib S) key)" "sha256_text h"
    and "\<And>r. r \<in> set (db_ops (w_db w)) \<Longrightarrow> op_user_id r \<noteq> user \<or> op_key_hash r \<noteq> idempotency_key_hash (sv_lib S) key"
    and "\<And>r. r \<in> set (db_ops (w_db w)) \<Longrightarrow> op_id r \<noteq> e_uuid4 (sv_env S) (w_clock w + 1)"
    and "generate_pull (sv_lib S) user x (snapshot_at (user, rc_pity_group_id x) (w_db w)) = Inr (p, response, ev)"
    and "storable (rc_pity_group_id x) p (version (snapshot_at (user, rc_pity_group_id x) (w_db w)) + 1)"
    and "re_event_id response \<notin> set (event_ids (db_ops (w_db w)))"
    and "claim_or_resume_pull S user key h x request_id w = (res, w')"
  shows "res = Inr response \<and>
    w_http w' = w_http w @ [spend_request S user x] \<and>
    w_topic w' = w_topic w @ [kafka_message_of (sv_kafka_topic S) ev] \<and>
    snapshot_at (user, rc_pity_group_id x) (w_db w') =
      with_version p (version (snapshot_at (user, rc_pity_group_id x) (w_db w)) + 1) \<and>
    (\<exists>r \<in> set (db_ops (w_db w')). op_user_id r = user \<and>
       op_key_hash r = idempotency_key_hash (sv_lib S) key \<and> op_request_hash r = h \<and>
       op_status r = Event_Published \<and> op_response r = Some response \<and> op_event r = Some ev)"
proof -
  let ?E = "sv_env S" and ?n = "w_clock w"
  let ?kh = "idempotency_key_hash (sv_lib S) key" and ?token = "e_uuid4 ?E ?n"
  let ?row = "new_op_row (e_uuid4 ?E (?n + 1)) user ?kh h ?token (e_now ?E ?n)
    (max 1 pull_processing_lease_seconds) x rid"
  let ?w = "w\<lparr>w_clock := ?n + 3, w_db := (w_db w)\<lparr>db_ops := db_ops (w_db w) @ [?row]\<rparr>\<rparr>"
  let ?nxt = "with_version p (version (snapshot_at (user, rc_pity_group_id x) (w_db w)) + 1)"
  have begun: "st_begin_pull_operation ?E (sv_lib S) user key h pull_processing_lease_seconds x w
      = (Inr (claim_of_row (Some ?token) ?row), ?w)"
    by (rule begin_new[OF assms(1,4-8)])
  have snap: "snapshot_at k (w_db ?w) = snapshot_at k (w_db w)" for k
    by (simp add: snapshot_at_def select_pity_sql_def)
  have "event_ids [?row] = []" by (simp add: event_ids_def map_filter_def new_op_row_def)
  moreover have "holds ?row ?w"
    using guaranteesD[OF st_quiet(2)[OF calm_lawful[OF assms(1)]] begun] assms(3)
    by (simp add: holds_def quiet_def store_steps_wf[of "w_db w"])
  ultimately have "ready S ?row ?token x p response ev ?w"
    unfolding ready_def Let_def snap using assms(9-11) by (simp add: new_op_row_def)
  from wp_execute_calm[OF assms(1,2) this, unfolded snap]
  have "wp (execute_claimed_pull S user (uuid_str (op_id ?row)) h ?token x)
      (\<lambda>y v. y = response \<and> answered S ?row x ?nxt response ev ?w v) (\<lambda>_ _. False) ?w"
    by (simp add: new_op_row_def)
  moreover have "execute_claimed_pull S user (uuid_str (op_id ?row)) h ?token x ?w = (res, w')"
    using assms(12) by (simp add: claim_or_resume_pull_def eff_defs begun claim_of_row_def operation_from_row_def
        new_op_row_def)
  ultimately show ?thesis
    by (auto simp: wp_def answered_def new_op_row_def split: sum.splits)
qed

definition unlucky_world :: world where
  "unlucky_world = \<lparr>w_db = \<lparr>db_pity = [\<lparr>pt_user_id = 2, pt_banner_id = ''b'', pt_pity_group_id = ''b'',
       pt_since_five = 89, pt_since_four = 0, pt_guaranteed_featured_five = False, pt_version = 4,
       pt_created_at = 0, pt_updated_at = 0\<rparr>], db_ops = []\<rparr>,
     w_topic = [], w_http = [], w_producer_started = False, w_clock = 0\<rparr>"

lemma unlucky_world_snapshot: "snapshot_at (2, ''b'') (w_db unlucky_world) = unlucky_pity"
  by (simp add: snapshot_at_def select_pity_sql_def unlucky_world_def at_pity_def snapshot_from_row_def
      unlucky_pity_def with_version_def)

lemma unlucky_pull:
  "\<exists>resp ev. generate_pull sample_lib 2 (lonely_context a) unlucky_pity =
     Inr (\<lparr>since_five = 0, since_four = 1, guaranteed_featured_five = False\<rparr>, resp, ev)"
proof -
  let ?p = "without_version unlucky_pity"
  have p: "since_five ?p = 89" "since_four ?p = 0" by (simp_all add: unlucky_pity_def without_with_version)
  have x: "rc_count (lonely_context a) = 1" by (simp add: lonely_context_def)
  show ?thesis
    using lonely_five[OF p, of "rc_seed (lonely_context a)"]
    by (auto simp: generate_pull_def lonely_thawed x Let_def pity_snapshot_valid_def unlucky_pity_def
        with_version_def without_version_def)
qed

lemma first_request_is_answered_witness:
  "\<exists>response w'. claim_or_resume_pull sample_services 2 ''k'' sample_hash (lonely_context None) [] unlucky_world
       = (Inr response, w') \<and>
     w_http w' = [spend_request sample_services 2 (lonely_context None)] \<and> length (w_topic w') = 1 \<and>
     version (snapshot_at (2, ''b'') (w_db w')) = 5"
proof -
  let ?p = "\<lparr>since_five = 0, since_four = 1, guaranteed_featured_five = False\<rparr> :: pity_state"
  have x: "rc_pity_group_id (lonely_context None) = ''b''" "rc_request_id (lonely_context None) = []"
    by (simp_all add: lonely_context_def)
  have sv: "calm (sv_env sample_services)" "spends_accepted (sv_env sample_services)" "sv_lib sample_services = sample_lib"
    by (simp_all add: sample_services_def calm_env_calm spends_accepted_def)
       (simp add: calm_env_def is_success_def)
  have wf: "wf_db (w_db unlucky_world)"
    by (simp add: unlucky_world_def wf_db_def event_ids_def map_filter_def pity_checks_def py_len_def)
  have v: "version unlucky_pity = 4" by (simp add: unlucky_pity_def with_version_def)
  obtain resp ev where pull: "generate_pull (sv_lib sample_services) 2 (lonely_context None)
      (snapshot_at (2, rc_pity_group_id (lonely_context None)) (w_db unlucky_world)) = Inr (?p, resp, ev)"
    using unlucky_pull unfolding x unlucky_world_snapshot sv(3) by blast
  obtain res w' where run: "claim_or_resume_pull sample_services 2 ''k'' sample_hash (lonely_context None) [] unlucky_world
      = (res, w')" by force
  have rid: "request_id_column (rc_request_id (lonely_context None)) = Inr None"
    by (simp add: x request_id_column_def)
  have hash: "sha256_text (idempotency_key_hash (sv_lib sample_services) ''k'')"
    using sample_sha_lawful unfolding sv(3) by (simp add: sha_lawful_def idempotency_key_hash_def)
  have st: "storable (rc_pity_group_id (lonely_context None)) ?p
      (version (snapshot_at (2, rc_pity_group_id (lonely_context None)) (w_db unlucky_world)) + 1)"
    unfolding x unlucky_world_snapshot v by (simp add: storable_def py_len_def)
  have empty: "db_ops (w_db unlucky_world) = []" by (simp add: unlucky_world_def)
  have "w_http unlucky_world = []" "w_topic unlucky_world = []" by (simp_all add: unlucky_world_def)
  with first_request_is_answered[OF sv(1,2) wf rid hash sample_hash_text _ _ pull st _ run] run
  show ?thesis
    unfolding x unlucky_world_snapshot v by (simp add: empty event_ids_def map_filter_def with_version_def)
qed

end
