(* ===== verification/Completion_Guarantees.thy ===== *)
theory Completion_Guarantees
  imports Answer_Guarantees
begin

text \<open>
  What the recovery worker completes: an expired processing claim, which a request left behind, is
  executed again to the same result under the same spend key, and a pending refund is paid.
  \<open>grows\<close> is a further instance of \<open>service_relation\<close>: the messages and the requests that were sent are
  never taken back.
\<close>

section \<open>Nothing that was sent is taken back\<close>

definition grows :: "world \<Rightarrow> world \<Rightarrow> bool" where
  "grows w w' \<longleftrightarrow> set (w_topic w) \<subseteq> set (w_topic w') \<and> set (w_http w) \<subseteq> set (w_http w')"

lemma preorder_grows: "preorder_rel grows"
  by (fastforce simp: preorder_rel_def grows_def intro!: reflpI transpI)

lemma grows_db_call: "guarantees grows (db_call E msg m)"
  by (auto simp: guarantees_def grows_def db_call_def Let_def tick_def split: db_outcome.splits prod.splits)

lemma grows_pass: "guarantees grows m \<Longrightarrow> guarantees grows (pass k m)"
  by (auto simp: guarantees_def grows_def pass_def split: prod.splits) (metis snd_conv subsetD)+

lemma grows_calls:
  "guarantees grows (svc_sleep E)" "guarantees grows (http_call E q)"
  "guarantees grows (ensure_started E)" "guarantees grows (send_and_wait E m)"
  by (auto simp: guarantees_def svc_sleep_def http_call_def ensure_started_def send_and_wait_def Let_def
      grows_def tick_def split: send_outcome.splits)

lemma grows_publish: "guarantees grows (publish_pull_completed E topic ev)"
  unfolding publish_pull_completed_def by (intro guarantees_then preorder_grows grows_calls)

lemma grows_post: "guarantees grows (post_entry E L c path user a key reason md rid)"
  unfolding post_entry_def Let_def
  by (auto intro!: guarantees_intros preorder_grows grows_calls split: http_outcome.splits prod.splits)

interpretation growing: service_relation S grows for S
proof
  show "guarantees grows (deliver_pull_event S rd response ev)" for rd response ev
    unfolding deliver_pull_event_def publish_pull_completed_with_retry_def has_pull_event_def st_save_by_key_def Let_def
    by (auto intro!: guarantees_intros preorder_grows grows_db_call grows_calls grows_publish guarantees_publish_attempts
        split: option.splits http_outcome.splits prod.splits)
  show "guarantees grows (st_begin_pull_operation (sv_env S) (sv_lib S) user key h lease x)" for user key h lease x
    unfolding st_begin_pull_operation_def by (intro grows_pass grows_db_call)
qed (auto simp: st_get_snapshot_def st_get_pull_operation_def st_get_pull_operation_by_key_def st_commit_def
    st_transition_def st_save_def st_save_by_key_def st_iter_event_pending_def st_iter_refund_pending_def
    st_iter_expired_processing_def st_claim_expired_processing_def st_claim_recovery_def st_release_recovery_def
    asset_credit_def asset_spend_def intro!: preorder_grows grows_db_call grows_calls grows_publish grows_post)

section \<open>An expired claim\<close>

text \<open>What the row becomes when the worker takes the claim over.\<close>

definition reclaimed :: "instant \<Rightarrow> uuid \<Rightarrow> int \<Rightarrow> op_row \<Rightarrow> op_row" where
  "reclaimed now token lease r =
     r\<lparr>op_processing_token := Some token, op_processing_lease_until := Some (now + seconds lease),
       op_updated_at := now\<rparr>"

lemma reclaimed_simps [simp]:
  "op_id (reclaimed now token lease r) = op_id r" "op_user_id (reclaimed now token lease r) = op_user_id r"
  "op_key_hash (reclaimed now token lease r) = op_key_hash r"
  "op_request_hash (reclaimed now token lease r) = op_request_hash r"
  "op_status (reclaimed now token lease r) = op_status r"
  "op_response (reclaimed now token lease r) = op_response r" "op_event (reclaimed now token lease r) = op_event r"
  "op_processing_token (reclaimed now token lease r) = Some token"
  "op_recovery_context (reclaimed now token lease r) = op_recovery_context r"
  by (simp_all add: reclaimed_def)

lemma reclaim_run:
  assumes wf: "wf_db db" and r: "r \<in> set (db_ops db)" "op_status r = Processing" "op_recovery_context r = Some x"
      "lease_expired now r"
  shows "\<exists>db'. claim_expired_processing_operation_sql now (op_id r) token lease db
      = (Inr [reclaimed now token lease r], db') \<and> wf_db db' \<and> reclaimed now token lease r \<in> set (db_ops db') \<and>
    db_pity db' = db_pity db \<and> event_ids (db_ops db') = event_ids (db_ops db)"
proof -
  let ?sel = "\<lambda>s. op_id s = op_id r \<and> op_status s = Processing \<and> op_recovery_context s \<noteq> None \<and> lease_expired now s"
  have upd: "protect_update r (reclaimed now token lease r)" "op_checks (reclaimed now token lease r)"
    using r wf by (auto simp: protect_update_def op_checks_def reclaimed_def wf_db_def)
  have keeps: "keeps_identity (reclaimed now token lease)"
    by (simp add: keeps_identity_def reclaimed_def)
  from update_row[OF wf r(1), of ?sel "reclaimed now token lease", OF _ _ upd _ keeps] r obtain db' where
    run: "update_ops ?sel (reclaimed now token lease) db = (Inr [reclaimed now token lease r], db')" "wf_db db'"
      "reclaimed now token lease r \<in> set (db_ops db')" "db_pity db' = db_pity db" by auto
  have ids: "event_ids (db_ops db') = event_ids (db_ops db)"
    using run(1)
  proof (cases rule: update_ops_cases)
    case ok
    show ?thesis unfolding ok(2) by (simp add: event_ids_map updated_def)
  qed simp_all
  then show ?thesis using run
    by (auto simp: claim_expired_processing_operation_sql_def reclaimed_def[abs_def])
qed

text \<open>The worker has taken the claim over and asks for the same execution.\<close>

lemma wp_reclaim:
  assumes E: "calm E" and r: "holds r w" "op_status r = Processing" "op_recovery_context r = Some x"
      "lease_expired (e_now E (w_clock w)) r"
    and Q: "\<And>s w'. s = reclaimed (e_now E (w_clock w)) (e_uuid4 E (w_clock w)) (max 1 lease) r \<Longrightarrow> holds s w' \<Longrightarrow>
      untouched w w' \<Longrightarrow> db_pity (w_db w') = db_pity (w_db w) \<Longrightarrow>
      event_ids (db_ops (w_db w')) = event_ids (db_ops (w_db w)) \<Longrightarrow>
      Q (Some \<lparr>rcl_operation_key = uuid_str (op_id r), rcl_user_id = op_user_id r,
           rcl_operation = operation_from_row s, rcl_processing_token = e_uuid4 E (w_clock w)\<rparr>) w'"
  shows "wp (st_claim_expired_processing E (uuid_str (op_id r)) lease) Q X w"
proof -
  let ?now = "e_now E (w_clock w)" and ?token = "e_uuid4 E (w_clock w)"
  let ?s = "reclaimed ?now ?token (max 1 lease) r"
  from r(1) have wf: "wf_db (w_db w)" "r \<in> set (db_ops (w_db w))" by (simp_all add: holds_def)
  from reclaim_run[OF wf r(2-4), of ?token "max 1 lease"] obtain db' where
    run: "claim_expired_processing_operation_sql ?now (op_id r) ?token (max 1 lease) (w_db w) = (Inr [?s], db')"
    and db': "wf_db db'" "?s \<in> set (db_ops db')" "db_pity db' = db_pity (w_db w)"
      "event_ids (db_ops db') = event_ids (db_ops (w_db w))" by blast
  have "Q (Some \<lparr>rcl_operation_key = uuid_str (op_id r), rcl_user_id = op_user_id r,
      rcl_operation = operation_from_row ?s, rcl_processing_token = ?token\<rparr>) (w\<lparr>w_clock := w_clock w + 1, w_db := db'\<rparr>)"
    by (rule Q[OF refl]) (use db' in \<open>simp_all add: holds_def untouched_def\<close>)
  then show ?thesis
    unfolding st_claim_expired_processing_def
    by (intro wp_calm_db[OF E])
       (simp add: wp_def claim_expired_processing_pull_operation_def eff_defs operation_id_of_def uuid_parse_str run)
qed

text \<open>The step for the claim of \<open>r\<close>, when the pull can be computed from the pity that is stored.\<close>

definition resumable ::
    "'g services \<Rightarrow> op_row \<Rightarrow> pull_recovery_context \<Rightarrow> pity_state \<Rightarrow> pull_response \<Rightarrow> pull_completed_event
     \<Rightarrow> database \<Rightarrow> bool" where
  "resumable S r x p resp ev db \<longleftrightarrow>
     (let prev = snapshot_at (op_user_id r, rc_pity_group_id x) db in
      op_recovery_context r = Some x \<and> op_response r = None \<and>
      generate_pull (sv_lib S) (op_user_id r) x prev = Inr (p, resp, ev) \<and>
      storable (rc_pity_group_id x) p (version prev + 1) \<and> re_event_id resp \<notin> set (event_ids (db_ops db)))"

lemma expired_step:
  assumes E: "calm (sv_env S)" "spends_accepted (sv_env S)"
    and r: "holds r w" "op_status r = Processing" "lease_expired (e_now (sv_env S) (w_clock w)) r"
      "resumable S r x p resp ev (w_db w)"
  defines "nxt \<equiv> with_version p (version (snapshot_at (op_user_id r, rc_pity_group_id x) (w_db w)) + 1)"
  shows "wp (recover_expired_step S lease (pending_record_from_row r))
    (\<lambda>b v. b \<and> (\<exists>s. op_user_id s = op_user_id r \<and> op_key_hash s = op_key_hash r \<and>
        op_request_hash s = op_request_hash r \<and> answered S s x nxt resp ev w v)) (\<lambda>_ _. False) w"
proof -
  let ?E = "sv_env S" and ?prev = "snapshot_at (op_user_id r, rc_pity_group_id x) (w_db w)"
  let ?s = "reclaimed (e_now ?E (w_clock w)) (e_uuid4 ?E (w_clock w)) (max 1 lease) r"
  note r' = r(4)[unfolded resumable_def Let_def]
  let ?G = "\<lambda>v. \<exists>s. op_user_id s = op_user_id r \<and> op_key_hash s = op_key_hash r \<and>
        op_request_hash s = op_request_hash r \<and> answered S s x nxt resp ev w v"
  have run: "wp (recovered (execute_claimed_pull S (op_user_id r) (uuid_str (op_id r)) (op_request_hash r)
      (e_uuid4 ?E (w_clock w)) x)) (\<lambda>b v. b \<and> ?G v) (\<lambda>_ _. False) v"
    if v: "holds ?s v" "untouched w v" "db_pity (w_db v) = db_pity (w_db w)"
      "event_ids (db_ops (w_db v)) = event_ids (db_ops (w_db w))" for v
  proof -
    have snap: "snapshot_at k (w_db v) = snapshot_at k (w_db w)" for k
      using v(3) by (simp add: snapshot_at_def select_pity_sql_def)
    have "ready S ?s (e_uuid4 ?E (w_clock w)) x p resp ev v"
      unfolding ready_def Let_def snap using r' r(2) v(1,4) by simp
    from wp_execute_calm[OF E this, unfolded snap]
    have "wp (execute_claimed_pull S (op_user_id r) (uuid_str (op_id r)) (op_request_hash r)
        (e_uuid4 ?E (w_clock w)) x) (\<lambda>y u. y = resp \<and> answered S ?s x nxt resp ev v u) (\<lambda>_ _. False) v"
      by (simp add: nxt_def)
    then show ?thesis
      by (intro wp_recovered) (erule wp_mono, use v(2) in \<open>auto simp: answered_def untouched_def intro!: exI[of _ ?s]\<close>)
  qed
  show ?thesis
    unfolding recover_expired_step_def on_store_error_value_def wp_simps record_of_row
    using r(2) r'
    by (auto simp: pending_record_from_row_def operation_from_row_def
        intro!: wp_reclaim[OF E(1) r(1,2) _ r(3)] run)
qed

section \<open>A pass over the expired claims\<close>

text \<open>The pull of \<open>r\<close> is committed, its event published and its spend sent.\<close>

definition completed ::
    "'g services \<Rightarrow> op_row \<Rightarrow> pull_recovery_context \<Rightarrow> pull_response \<Rightarrow> pull_completed_event \<Rightarrow> world \<Rightarrow> bool" where
  "completed S r x resp ev w \<longleftrightarrow>
     (\<exists>s \<in> set (db_ops (w_db w)). op_user_id s = op_user_id r \<and> op_key_hash s = op_key_hash r \<and>
        op_request_hash s = op_request_hash r \<and> op_status s \<in> {Event_Published, Succeeded} \<and>
        op_response s = Some resp \<and> op_event s = Some ev) \<and>
     kafka_message_of (sv_kafka_topic S) ev \<in> set (w_topic w) \<and>
     spend_request S (op_user_id r) x \<in> set (w_http w)"

lemma answered_completed:
  "answered S s x nxt resp ev w v \<Longrightarrow> op_user_id s = op_user_id r \<Longrightarrow> op_key_hash s = op_key_hash r \<Longrightarrow>
   op_request_hash s = op_request_hash r \<Longrightarrow> completed S r x resp ev v"
  by (auto simp: answered_def completed_def)

lemma completed_stays:
  assumes c: "completed S r x resp ev v" and "store_steps (w_db v) (w_db w)" "grows v w"
  shows "completed S r x resp ev w"
proof -
  from c obtain s where s: "s \<in> set (db_ops (w_db v))" "op_user_id s = op_user_id r" "op_key_hash s = op_key_hash r"
    "op_request_hash s = op_request_hash r" "op_status s \<in> {Event_Published, Succeeded}"
    "op_response s = Some resp" "op_event s = Some ev" by (auto simp: completed_def)
  from later_row[OF assms(2) s(1)] obtain u where u: "u \<in> set (db_ops (w_db w))" "row_le s u" by blast
  have "op_status u \<in> {Event_Published, Succeeded}"
    using u(2) s(5) by (cases "op_status u") (auto simp: row_le_def has_evidence_def)
  with u s c assms(3) show ?thesis
    unfolding completed_def grows_def by (auto simp: row_le_def has_evidence_def intro!: bexI[OF _ u(1)])
qed

lemma scan_head:
  assumes E: "calm (sv_env S)"
    and hit: "wp (step rd) (\<lambda>_. Q) (\<lambda>_ _. False) (w\<lparr>w_clock := w_clock w + 1\<rparr>)"
    and scan: "scan w = (Inr (rd # rds), w\<lparr>w_clock := w_clock w + 1\<rparr>)"
    and rest: "\<And>q. guarantees (advances S) (step q)" "\<And>q. guarantees grows (step q)"
    and total: "\<And>q. raises (\<lambda>_. False) (step q)"
    and stable: "\<And>v v'. Q v \<Longrightarrow> store_steps (w_db v) (w_db v') \<Longrightarrow> grows v v' \<Longrightarrow> Q v'"
  shows "wp (recover_scanned scan step) (\<lambda>_. Q) (\<lambda>_ _. False) w"
proof -
  have rest: "wp (recover_each step rds n) (\<lambda>_. Q) (\<lambda>_ _. False) v" if "Q v" for n v
  proof (rule wpI)
    fix k v' assume run: "recover_each step rds n v = (Inr k, v')"
    have "advances S v v'" by (rule guaranteesD[OF advancing.each[OF rest(1)] run])
    moreover have "grows v v'" by (rule guaranteesD[OF growing.each[OF rest(2)] run])
    ultimately show "Q v'" using stable[OF that] calm_lawful[OF E] by (simp add: advances_def)
  next
    fix e v' assume "recover_each step rds n v = (Inl e, v')"
    moreover have "raises (\<lambda>_. False) (recover_each step rds n)"
      by (induction rds arbitrary: n) (auto intro!: raises_bind raises_pure total)
    ultimately show False by (auto dest: raisesD)
  qed
  have "wp (recover_each step (rd # rds) 0) (\<lambda>_. Q) (\<lambda>_ _. False) (w\<lparr>w_clock := w_clock w + 1\<rparr>)"
    unfolding recover_each.simps wp_bind by (rule wp_mono[OF hit]) (simp_all add: rest)
  then show ?thesis
    unfolding recover_scanned_def on_store_error_value_def wp_bind wp_catch
    by (simp add: wp_def scan)
qed

text \<open>C7: an interrupted pull is completed. When nothing fails and the clock does not run backwards, one pass
  of the recovery worker executes the oldest expired claim again: the operation ends committed with
  the response computed from its recovery context and the stored pity, its event is on the topic, and
  the spend that was sent is the one a request would have sent, with the same idempotency key.\<close>

theorem oldest_expired_claim_is_completed:
  assumes "calm (sv_env S)" "spends_accepted (sv_env S)" "mono (e_now (sv_env S))" "wf_db (w_db w)"
    and "select_expired_processing_operations_sql (e_now (sv_env S) (w_clock w)) (max 1 limit) (w_db w) = r # rest"
    and "resumable S r x p response ev (w_db w)"
    and "recover_expired_processing_pulls_once S limit lease w = (res, w')"
  shows "(\<exists>s \<in> set (db_ops (w_db w')). op_user_id s = op_user_id r \<and> op_key_hash s = op_key_hash r \<and>
        op_request_hash s = op_request_hash r \<and> op_status s \<in> {Event_Published, Succeeded} \<and>
        op_response s = Some response \<and> op_event s = Some ev) \<and>
     kafka_message_of (sv_kafka_topic S) ev \<in> set (w_topic w') \<and>
     spend_request S (op_user_id r) x \<in> set (w_http w')"
proof -
  let ?E = "sv_env S" and ?w = "w\<lparr>w_clock := w_clock w + 1\<rparr>"
  from assms(5) have "r \<in> set (select_expired_processing_operations_sql (e_now ?E (w_clock w)) (max 1 limit) (w_db w))"
    by simp
  then have r: "r \<in> set (db_ops (w_db w))" "op_status r = Processing" "lease_expired (e_now ?E (w_clock w)) r"
    by (auto simp: select_expired_processing_operations_sql_def dest!: set_take_sort)
  have "e_now ?E (w_clock w) \<le> e_now ?E (w_clock w + 1)" by (rule monoD[OF assms(3)]) simp
  with r(3) have "lease_expired (e_now ?E (w_clock ?w)) r" by (auto simp: lease_expired_def split: option.splits)
  note expired = this
  have held: "holds r ?w" using r(1) assms(4) by (simp add: holds_def)
  have resume: "resumable S r x p response ev (w_db ?w)" using assms(6) by simp
  have step: "wp (recover_expired_step S lease (pending_record_from_row r))
      (\<lambda>_. completed S r x response ev) (\<lambda>_ _. False) ?w"
    by (rule wp_mono[OF expired_step[OF assms(1,2) held r(2) expired resume]]) (auto intro: answered_completed)
  have scan: "st_iter_expired_processing ?E limit w = (Inr (pending_record_from_row r # map pending_record_from_row rest), ?w)"
    using assms(1,5)
    by (simp add: st_iter_expired_processing_def db_call_def Let_def tick_def calm_def db_query_def
        iter_expired_processing_pull_operations_def)
  have "wp (recover_expired_processing_pulls_once S limit lease) (\<lambda>_. completed S r x response ev) (\<lambda>_ _. False) w"
    unfolding recover_expired_processing_pulls_once_def
    by (rule scan_head[where step = "recover_expired_step S lease" and w = w and rd = "pending_record_from_row r"
          and rds = "map pending_record_from_row rest" and scan = "st_iter_expired_processing ?E limit",
          OF assms(1) step scan])
       (simp_all add: advancing.steps growing.steps raises_steps completed_stays)
  with assms(7) show ?thesis by (auto simp: wp_def completed_def split: sum.splits)
qed

text \<open>An interrupted pull: charged or not, the request that held the claim is gone.\<close>

definition interrupted_row :: op_row where
  "interrupted_row = (new_op_row 1 2 sample_hash sample_hash 9 0 1 (lonely_context None) None)
     \<lparr>op_processing_lease_until := Some (- 1)\<rparr>"

definition interrupted_world :: world where
  "interrupted_world = unlucky_world\<lparr>w_db := (w_db unlucky_world)\<lparr>db_ops := [interrupted_row]\<rparr>\<rparr>"

lemma interrupted_world_snapshot: "snapshot_at (2, ''b'') (w_db interrupted_world) = unlucky_pity"
  using unlucky_world_snapshot by (simp add: snapshot_at_def select_pity_sql_def interrupted_world_def)

lemma interrupted_row_simps [simp]:
  "op_user_id interrupted_row = 2" "op_key_hash interrupted_row = sample_hash" "op_status interrupted_row = Processing"
  "op_response interrupted_row = None" "op_recovery_context interrupted_row = Some (lonely_context None)"
  "op_processing_lease_until interrupted_row = Some (- 1)"
  by (simp_all add: interrupted_row_def new_op_row_def)

lemma interrupted_world_wf: "wf_db (w_db interrupted_world)"
  using sample_hash_text
  by (simp add: interrupted_world_def unlucky_world_def wf_db_def event_ids_def map_filter_def pity_checks_def py_len_def
      interrupted_row_def new_op_row_def op_checks_def)

lemma oldest_expired_claim_is_completed_witness:
  "\<exists>s \<in> set (db_ops (w_db (snd (recover_expired_processing_pulls_once sample_services 10 30 interrupted_world)))).
     op_user_id s = 2 \<and> op_key_hash s = sample_hash \<and> op_status s \<in> {Event_Published, Succeeded}"
proof -
  let ?w = interrupted_world and ?x = "lonely_context None"
  let ?p = "\<lparr>since_five = 0, since_four = 1, guaranteed_featured_five = False\<rparr> :: pity_state"
  have x: "rc_pity_group_id ?x = ''b''" by (simp add: lonely_context_def)
  have sv: "calm (sv_env sample_services)" "spends_accepted (sv_env sample_services)" "mono (e_now (sv_env sample_services))"
      "sv_lib sample_services = sample_lib" "e_now (sv_env sample_services) 0 = 0"
    by (simp_all add: sample_services_def calm_env_calm spends_accepted_def)
       (simp_all add: calm_env_def is_success_def mono_def)
  obtain resp ev where "generate_pull sample_lib 2 ?x unlucky_pity = Inr (?p, resp, ev)" using unlucky_pull by blast
  then have resume: "resumable sample_services interrupted_row ?x ?p resp ev (w_db ?w)"
    unfolding resumable_def Let_def interrupted_row_simps x interrupted_world_snapshot sv(4)
    by (simp add: storable_def py_len_def unlucky_pity_def with_version_def interrupted_world_def event_ids_def map_filter_def)
  have scan: "select_expired_processing_operations_sql (e_now (sv_env sample_services) (w_clock ?w)) (max 1 10) (w_db ?w) =
      interrupted_row # []"
    by (simp add: select_expired_processing_operations_sql_def interrupted_world_def unlucky_world_def lease_expired_def sv(5))
  obtain res w' where run: "recover_expired_processing_pulls_once sample_services 10 30 ?w = (res, w')" by force
  from oldest_expired_claim_is_completed[OF sv(1-3) interrupted_world_wf scan resume run] run
  show ?thesis by auto
qed

section \<open>A pending refund\<close>

definition refund_request :: "'g services \<Rightarrow> uuid \<Rightarrow> pull_recovery_context \<Rightarrow> string \<Rightarrow> http_request" where
  "refund_request S user x code =
     asset_request (sv_asset_client S) ''/v1/me/credits'' user (rc_amount_minor x)
       (refund_idempotency_key (uuid_str (rc_event_id x))) ''gacha_pull_refund''
       (AList.update ''refund_reason'' (JStr code) (context_metadata x)) (rc_request_id x)"

lemma wp_save_failed:
  assumes E: "calm E" and r: "holds r w" "op_status r = Refund_Pending" "op_response r = None" "op_event r = None"
    and short: "py_len code \<le> 100" "py_len message \<le> 1000"
    and Q: "\<And>s w'. holds s w' \<Longrightarrow> same_pull r s \<Longrightarrow> op_status s = Failed \<Longrightarrow> op_recovery_locked_until s = None \<Longrightarrow>
      untouched w w' \<Longrightarrow> Q () w'"
  shows "wp (st_save_by_key E (uuid_str (op_id r)) (failed_operation (op_request_hash r) code message)) Q X w"
proof -
  let ?now = "e_now E (w_clock w)" and ?po = "failed_operation (op_request_hash r) code message"
  let ?upd = "\<lambda>r. release_claim ?now (with_operation ?po r)\<lparr>op_recovery_locked_until := None\<rparr>"
  have wf: "wf_db (w_db w)" "r \<in> set (db_ops (w_db w))" using r(1) by (simp_all add: holds_def)
  have "protect_update r (?upd r)" "op_checks (?upd r)"
    using r(2) holds_checks[OF r(1)] short
    by (auto simp: protect_update_def with_operation_def release_claim_def failed_operation_def op_checks_def)
  from update_row[OF wf, of "\<lambda>s. op_id s = op_id r" ?upd, OF _ _ this] r(3) obtain db' where run:
      "update_pull_operation_sql ?now (op_id r) ?po (w_db w) = (Inr [?upd r], db')"
      "wf_db db'" "?upd r \<in> set (db_ops db')"
    by (auto simp: update_pull_operation_sql_def with_operation_def release_claim_def failed_operation_def
        keeps_identity_def)
  have "Q () (w\<lparr>w_clock := w_clock w + 1, w_db := db'\<rparr>)"
    by (rule Q[of "?upd r"])
       (use run(2,3) r(3,4) in \<open>simp_all add: holds_def same_pull_def untouched_def with_operation_def release_claim_def
          failed_operation_def\<close>)
  with run(1) show ?thesis
    unfolding st_save_by_key_def
    by (intro wp_calm_db[OF E])
       (simp add: wp_def save_pull_operation_by_key_def eff_defs operation_id_of_def uuid_parse_str)
qed

lemma wp_refund:
  assumes E: "calm (sv_env S)" "spends_accepted (sv_env S)"
    and r: "holds r w" "op_status r = Refund_Pending" "op_response r = None" "op_event r = None"
    and short: "py_len code \<le> 100" "py_len message \<le> 1000"
  shows "wp (refund_claimed_spend S (op_user_id r) (uuid_str (op_id r)) (op_request_hash r) x (context_metadata x)
      code message)
    (\<lambda>_ v. settled S r Failed v \<and> refund_request S (op_user_id r) x code \<in> set (w_http v)) (\<lambda>_ _. False) w"
proof -
  obtain status body where http: "e_http (sv_env S) (w_clock w) = Http_Response status body" "is_success status"
    using E(2) unfolding spends_accepted_def by blast
  let ?w = "(tick (sv_env S) w)\<lparr>w_http := w_http w @ [refund_request S (op_user_id r) x code]\<rparr>"
  have credit: "asset_credit (sv_env S) (sv_lib S) (sv_asset_client S) (op_user_id r) (rc_amount_minor x)
      (refund_idempotency_key (uuid_str (rc_event_id x))) ''gacha_pull_refund''
      (AList.update ''refund_reason'' (JStr code) (context_metadata x)) (rc_request_id x) w = (Inr (), ?w)"
    by (simp add: asset_credit_def post_entry_run http refund_request_def)
  have "holds r ?w" using r(1) E(1) by (simp add: holds_def tick_def calm_def)
  then have "wp (st_save_by_key (sv_env S) (uuid_str (op_id r)) (failed_operation (op_request_hash r) code message))
    (\<lambda>_ v. settled S r Failed v \<and> refund_request S (op_user_id r) x code \<in> set (w_http v)) (\<lambda>_ _. False) ?w"
    by (rule wp_save_failed[OF E(1) _ r(2-4) short]) (auto simp: settled_def untouched_def)
  then show ?thesis
    unfolding refund_claimed_spend_def wp_simps by (simp add: wp_def credit)
qed

lemma spares_refund:
  assumes E: "calm (sv_env S)" and q: "op_id q \<noteq> oid"
  shows "guarantees (spares oid) (recover_refund_step S ttl (pending_record_from_row q))"
proof -
  have http: "guarantees (spares oid) (http_call (sv_env S) m)" for m
    using E by (auto simp: guarantees_def spares_def spares_db_def http_call_def tick_def calm_def)
  have "guarantees (spares oid) (refund_claimed_spend S user (uuid_str (op_id q)) h x md c m)" for user h x md c m
    unfolding refund_claimed_spend_def asset_credit_def post_entry_def on_refund_error_def Let_def
    by (auto intro!: guarantees_intros spares_save E q http split: exn.splits http_outcome.splits prod.splits)
  then show ?thesis
    unfolding recover_refund_step_def Let_def record_of_row
    by (auto intro!: guarantees_intros spares_locked E q split: option.splits)
qed

lemma refund_step:
  assumes E: "calm (sv_env S)" "spends_accepted (sv_env S)"
    and r: "holds r w" "op_status r = Refund_Pending" "op_response r = None" "op_event r = None"
      "op_recovery_locked_until r = None" "op_recovery_context r = Some x"
  shows "wp (recover_refund_step S ttl (pending_record_from_row r))
    (\<lambda>_ v. settled S r Failed v \<and>
       refund_request S (op_user_id r) x (str_or (op_error_code r) ''pull_refunded'') \<in> set (w_http v)) (\<lambda>_ _. False) w"
proof -
  let ?code = "str_or (op_error_code r) ''pull_refunded''" and ?message = "str_or (op_error_message r) ''pull was refunded''"
  let ?P = "\<lambda>v. refund_request S (op_user_id r) x ?code \<in> set (w_http v)"
  have short: "py_len ?code \<le> 100" "py_len ?message \<le> 1000"
    using holds_checks[OF r(1)] by (auto simp: op_checks_def str_or_def py_len_def split: option.splits)
  have "wp (with_recovery_lock S ttl (pending_record_from_row r) Refund_Pending
      (refund_claimed_spend S (op_user_id r) (uuid_str (op_id r)) (op_request_hash r) x (context_metadata x) ?code ?message))
      (\<lambda>b v. b \<and> settled S r Failed v \<and> ?P v) (\<lambda>_ _. False) w"
  proof (rule wp_locked_step[OF E(1) r(1,2) _ r(5)])
    fix s w' assume s: "holds s w'" "same_pull r s" "op_status s = Refund_Pending" "untouched w w'"
    have same: "op_id s = op_id r" "op_user_id s = op_user_id r" "op_request_hash s = op_request_hash r"
      "op_response s = None" "op_event s = None" using s(2) r(3,4) by (simp_all add: same_pull_def)
    from wp_refund[OF E s(1,3) same(4,5) short, of x]
    show "wp (refund_claimed_spend S (op_user_id r) (uuid_str (op_id r)) (op_request_hash r) x (context_metadata x)
        ?code ?message) (\<lambda>_ v. settled S r Failed v \<and> ?P v) (\<lambda>_ _. False) w'"
      unfolding same by (rule wp_mono) (use s(2) in \<open>auto simp: settled_def intro: same_pull_trans\<close>)
  qed (auto simp: delivery_status_def untouched_def)
  then show ?thesis
    unfolding recover_refund_step_def Let_def record_of_row
    by (simp add: pending_record_from_row_def operation_from_row_def r(2,6)) (erule wp_mono, simp_all)
qed

text \<open>C25: a pending refund is paid. When nothing fails, one pass of the recovery worker sends the credit of every
  unlocked "refund_pending" operation its scan selects, under the refund key of its event and for the
  amount that was spent, and marks the operation "failed".\<close>

theorem pending_refund_is_paid:
  assumes "calm (sv_env S)" "spends_accepted (sv_env S)" "wf_db (w_db w)"
    and "r \<in> set (select_refund_pending_operations_sql (max 1 limit) (w_db w))"
    and "op_response r = None" "op_event r = None" "op_recovery_locked_until r = None" "op_recovery_context r = Some x"
    and "recover_pending_pull_refunds_once S limit ttl w = (res, w')"
  shows "refund_request S (op_user_id r) x (str_or (op_error_code r) ''pull_refunded'') \<in> set (w_http w') \<and>
    (\<exists>s \<in> set (db_ops (w_db w')). same_pull r s \<and> op_status s = Failed)"
proof -
  let ?Q = "\<lambda>v. settled S r Failed v \<and>
    refund_request S (op_user_id r) x (str_or (op_error_code r) ''pull_refunded'') \<in> set (w_http v)"
  have status: "op_status r = Refund_Pending"
    using assms(4) by (auto simp: select_refund_pending_operations_sql_def dest!: set_take_sort)
  have "wp (recover_pending_pull_refunds_once S limit ttl) (\<lambda>_. ?Q) (\<lambda>_ _. False) w"
    unfolding recover_pending_pull_refunds_once_def
  proof (rule scan_delivers[where r = r and Q = ?Q and rows = "select_refund_pending_operations_sql (max 1 limit) (w_db w)",
        OF assms(1,3)])
    show "st_iter_refund_pending (sv_env S) limit w =
        (Inr (map pending_record_from_row (select_refund_pending_operations_sql (max 1 limit) (w_db w))),
         w\<lparr>w_clock := w_clock w + 1\<rparr>)"
      using assms(1) by (simp add: st_iter_refund_pending_def db_call_def Let_def tick_def calm_def db_query_def
          iter_refund_pending_pull_operations_def)
    show "wp (recover_refund_step S ttl (pending_record_from_row r)) (\<lambda>_. ?Q) (\<lambda>_ _. False) v" if "holds r v" for v
      by (rule refund_step[OF assms(1,2) that status assms(5-8)])
    show "?Q v'" if "?Q v" "spares (op_id r) v v'" for v v'
      using that settled_spares[of S r Failed v v'] by (auto simp: spares_def)
  qed (use assms(4) selected_rows[OF assms(3)] in
      \<open>auto simp: select_refund_pending_operations_sql_def spares_refund[OF assms(1)] raises_steps\<close>)
  with assms(9) show ?thesis by (auto simp: wp_def settled_def holds_def split: sum.splits)
qed

definition refundable_row :: op_row where
  "refundable_row = interrupted_row\<lparr>op_status := Refund_Pending, op_error_code := Some ''pull_failed''\<rparr>"

definition refundable_world :: world where
  "refundable_world = unlucky_world\<lparr>w_db := (w_db unlucky_world)\<lparr>db_ops := [refundable_row]\<rparr>\<rparr>"

lemma refundable_world_wf: "wf_db (w_db refundable_world)"
  using interrupted_world_wf
  by (simp add: interrupted_world_def refundable_world_def unlucky_world_def wf_db_def event_ids_def map_filter_def
      refundable_row_def op_checks_def py_len_def)

lemma pending_refund_is_paid_witness:
  "refund_request sample_services 2 (lonely_context None) ''pull_failed''
     \<in> set (w_http (snd (recover_pending_pull_refunds_once sample_services 10 30 refundable_world)))"
proof -
  have sv: "calm (sv_env sample_services)" "spends_accepted (sv_env sample_services)"
    by (simp_all add: sample_services_def calm_env_calm spends_accepted_def)
       (simp add: calm_env_def is_success_def)
  have scan: "refundable_row \<in> set (select_refund_pending_operations_sql (max 1 10) (w_db refundable_world))"
    by (simp add: select_refund_pending_operations_sql_def refundable_world_def refundable_row_def)
  obtain res w' where run: "recover_pending_pull_refunds_once sample_services 10 30 refundable_world = (res, w')" by force
  have row: "op_response refundable_row = None" "op_event refundable_row = None"
    "op_recovery_locked_until refundable_row = None" "op_recovery_context refundable_row = Some (lonely_context None)"
    "op_user_id refundable_row = 2" "op_error_code refundable_row = Some ''pull_failed''"
    by (simp_all add: refundable_row_def interrupted_row_def new_op_row_def)
  from pending_refund_is_paid[OF sv refundable_world_wf scan row(1-4) run] show ?thesis
    by (simp add: run row str_or_def)
qed

end
