(* ===== verification/Spend_Guarantees.thy ===== *)
theory Spend_Guarantees
  imports Completion_Guarantees
begin

text \<open>
  Over every run of requests and recovery iterations an operation has one charge: whatever is retried,
  taken over or interrupted, all spends the asset service sees for it are the same request. The lemmas
  rest on \<open>steady\<close>: an operation that has left "processing" never returns to it, and the recovery
  context of a processing operation is never replaced.
\<close>

section \<open>A processing operation keeps its recovery context\<close>

definition steady_row :: "op_row \<Rightarrow> op_row \<Rightarrow> bool" where
  "steady_row r r' \<longleftrightarrow> op_id r' = op_id r \<and> op_user_id r' = op_user_id r \<and>
     (op_status r' = Processing \<longrightarrow> op_status r = Processing \<and>
       (\<forall>x. op_recovery_context r = Some x \<longrightarrow> op_recovery_context r' = Some x))"

definition steady :: "database \<Rightarrow> database \<Rightarrow> bool" where
  "steady db db' \<longleftrightarrow> (\<forall>r \<in> set (db_ops db). \<exists>r' \<in> set (db_ops db'). steady_row r r')"

lemma steady_row_refl [simp]: "steady_row r r"
  by (simp add: steady_row_def)

lemma steady_row_trans: "steady_row r s \<Longrightarrow> steady_row s t \<Longrightarrow> steady_row r t"
  by (auto simp: steady_row_def)

lemma same_operations_steady: "db_ops db' = db_ops db \<Longrightarrow> steady db db'"
  by (auto simp: steady_def intro: steady_row_refl)

lemma steady_trans: "steady a b \<Longrightarrow> steady b c \<Longrightarrow> steady a c"
  unfolding steady_def by (meson steady_row_trans)

lemma preorder_steady: "preorder_rel steady"
  unfolding preorder_rel_def
  by (blast intro: reflpI transpI same_operations_steady[OF refl] steady_trans)

lemma update_steady:
  assumes "\<And>r. sel r \<Longrightarrow> steady_row r (upd r)"
  shows "guarantees steady (update_ops sel upd)"
proof (rule guaranteesI)
  fix db res db'
  assume "update_ops sel upd db = (res, db')"
  then show "steady db db'"
  proof (cases rule: update_ops_cases)
    case ok
    have "steady_row r (updated sel upd r)" for r by (simp add: updated_def assms)
    then show ?thesis by (auto simp: steady_def ok(2))
  qed (simp add: same_operations_steady)
qed

interpretation operations: store_relation steady "\<lambda>po. po_status po \<noteq> Processing"
proof
  show "guarantees steady (insert_pull_operation_sql (new_op_row oid user kh h token now lease ctx rid))"
    for oid user kh h token now lease ctx rid
    by (auto simp: guarantees_def insert_pull_operation_sql_def steady_def intro: steady_row_refl)
qed (auto simp: preorder_steady same_operations_steady claim_processing_operation_sql_def
    claim_expired_processing_operation_sql_def claim_pending_operation_sql_def release_pending_operation_sql_def
    update_pull_operation_sql_def transition_processing_operation_sql_def save_pull_operation_sql_def
    release_claim_def with_operation_def steady_row_def intro!: update_steady)

section \<open>Every handler is steady\<close>

text \<open>Other sessions are other instances of the program: they issue its statements and are steady.\<close>

definition disciplined_env :: "env \<Rightarrow> bool" where
  "disciplined_env E \<longleftrightarrow> lawful_env E \<and> (\<forall>n db. steady db (e_others E n db))"

definition steadies :: "'g services \<Rightarrow> world \<Rightarrow> world \<Rightarrow> bool" where
  "steadies S w w' \<longleftrightarrow> (disciplined_env (sv_env S) \<longrightarrow> steady (w_db w) (w_db w'))"

lemma preorder_steadies: "preorder_rel (steadies S)"
  unfolding preorder_rel_def steadies_def
  by (blast intro: reflpI transpI same_operations_steady[OF refl] steady_trans)

lemma steadies_db_call:
  assumes "\<And>n. disciplined_env (sv_env S) \<Longrightarrow> guarantees steady (m n)"
  shows "guarantees (steadies S) (db_call (sv_env S) msg m)"
proof (rule guaranteesI)
  fix w r w'
  assume c: "db_call (sv_env S) msg m w = (r, w')"
  show "steadies S w w'"
    unfolding steadies_def
  proof
    assume E: "disciplined_env (sv_env S)"
    let ?d = "e_others (sv_env S) (w_clock w) (w_db w)"
    obtain x d where x: "m (w_clock w) ?d = (x, d)" by force
    have others: "steady (w_db w) ?d" using E by (simp add: disciplined_env_def)
    have "steady (w_db w) d" by (rule steady_trans[OF others guaranteesD[OF assms[OF E] x]])
    moreover have "w_db w' = d \<or> w_db w' = ?d"
      using c x by (auto simp: db_call_def Let_def tick_def split: db_outcome.splits)
    ultimately show "steady (w_db w) (w_db w')" using others by metis
  qed
qed

lemma steadies_pass: "guarantees (steadies S) m \<Longrightarrow> guarantees (steadies S) (pass k m)"
  by (rule guaranteesI) (auto simp: steadies_def dest!: pass_result dest: guaranteesD)

lemma steadies_calls:
  "guarantees (steadies S) (svc_sleep (sv_env S))" "guarantees (steadies S) (http_call (sv_env S) q)"
  "guarantees (steadies S) (ensure_started (sv_env S))" "guarantees (steadies S) (send_and_wait (sv_env S) m)"
  by (auto simp: guarantees_def steadies_def svc_sleep_def http_call_def ensure_started_def send_and_wait_def
      Let_def tick_def disciplined_env_def same_operations_steady split: send_outcome.splits)

lemma steadies_publish: "guarantees (steadies S) (publish_pull_completed (sv_env S) topic ev)"
  unfolding publish_pull_completed_def by (intro guarantees_then preorder_steadies steadies_calls)

lemma steadies_post: "guarantees (steadies S) (post_entry (sv_env S) L c path user a key reason md rid)"
  unfolding post_entry_def Let_def
  by (auto intro!: guarantees_intros preorder_steadies steadies_calls split: http_outcome.splits prod.splits)

lemma steadies_delivery: "guarantees (steadies S) (deliver_pull_event S rd response ev)"
  unfolding deliver_pull_event_def publish_pull_completed_with_retry_def has_pull_event_def st_save_by_key_def Let_def
  by (auto intro!: guarantees_intros preorder_steadies steadies_db_call steadies_calls steadies_publish
      guarantees_publish_attempts operations.methods simp: operation_with_def
      split: option.splits http_outcome.splits prod.splits)

interpretation steadying: service_relation S "steadies S" for S
proof
  show "guarantees (steadies S) (deliver_pull_event S rd response ev)" for rd response ev
    by (rule steadies_delivery)
  show "guarantees (steadies S) (st_begin_pull_operation (sv_env S) (sv_lib S) user key h lease x)"
    for user key h lease x
    unfolding st_begin_pull_operation_def
    by (intro steadies_pass steadies_db_call operations.begins) (simp_all add: disciplined_env_def)
qed (auto simp: st_defs asset_credit_def asset_spend_def intro!: preorder_steadies steadies_calls steadies_publish
    steadies_post steadies_db_call operations.methods)

section \<open>Handlers that send no spend\<close>

definition is_spend :: "'g services \<Rightarrow> http_request \<Rightarrow> bool" where
  "is_spend S q \<longleftrightarrow> hq_method q = ''POST'' \<and> hq_url q = sc_base_url (sv_asset_client S) @ ''/v1/me/spends''"

abbreviation no_spend :: "'g services \<Rightarrow> world \<Rightarrow> world \<Rightarrow> bool" where
  "no_spend S \<equiv> sends_only (\<lambda>q. \<not> is_spend S q)"

lemma no_spend_pass: "guarantees (no_spend S) m \<Longrightarrow> guarantees (no_spend S) (pass k m)"
  by (auto simp: guarantees_def sends_only_def pass_def split: prod.splits) (metis snd_conv)+

lemma no_spend_credit:
  "guarantees (no_spend S) (asset_credit E L (sv_asset_client S) user a key reason md rid)"
  unfolding asset_credit_def by (rule sends_post) (simp add: is_spend_def asset_request_def)

lemma no_spend_get: "guarantees (no_spend S) (has_pull_event E L c user i)"
proof -
  have "guarantees (no_spend S) (http_call E (get_request url hs))" for url hs
    by (simp add: guarantees_def sends_only_def http_call_def get_request_def is_spend_def tick_def)
  then show ?thesis
    unfolding has_pull_event_def Let_def
    by (auto intro!: guarantees_intros split: http_outcome.splits prod.splits)
qed

lemma no_spend_delivery: "guarantees (no_spend S) (deliver_pull_event S rd response ev)"
  unfolding deliver_pull_event_def publish_pull_completed_with_retry_def st_save_by_key_def Let_def
  by (auto intro!: guarantees_intros no_spend_get guarantees_publish_attempts split: option.splits)

interpretation unbilled: service_calls S "no_spend S" for S
  by unfold_locales
    (auto simp: st_defs intro!: sends_primitives no_spend_pass no_spend_credit no_spend_delivery)

section \<open>The bill of an operation\<close>

text \<open>A request that is the spend of a row, as far as the row still tells.\<close>

definition owes :: "'g services \<Rightarrow> op_row \<Rightarrow> http_request \<Rightarrow> bool" where
  "owes S r q \<longleftrightarrow> (\<exists>x. q = spend_request S (op_user_id r) x \<and>
     (op_status r = Processing \<longrightarrow> op_recovery_context r = Some x))"

lemma steady_owes: "steady_row r r' \<Longrightarrow> owes S r q \<Longrightarrow> owes S r' q"
  by (auto simp: steady_row_def owes_def)

text \<open>\<open>charge\<close> gives the one spend request of an operation, if one was sent.\<close>

definition bill :: "'g services \<Rightarrow> (uuid \<Rightarrow> http_request option) \<Rightarrow> world \<Rightarrow> bool" where
  "bill S charge w \<longleftrightarrow>
     (\<forall>i q. charge i = Some q \<longrightarrow> (\<exists>r \<in> set (db_ops (w_db w)). op_id r = i \<and> owes S r q)) \<and>
     {q \<in> set (w_http w). is_spend S q} \<subseteq> ran charge"

definition billed :: "'g services \<Rightarrow> world \<Rightarrow> bool" where
  "billed S w \<longleftrightarrow> (\<exists>charge. bill S charge w)"

definition bills :: "'g services \<Rightarrow> world \<Rightarrow> world \<Rightarrow> bool" where
  "bills S w w' \<longleftrightarrow> (disciplined_env (sv_env S) \<longrightarrow> wf_db (w_db w) \<longrightarrow>
     wf_db (w_db w') \<and> (billed S w \<longrightarrow> billed S w'))"

lemma preorder_bills: "preorder_rel (bills S)"
  unfolding preorder_rel_def bills_def by (auto intro!: reflpI transpI)

lemma bill_steady:
  assumes "bill S charge v" "steady (w_db v) (w_db w)" "{q \<in> set (w_http w). is_spend S q} \<subseteq> ran charge"
  shows "bill S charge w"
  using assms unfolding bill_def steady_def by (metis steady_owes steady_row_def)

lemma calm_bills:
  assumes "guarantees (advances S) m" "guarantees (steadies S) m" "guarantees (no_spend S) m"
  shows "guarantees (bills S) m"
proof (rule guaranteesI)
  fix w r w' assume run: "m w = (r, w')"
  note steps = assms(1)[THEN guaranteesD, OF run] assms(2)[THEN guaranteesD, OF run] assms(3)[THEN guaranteesD, OF run]
  show "bills S w w'"
    unfolding bills_def
  proof (intro impI conjI)
    assume E: "disciplined_env (sv_env S)" and wf: "wf_db (w_db w)"
    from E steps(1) have "store_steps (w_db w) (w_db w')" by (simp add: advances_def disciplined_env_def)
    with wf show "wf_db (w_db w')" by (simp add: store_steps_wf)
    have steady: "steady (w_db w) (w_db w')" using E steps(2) by (simp add: steadies_def)
    assume "billed S w"
    then obtain charge where charge: "bill S charge w" by (auto simp: billed_def)
    have "{q \<in> set (w_http w'). is_spend S q} \<subseteq> ran charge"
      using steps(3) charge by (auto simp: sends_only_def list_all_iff bill_def)
    then show "billed S w'" using bill_steady[OF charge steady] by (auto simp: billed_def)
  qed
qed

text \<open>The spend of a claim: a second one for the same operation is the request that was sent before.\<close>

lemma spend_bills:
  assumes r: "r \<in> set (db_ops (w_db v))" "op_status r = Processing" "op_recovery_context r = Some x"
    and u: "w_db u = e_others (sv_env S) (w_clock v) (w_db v)"
      "w_http u = w_http v @ [spend_request S (op_user_id r) x]"
  shows "bills S v u"
  unfolding bills_def
proof (intro impI conjI)
  assume E: "disciplined_env (sv_env S)" and wf: "wf_db (w_db v)"
  show "wf_db (w_db u)" using E store_steps_wf[OF _ wf] by (simp add: u disciplined_env_def lawful_env_def)
  have steady: "steady (w_db v) (w_db u)" using E by (simp add: u disciplined_env_def)
  assume "billed S v"
  then obtain charge where charge: "bill S charge v" by (auto simp: billed_def)
  let ?q = "spend_request S (op_user_id r) x"
  have one: "s = r" if "s \<in> set (db_ops (w_db v))" "op_id s = op_id r" for s
    using wf that r(1) by (auto simp: wf_db_def distinct_map dest: inj_onD)
  have same: "q = ?q" if "charge (op_id r) = Some q" for q
    using charge that one r(2,3) by (force simp: bill_def owes_def)
  have old: "ran charge \<subseteq> ran (charge(op_id r \<mapsto> ?q))"
    using same by (auto simp: ran_def) (metis (full_types))
  have "bill S (charge(op_id r \<mapsto> ?q)) (v\<lparr>w_http := w_http u\<rparr>)"
    unfolding bill_def
  proof (intro conjI allI impI)
    fix i q assume "(charge(op_id r \<mapsto> ?q)) i = Some q"
    then show "\<exists>r \<in> set (db_ops (w_db (v\<lparr>w_http := w_http u\<rparr>))). op_id r = i \<and> owes S r q"
      using charge r by (auto simp: bill_def owes_def split: if_splits)
  next
    show "{q \<in> set (w_http (v\<lparr>w_http := w_http u\<rparr>)). is_spend S q} \<subseteq> ran (charge(op_id r \<mapsto> ?q))"
      using charge old ranI[of "charge(op_id r \<mapsto> ?q)" "op_id r" ?q] by (auto simp: bill_def u(2))
  qed
  then have "bill S (charge(op_id r \<mapsto> ?q)) u"
    by (rule bill_steady) (use steady \<open>bill S _ (v\<lparr>w_http := w_http u\<rparr>)\<close> in \<open>simp_all add: bill_def\<close>)
  then show "billed S u" by (auto simp: billed_def)
qed

lemma execute_bills:
  assumes r: "r \<in> set (db_ops (w_db v))" "op_status r = Processing" "op_recovery_context r = Some x"
    and run: "execute_claimed_pull S (op_user_id r) k h token x v = (res, w')"
  shows "bills S v w'"
proof -
  obtain a u where spend: "asset_spend (sv_env S) (sv_lib S) (sv_asset_client S) (op_user_id r) (rc_amount_minor x)
      (spend_idempotency_key (uuid_str (rc_event_id x))) ''gacha_pull'' (context_metadata x) (rc_request_id x) v = (a, u)"
    by force
  then have u: "w_db u = e_others (sv_env S) (w_clock v) (w_db v)"
    "w_http u = w_http v @ [spend_request S (op_user_id r) x]"
    by (auto simp: asset_spend_def post_entry_run spend_request_def tick_def)
  have failed: "guarantees (bills S) (on_spend_error S (op_user_id r) k h token e)" for e
    by (intro calm_bills advancing.spend_error steadying.spend_error unbilled.spend_error)
  have paid: "guarantees (bills S) (eff_try (generate_and_commit_pull_with_retry S (op_user_id r) k h token x)
      (on_commit_error S (op_user_id r) k h x) (\<lambda>(response, ev). publish_and_complete_claimed_pull S k h response ev))"
    unfolding generate_and_commit_pull_with_retry_def
    by (auto intro!: guarantees_try preorder_bills preorder_advances preorder_steadies calm_bills advancing.commit_loop steadying.commit_loop
        unbilled.commit_loop advancing.commit_error steadying.commit_error unbilled.commit_error
        advancing.publish_and_complete steadying.publish_and_complete unbilled.publish_and_complete)
  have "bills S u w'"
    using run spend guaranteesD[OF failed] guaranteesD[OF paid]
    by (cases a) (simp_all add: execute_claimed_pull_def eff_try_def[of "asset_spend _ _ _ _ _ _ _ _ _"])
  with spend_bills[OF r u] show ?thesis by (rule preorder_relD(2)[OF preorder_bills])
qed

section \<open>Every run\<close>

lemma begin_context:
  assumes "begin_pull_operation L (t1, t2) (o1, o2) (oid, token) user key h lease ctx db = (Inr cl, db')"
    and "cl_processing_token cl = Some t"
  shows "\<exists>r \<in> set (db_ops db'). op_user_id r = user \<and> op_status r = Processing \<and>
    op_recovery_context r \<noteq> None \<and> po_recovery_context (cl_operation cl) = op_recovery_context r"
  using assms(1)
proof (cases rule: begin_cases)
  case (created rid)
  then show ?thesis by (simp add: claim_of_row_def operation_from_row_def new_op_row_def)
next
  case (taken s r)
  then show ?thesis
    by (intro bexI[of _ r]) (auto simp: claim_of_row_def operation_from_row_def split: option.splits)
next
  case (found r)
  with assms(2) show ?thesis by (simp add: claim_of_row_def)
qed

lemma bills_claim: "guarantees (bills S) (claim_or_resume_pull S user key h x rid)"
proof (rule guaranteesI)
  fix w res w'
  assume run: "claim_or_resume_pull S user key h x rid w = (res, w')"
  let ?begun = "eff_catch (st_begin_pull_operation (sv_env S) (sv_lib S) user key h pull_processing_lease_seconds x)
    (on_store_error (state_store_http_exception ''pull idempotency is unavailable''))"
  obtain b v where b: "?begun w = (b, v)" by force
  have "guarantees (bills S) (st_begin_pull_operation (sv_env S) (sv_lib S) user key h pull_processing_lease_seconds x)"
    by (intro calm_bills advancing.begin_operation steadying.begin_operation unbilled.begin_operation)
  then have "guarantees (bills S) ?begun"
    by (auto intro!: guarantees_intros preorder_bills simp: on_store_error_def split: exn.splits)
  with b have wv: "bills S w v" by (blast dest: guaranteesD)
  have existing: "guarantees (bills S) (handle_existing_pull_operation S po user key h ev a rid md)" for po ev a md
    by (intro calm_bills advancing.handle_existing steadying.handle_existing unbilled.handle_existing)
  show "bills S w w'"
  proof (cases b)
    case (Inl e)
    with run b wv show ?thesis by (simp add: claim_or_resume_pull_def eff_bind_def)
  next
    case (Inr cl)
    show ?thesis
    proof (cases "cl_processing_token cl")
      case None
      with run b Inr guaranteesD[OF existing] have "bills S v w'"
        by (simp add: claim_or_resume_pull_def eff_bind_def Let_def)
      with wv show ?thesis by (rule preorder_relD(2)[OF preorder_bills])
    next
      case (Some t)
      have "st_begin_pull_operation (sv_env S) (sv_lib S) user key h pull_processing_lease_seconds x w = (Inr cl, v)"
        using b Inr by (auto simp: eff_catch_def on_store_error_def eff_raise_def split: prod.splits sum.splits exn.splits)
      then obtain d n where "begin_pull_operation (sv_lib S) (e_now (sv_env S) n, e_now (sv_env S) (n + 1))
          (e_others (sv_env S) (n + 1), e_others (sv_env S) (n + 2)) (e_uuid4 (sv_env S) (n + 1), e_uuid4 (sv_env S) n)
          user key h pull_processing_lease_seconds x d = (Inr cl, w_db v)"
        by (auto simp: st_begin_pull_operation_def pass_def db_call_def Let_def tick_def
            split: prod.splits db_outcome.splits)
      from begin_context[OF this Some] obtain r y where r: "r \<in> set (db_ops (w_db v))" "op_user_id r = user"
          "op_status r = Processing" "op_recovery_context r = Some y" "po_recovery_context (cl_operation cl) = Some y"
        by auto
      with run b Inr Some have "execute_claimed_pull S (op_user_id r) (cl_operation_key cl) h t y v = (res, w')"
        by (simp add: claim_or_resume_pull_def eff_bind_def Let_def)
      from execute_bills[OF r(1,3,4) this] wv show ?thesis by (blast intro: preorder_relD(2)[OF preorder_bills])
    qed
  qed
qed

lemma claim_expired_context:
  assumes "claim_expired_processing_pull_operation now token key lease db = (Inr (Some cl), db')"
  shows "\<exists>r \<in> set (db_ops db'). op_user_id r = rcl_user_id cl \<and> op_status r = Processing \<and>
    rcl_operation cl = operation_from_row r"
proof -
  from assms obtain oid where oid: "operation_id_of key = Inr oid"
    by (auto simp: claim_expired_processing_pull_operation_def eff_defs split: sum.splits)
  obtain out d where out: "claim_expired_processing_operation_sql now oid token (max 1 lease) db = (out, d)" by force
  with assms oid obtain r rows where r: "out = Inr (r # rows)" "d = db'" "rcl_user_id cl = op_user_id r"
    "rcl_operation cl = operation_from_row r"
    by (cases out) (auto simp: claim_expired_processing_pull_operation_def eff_defs split: list.splits)
  note c = out[unfolded r(1,2)] r(3,4)
  from c(1)[unfolded claim_expired_processing_operation_sql_def] show ?thesis
  proof (cases rule: update_ops_cases)
    case ok
    let ?sel = "\<lambda>r. op_id r = oid \<and> op_status r = Processing \<and> op_recovery_context r \<noteq> None \<and> lease_expired now r"
    let ?upd = "\<lambda>r. r\<lparr>op_processing_token := Some token,
      op_processing_lease_until := Some (now + seconds (max 1 lease)), op_updated_at := now\<rparr>"
    have "r # rows = map ?upd (filter ?sel (db_ops db))" using ok(1) by (rule sum.inject(2)[THEN iffD1])
    then have "r \<in> set (map ?upd (filter ?sel (db_ops db)))" by (rule subst[where P = "\<lambda>l. r \<in> set l"]) simp
    then obtain s where s: "s \<in> set (filter ?sel (db_ops db))" "r = ?upd s" by auto
    then have "r = updated ?sel ?upd s" "s \<in> set (db_ops db)" by (simp_all add: updated_def)
    then have "r \<in> updated ?sel ?upd ` set (db_ops db)" by (rule image_eqI)
    then have "r \<in> set (db_ops db')" by (simp add: ok(2))
    moreover have "op_status r = Processing" using s by simp
    ultimately show ?thesis using c(2,3) by (intro bexI[of _ r]) simp_all
  qed simp
qed

lemma bills_expired_step: "guarantees (bills S) (recover_expired_step S lease record)"
proof (rule guaranteesI)
  fix w res w'
  assume run: "recover_expired_step S lease record w = (res, w')"
  let ?claim = "st_claim_expired_processing (sv_env S) (or_operation_key record) lease"
  obtain b v where b: "on_store_error_value None ?claim w = (b, v)" by force
  have "guarantees (bills S) (on_store_error_value None ?claim)"
    by (intro calm_bills advancing.valued steadying.valued unbilled.valued advancing.claims steadying.claims unbilled.claims)
  with b have wv: "bills S w v" by (blast dest: guaranteesD)
  show "bills S w w'"
  proof (cases "\<exists>cl x. b = Inr (Some cl) \<and> po_recovery_context (rcl_operation cl) = Some x \<and>
      po_status (or_operation record) = Processing \<and> po_recovery_context (or_operation record) \<noteq> None")
    case False
    then have "w' = w \<or> w' = v"
      using run b by (auto simp: recover_expired_step_def eff_bind_def eff_return_def split: sum.splits option.splits if_splits)
    with wv show ?thesis using preorder_relD(1)[OF preorder_bills] by auto
  next
    case True
    then obtain cl x where cl: "b = Inr (Some cl)" "po_recovery_context (rcl_operation cl) = Some x"
      "po_status (or_operation record) = Processing" "po_recovery_context (or_operation record) \<noteq> None" by blast
    then have "?claim w = (Inr (Some cl), v)"
      using b by (auto simp: on_store_error_value_def eff_catch_def eff_return_def eff_raise_def
          split: prod.splits sum.splits exn.splits)
    then obtain n m t d where "claim_expired_processing_pull_operation m t (or_operation_key record) n d
        = (Inr (Some cl), w_db v)"
      by (auto simp: st_claim_expired_processing_def db_call_def Let_def split: prod.splits db_outcome.splits)
    from claim_expired_context[OF this] cl(2) obtain r where r: "r \<in> set (db_ops (w_db v))" "op_status r = Processing"
        "op_recovery_context r = Some x" "op_user_id r = rcl_user_id cl"
      by (auto simp: operation_from_row_def)
    obtain e u where u: "execute_claimed_pull S (op_user_id r) (rcl_operation_key cl) (po_request_hash (rcl_operation cl))
        (rcl_processing_token cl) x v = (e, u)" by force
    with run b cl r(4) have "w' = u"
      by (auto simp: recover_expired_step_def recovered_def eff_bind_def eff_catch_def eff_then_def eff_return_def
          split: sum.splits)
    with execute_bills[OF r(1-3) u] wv show ?thesis by (blast intro: preorder_relD(2)[OF preorder_bills])
  qed
qed

text \<open>The other calls send no spend and are steady.\<close>

interpretation billing: service_flow S "bills S" for S
proof
  show "guarantees (bills S) (claim_or_resume_pull S user key h x rid)" for user key h x rid by (rule bills_claim)
  show "guarantees (bills S) (recover_expired_step S lease rd)" for lease rd by (rule bills_expired_step)
qed (auto intro: preorder_bills calm_bills advancing.primitives steadying.primitives unbilled.primitives
    advancing.commit steadying.commit unbilled.commit advancing.transition steadying.transition unbilled.transition
    advancing.save steadying.save unbilled.save advancing.save_by_key steadying.save_by_key unbilled.save_by_key)

text \<open>Every handler keeps the discipline it expects of the other sessions, so other instances of the
  program satisfy \<open>disciplined_env\<close>.\<close>

lemma runs_are_steady:
  "(service_step S)\<^sup>*\<^sup>* w w' \<Longrightarrow> disciplined_env (sv_env S) \<Longrightarrow> steady (w_db w) (w_db w')"
  using steadying.runs[of S w w'] by (simp add: steadies_def)

text \<open>C5: an operation is charged once. In every run of requests and recovery iterations, with any
  failures, retries and takeovers, and next to other instances of the program, there is one spend
  request per operation: every spend that was sent to the asset service is the one of some stored
  operation, in the name of its user, with the amount and the idempotency key of one recovery context.\<close>

theorem operations_are_charged_once:
  assumes "(service_step S)\<^sup>*\<^sup>* w w'" "disciplined_env (sv_env S)" "wf_db (w_db w)"
    and "\<forall>q \<in> set (w_http w). \<not> is_spend S q"
  shows "\<exists>charge. \<forall>q \<in> set (w_http w'). is_spend S q \<longrightarrow>
     (\<exists>r \<in> set (db_ops (w_db w')). charge (op_id r) = q \<and> (\<exists>x. q = spend_request S (op_user_id r) x))"
proof -
  have "bill S (\<lambda>_. None) w" using assms(4) by (auto simp: bill_def)
  then have "billed S w" by (auto simp: billed_def)
  then have "billed S w'" using billing.runs[OF assms(1)] assms(2,3) by (simp add: bills_def)
  then obtain charge where charge: "bill S charge w'" by (auto simp: billed_def)
  have "\<exists>r \<in> set (db_ops (w_db w')). the (charge (op_id r)) = q \<and> (\<exists>x. q = spend_request S (op_user_id r) x)"
    if "q \<in> set (w_http w')" "is_spend S q" for q
  proof -
    from that charge obtain i where i: "charge i = Some q" by (auto simp: bill_def ran_def)
    with charge obtain r where "r \<in> set (db_ops (w_db w'))" "op_id r = i" "owes S r q" by (auto simp: bill_def)
    with i show ?thesis by (intro bexI[of _ r]) (auto simp: owes_def)
  qed
  then show ?thesis by (intro exI[of _ "the \<circ> charge"]) simp
qed

text \<open>An interrupted pull that two passes of the worker find.\<close>

lemma operations_are_charged_once_witness:
  "\<exists>charge. \<forall>q \<in> set (w_http (snd (recovery_pass sample_services 50 60 (snd (recovery_pass sample_services 50 60
      interrupted_world))))). is_spend sample_services q \<longrightarrow>
     (\<exists>r \<in> set (db_ops (w_db (snd (recovery_pass sample_services 50 60 (snd (recovery_pass sample_services 50 60
      interrupted_world)))))). charge (op_id r) = q \<and> (\<exists>x. q = spend_request sample_services (op_user_id r) x))"
proof -
  have run: "(service_step sample_services)\<^sup>*\<^sup>* interrupted_world
      (snd (recovery_pass sample_services 50 60 (snd (recovery_pass sample_services 50 60 interrupted_world))))"
    by (rule rtranclp.intros(2)[OF r_into_rtranclp]; rule step_recovery)
  have "disciplined_env (sv_env sample_services)"
    by (simp add: disciplined_env_def sample_services_lawful)
       (simp add: sample_services_def calm_env_def same_operations_steady)
  then show ?thesis
    by (rule operations_are_charged_once[OF run _ interrupted_world_wf])
       (simp add: interrupted_world_def unlucky_world_def)
qed

end
