(* ===== verification/Type_Guarantees.thy ===== *)
theory Type_Guarantees
  imports Answer_Guarantees Audit_Guarantees
begin

text \<open>
  The values a computed pull consists of have the types the schemas and the columns declare: the
  theorem a commit relies on when it writes the counters to integer columns.
\<close>

lemma pulled_growth:
  "pulled c p rec q \<Longrightarrow> pity_state_valid p \<Longrightarrow>
   since_five q \<le> since_five p + 1 \<and> since_four q \<le> since_four p + 1"
  by (auto elim!: pulledE simp: pity_state_valid_def split: if_splits)

lemma pulled_record:
  "pulled c p rec q \<Longrightarrow> pity_state_valid p \<Longrightarrow> pr_rarity rec \<in> {3, 4, 5} \<and> 1 \<le> pr_pity_at_five rec \<and>
     1 \<le> pr_pity_at_four rec \<and> pity_state_valid q"
  by (auto elim!: pulledE simp: pity_state_valid_def record_counters_def split: if_splits)

lemma pull_run_growth:
  assumes "pull_run c p recs q" "pity_state_valid p"
  shows "since_five q \<le> since_five p + int (length recs) \<and> since_four q \<le> since_four p + int (length recs)"
  using assms
proof (induction rule: pull_run.induct)
  case (run_cons p rec p1 recs p2)
  with pulled_growth[OF run_cons.hyps(1)] pulled_record[OF run_cons.hyps(1)] show ?case by force
qed simp

lemma pull_run_records:
  assumes "pull_run c p recs q" "pity_state_valid p"
  shows "\<forall>rec \<in> set recs. pr_rarity rec \<in> {3, 4, 5} \<and> 1 \<le> pr_pity_at_five rec \<and> 1 \<le> pr_pity_at_four rec"
  using assms
proof (induction rule: pull_run.induct)
  case (run_cons p rec p1 recs p2)
  with pulled_record[OF run_cons.hyps(1)] show ?case by force
qed simp

lemma perform_pulls_length: "perform_pulls L c n p seed = Inr (recs, q) \<Longrightarrow> length recs = nat n"
  by (auto simp: perform_pulls_def dest: pulls_from_length split: sum.splits prod.splits)

text \<open>C14: a pull does not go wrong. From a well-formed configuration that the recovery context accepts and a
  stored snapshot whose counters are a batch away from the bounds of their columns, the pull is
  computed, and every value it consists of has its declared type: the requested number of records,
  each with a rarity of three to five and positive counters; the snapshots before and after, the
  second valid and the next version of the first, in response and event alike; identifiers that parse
  to the context's; and a new pity that fits the columns it is committed to.\<close>

theorem generated_pull_is_typed:
  assumes "wf_banner_config c" "filed_config c" "rng_lawful L"
    and "from_banner_config c count seed event_id amount request_id accepted audit = Inr x"
    and "pity_snapshot_valid prev" "version prev + 1 < 2 ^ 63"
    and "since_five prev + count < 2 ^ 31" "since_four prev + count < 2 ^ 31"
  shows "\<exists>p response ev. generate_pull L user x prev = Inr (p, response, ev) \<and>
    int (length (re_records response)) = count \<and>
    (\<forall>rec. rec \<in> set (re_records response) \<longrightarrow>
       pr_rarity rec \<in> {3, 4, 5} \<and> 1 \<le> pr_pity_at_five rec \<and> 1 \<le> pr_pity_at_four rec) \<and>
    re_previous_pity response = prev \<and> re_next_pity response = with_version p (version prev + 1) \<and>
    pity_snapshot_valid (re_next_pity response) \<and> re_state_version response = version prev + 1 \<and>
    uuid_parse (re_event_id response) = uuid_parse event_id \<and> uuid_parse (ev_user_id ev) = Some user \<and>
    ev_event_id ev = re_event_id response \<and> ev_records ev = re_records response \<and>
    ev_previous_pity ev = re_previous_pity response \<and> ev_next_pity ev = re_next_pity response \<and>
    storable (rc_pity_group_id x) p (version prev + 1)"
proof -
  have x: "recovery_context_valid x" "rc_count x = count" "uuid_parse event_id = Some (rc_event_id x)"
    using assms(4) by (auto simp: from_banner_config_def Let_def split: option.splits if_splits)
  have same: "perform_pulls L (to_banner_config x) = perform_pulls L c"
    by (rule config_equiv_perform_pulls[OF from_banner_config_equiv[OF assms(2,4)]])
  obtain recs p where pull: "perform_pulls L c count (without_version prev) (rc_seed x) = Inr (recs, p)"
    using perform_pulls_total[OF assms(1,3)] by metis
  note run = perform_pulls_run[OF assms(1) pull]
  have start: "pity_state_valid (without_version prev)"
    using assms(5) by (simp add: pity_state_valid_def pity_snapshot_valid_def without_version_def)
  have n: "int (length recs) = count"
    using perform_pulls_length[OF pull] x(1,2) by (auto simp: recovery_context_valid_def)
  have valid: "pity_state_valid p" by (rule pull_run_nonneg[OF run start])
  let ?next = "with_version p (version prev + 1)"
  have next_valid: "pity_snapshot_valid ?next"
    using valid assms(5) by (simp add: pity_state_valid_def pity_snapshot_valid_def with_version_def)
  have "since_five p < 2 ^ 31" "since_four p < 2 ^ 31"
    using pull_run_growth[OF run start] n assms(7,8) by (simp_all add: without_version_def)
  then have "storable (rc_pity_group_id x) p (version prev + 1)"
    using valid x(1) assms(5,6)
    by (auto simp: storable_def pity_state_valid_def pity_snapshot_valid_def recovery_context_valid_def)
  moreover have "generate_pull L user x prev =
      Inr (p, pull_response_of x recs prev ?next, pull_event_of user x recs prev ?next)"
    using pull next_valid by (simp add: generate_pull_def same x(2) Let_def)
  moreover have "version ?next = version prev + 1" by (simp add: with_version_def)
  ultimately show ?thesis
    using n pull_run_records[OF run start] next_valid x(3)
    by (simp add: pull_response_of_def pull_event_of_def uuid_parse_str)
qed

lemma generated_pull_is_typed_witness:
  "\<exists>x p response ev. from_banner_config (static_config limited_banner) 10 ''seed'' (uuid_str 7) 100 [] None None = Inr x \<and>
     generate_pull sample_lib 2 x (with_version create_initial_pity 0) = Inr (p, response, ev) \<and>
     length (re_records response) = 10"
proof -
  obtain x where x: "from_banner_config (static_config limited_banner) 10 ''seed'' (uuid_str 7) 100 [] None None = Inr x"
    using limited_context by metis
  have prev: "pity_snapshot_valid (with_version create_initial_pity 0)"
    "version (with_version create_initial_pity 0) = 0" "since_five create_initial_pity = 0"
    "since_four create_initial_pity = 0"
    by (simp_all add: pity_snapshot_valid_def with_version_def create_initial_pity_def)
  show ?thesis
    using generated_pull_is_typed[OF limited_wf static_filed sample_lib_lawful x prev(1), of 2] x by (auto simp: prev)
qed

end
