(* ===== verification/Connections.thy ===== *)
theory Connections
  imports Gacha_Effects Settings
begin

text \<open>
  The connections the adapters hold: the pool of \<open>PostgresGachaStateStore\<close>, the pool of
  \<open>PostgresCatalogRepository\<close> and the producer of \<open>KafkaEventPublisher\<close>. Each is opened by the first
  call that needs it and kept until \<open>close\<close>. A call runs without a switch up to its first \<open>await\<close>
  (\<open>..._enter\<close>), waits for the driver, and goes on from there without a switch (\<open>..._connect\<close>);
  the whole method is the one after the other. The locale \<open>lazy_connection\<close> is what the three
  adapters share. Its first lemmas are about calls that follow each other, the others about calls
  that overlap, as the event loop allows.
\<close>

section \<open>The drivers\<close>

text \<open>\<open>driver\<close> is what asyncpg and aiokafka do: whether the package is there, whether the \<open>n\<close>th
  connection attempt succeeds, and whether closing a connection succeeds. An attempt that fails is taken
  to leave nothing open: no adapter cleans up after one, not even the Kafka publisher, which drops a
  producer whose \<open>start()\<close> raised without stopping it.\<close>

record driver =
  dr_installed :: bool
  dr_connects :: "nat \<Rightarrow> bool"
  dr_closes :: "nat \<Rightarrow> bool"

datatype endpoint =
    Postgres_Pool (dsn: string) (max_size: int) (command_timeout: int) (application_name: string)
  | Kafka_Producer (bootstrap_servers: string) (client_id: string)

record connections =
  cx_attempts :: nat
  cx_open :: "(nat \<times> endpoint) list"

definition open_connection :: "driver \<Rightarrow> endpoint \<Rightarrow> (connections, nat) eff" where
  "open_connection D ep x =
     (let n = cx_attempts x in
      if dr_connects D n
      then (Inr n, \<lparr>cx_attempts = Suc n, cx_open = (n, ep) # cx_open x\<rparr>)
      else (Inl (OtherException ''OSError''), x\<lparr>cx_attempts := Suc n\<rparr>))"

definition close_connection :: "driver \<Rightarrow> nat \<Rightarrow> (connections, unit) eff" where
  "close_connection D h x =
     (if dr_closes D h then (Inr (), x\<lparr>cx_open := filter (\<lambda>c. fst c \<noteq> h) (cx_open x)\<rparr>)
      else (Inl (OtherException ''TimeoutError''), x))"

section \<open>Shared steps\<close>

text \<open>\<open>self._handle = await open()\<close>, and \<open>if self._handle is not None: await close; self._handle = None\<close>.\<close>

definition lazy_connect ::
    "(connections, nat) eff \<Rightarrow> (nat \<Rightarrow> 'a \<Rightarrow> 'a) \<Rightarrow> ('a \<times> connections, nat) eff" where
  "lazy_connect opened assign s =
     (case s of (a, x) \<Rightarrow> (case opened x of
        (Inl e, x') \<Rightarrow> (Inl e, (a, x'))
      | (Inr h, x') \<Rightarrow> (Inr h, (assign h a, x'))))"

definition lazy_close ::
    "driver \<Rightarrow> ('a \<Rightarrow> nat option) \<Rightarrow> ('a \<Rightarrow> 'a) \<Rightarrow> ('a \<times> connections, unit) eff" where
  "lazy_close D held clear s =
     (case s of (a, x) \<Rightarrow> (case held a of
        None \<Rightarrow> (Inr (), (a, x))
      | Some h \<Rightarrow> (case close_connection D h x of
            (Inl e, x') \<Rightarrow> (Inl e, (a, x'))
          | (Inr _, x') \<Rightarrow> (Inr (), (clear a, x')))))"

text \<open>A whole call: what it does before the \<open>await\<close>, and the rest when it has to wait.\<close>

definition ensured ::
    "('a \<Rightarrow> nat result option) \<Rightarrow> ('a \<times> connections, nat) eff \<Rightarrow> ('a \<times> connections, nat) eff" where
  "ensured enter connect s = (case enter (fst s) of Some r \<Rightarrow> (r, s) | None \<Rightarrow> connect s)"

section \<open>The state store\<close>

record pg_store =
  pst_database_url :: string
  pst_pool_size :: int
  pst_query_timeout_seconds :: int
  pst_pool :: "nat option"

definition pg_store_init :: "string \<Rightarrow> int \<Rightarrow> int \<Rightarrow> pg_store" where
  "pg_store_init database_url pool_size query_timeout_seconds =
     \<lparr>pst_database_url = py_strip database_url, pst_pool_size = max 1 pool_size,
      pst_query_timeout_seconds = max 1 query_timeout_seconds, pst_pool = None\<rparr>"

definition pg_store_enter :: "pg_store \<Rightarrow> nat result option" where
  "pg_store_enter s =
     (case pst_pool s of
        Some h \<Rightarrow> Some (Inr h)
      | None \<Rightarrow>
          (if pst_database_url s = []
           then Some (Inl (GachaStateStoreError ''GACHA_STATE_DATABASE_URL is required''))
           else None))"

definition pg_store_connect :: "driver \<Rightarrow> (pg_store \<times> connections, nat) eff" where
  "pg_store_connect D s =
     lazy_connect
       (eff_map_error (\<lambda>_. GachaStateStoreError ''connect to gacha state database failed'')
         (if dr_installed D
          then open_connection D (Postgres_Pool (pst_database_url (fst s)) (pst_pool_size (fst s))
                 (pst_query_timeout_seconds (fst s)) ''gacha-engine-state'')
          else eff_raise (OtherException ''ImportError'')))
       (\<lambda>h a. a\<lparr>pst_pool := Some h\<rparr>) s"

definition pg_store_ensure_pool :: "driver \<Rightarrow> (pg_store \<times> connections, nat) eff" where
  "pg_store_ensure_pool D = ensured pg_store_enter (pg_store_connect D)"

definition pg_store_close :: "driver \<Rightarrow> (pg_store \<times> connections, unit) eff" where
  "pg_store_close D = lazy_close D pst_pool (\<lambda>a. a\<lparr>pst_pool := None\<rparr>)"

section \<open>The catalog repository\<close>

record pg_catalog =
  pcr_database_url :: string
  pcr_project_id :: string
  pcr_environment_id :: string
  pcr_pool_size :: int
  pcr_query_timeout_seconds :: int
  pcr_pool :: "nat option"

definition pg_catalog_init :: "string \<Rightarrow> string \<Rightarrow> string \<Rightarrow> int \<Rightarrow> int \<Rightarrow> pg_catalog" where
  "pg_catalog_init database_url project_id environment_id pool_size query_timeout_seconds =
     \<lparr>pcr_database_url = database_url, pcr_project_id = project_id,
      pcr_environment_id = environment_id, pcr_pool_size = max 1 pool_size,
      pcr_query_timeout_seconds = max 1 query_timeout_seconds, pcr_pool = None\<rparr>"

definition pg_catalog_enter :: "driver \<Rightarrow> pg_catalog \<Rightarrow> nat result option" where
  "pg_catalog_enter D s =
     (case pcr_pool s of
        Some h \<Rightarrow> Some (Inr h)
      | None \<Rightarrow>
          (if dr_installed D then None
           else Some (Inl (CatalogLoadError ''asyncpg is required for postgres-backed catalog loading''))))"

definition pg_catalog_connect :: "driver \<Rightarrow> (pg_catalog \<times> connections, nat) eff" where
  "pg_catalog_connect D s =
     lazy_connect
       (eff_map_error (\<lambda>_. CatalogLoadError ''connect to gacha config database failed'')
         (open_connection D (Postgres_Pool (pcr_database_url (fst s)) (pcr_pool_size (fst s))
            (pcr_query_timeout_seconds (fst s)) ''gacha-engine-service'')))
       (\<lambda>h a. a\<lparr>pcr_pool := Some h\<rparr>) s"

definition pg_catalog_ensure_pool :: "driver \<Rightarrow> (pg_catalog \<times> connections, nat) eff" where
  "pg_catalog_ensure_pool D = ensured (pg_catalog_enter D) (pg_catalog_connect D)"

definition pg_catalog_close :: "driver \<Rightarrow> (pg_catalog \<times> connections, unit) eff" where
  "pg_catalog_close D = lazy_close D pcr_pool (\<lambda>a. a\<lparr>pcr_pool := None\<rparr>)"

section \<open>The Kafka publisher\<close>

record kafka_publisher =
  kp_bootstrap_servers :: string
  kp_topic :: string
  kp_client_id :: string
  kp_producer :: "nat option"

definition kafka_publisher_init :: "string \<Rightarrow> string \<Rightarrow> string \<Rightarrow> kafka_publisher" where
  "kafka_publisher_init servers topic client =
     \<lparr>kp_bootstrap_servers = servers, kp_topic = topic, kp_client_id = client, kp_producer = None\<rparr>"

definition kafka_enter :: "kafka_publisher \<Rightarrow> nat result option" where
  "kafka_enter p = map_option Inr (kp_producer p)"

definition kafka_connect :: "driver \<Rightarrow> (kafka_publisher \<times> connections, nat) eff" where
  "kafka_connect D s =
     lazy_connect
       (eff_map_error (\<lambda>_. EventPublishError ''kafka is unavailable'')
         (open_connection D (Kafka_Producer (kp_bootstrap_servers (fst s)) (kp_client_id (fst s)))))
       (\<lambda>h a. a\<lparr>kp_producer := Some h\<rparr>) s"

definition kafka_ensure_started :: "driver \<Rightarrow> (kafka_publisher \<times> connections, nat) eff" where
  "kafka_ensure_started D = ensured kafka_enter (kafka_connect D)"

definition kafka_ping :: "driver \<Rightarrow> (kafka_publisher \<times> connections, unit) eff" where
  "kafka_ping D = eff_then (kafka_ensure_started D) (eff_return ())"

definition kafka_close :: "driver \<Rightarrow> (kafka_publisher \<times> connections, unit) eff" where
  "kafka_close D = lazy_close D kp_producer (\<lambda>a. a\<lparr>kp_producer := None\<rparr>)"

section \<open>What the adapters share\<close>

text \<open>Calls one after the other.\<close>

datatype adapter_call = Ensure_Call | Close_Call

fun run_calls ::
    "('s, nat) eff \<Rightarrow> ('s, unit) eff \<Rightarrow> adapter_call list \<Rightarrow> 's \<Rightarrow> 's" where
  "run_calls ensure close [] s = s"
| "run_calls ensure close (Ensure_Call # cs) s = run_calls ensure close cs (snd (ensure s))"
| "run_calls ensure close (Close_Call # cs) s = run_calls ensure close cs (snd (close s))"

text \<open>The open connections are exactly the one the adapter holds.\<close>

definition tracked :: "('a \<Rightarrow> nat option) \<Rightarrow> 'a \<times> connections \<Rightarrow> bool" where
  "tracked held s \<longleftrightarrow>
     map fst (cx_open (snd s)) = (case held (fst s) of None \<Rightarrow> [] | Some h \<Rightarrow> [h]) \<and>
     (\<forall>h. held (fst s) = Some h \<longrightarrow> h < cx_attempts (snd s))"

text \<open>Overlapping calls: the adapter, the connections, and how many calls wait for the driver.\<close>

inductive overlap ::
    "('a \<Rightarrow> nat result option) \<Rightarrow> ('a \<times> connections, nat) eff \<Rightarrow> ('a \<times> connections, unit) eff
     \<Rightarrow> ('a \<times> connections) \<times> nat \<Rightarrow> ('a \<times> connections) \<times> nat \<Rightarrow> bool"
  for enter connect close where
    waits: "enter (fst s) = None \<Longrightarrow> overlap enter connect close (s, n) (s, Suc n)"
  | returns: "enter (fst s) = Some r \<Longrightarrow> overlap enter connect close (s, n) (s, n)"
  | connected: "connect s = (r, s') \<Longrightarrow> overlap enter connect close (s, Suc n) (s', n)"
  | closed: "close s = (r, s') \<Longrightarrow> overlap enter connect close (s, n) (s', n)"

locale lazy_connection =
  fixes enter :: "'a \<Rightarrow> nat result option" and connect :: "('a \<times> connections, nat) eff"
    and close :: "('a \<times> connections, unit) eff" and held :: "'a \<Rightarrow> nat option" and D :: driver
  assumes enter_held: "enter a = Some (Inr h) \<longleftrightarrow> held a = Some h"
    and connect_ok: "connect (a, x) = (Inr h, (a', x')) \<Longrightarrow>
      held a' = Some h \<and> h = cx_attempts x \<and> cx_attempts x' = Suc (cx_attempts x) \<and>
      (\<exists>ep. cx_open x' = (h, ep) # cx_open x)"
    and connect_fails: "connect (a, x) = (Inl e, (a', x')) \<Longrightarrow>
      a' = a \<and> cx_attempts x \<le> cx_attempts x' \<and> cx_open x' = cx_open x"
    and close_idle: "held a = None \<Longrightarrow> close (a, x) = (Inr (), (a, x))"
    and close_held: "held a = Some h \<Longrightarrow> dr_closes D h \<Longrightarrow>
      \<exists>a'. close (a, x) = (Inr (), (a', x\<lparr>cx_open := filter (\<lambda>c. fst c \<noteq> h) (cx_open x)\<rparr>)) \<and>
        held a' = None"
    and close_fails: "held a = Some h \<Longrightarrow> \<not> dr_closes D h \<Longrightarrow> \<exists>e. close (a, x) = (Inl e, (a, x))"
begin

lemma ensured_tracked:
  assumes "tracked held s"
  shows "tracked held (snd (ensured enter connect s))"
proof (cases "enter (fst s)")
  case (Some r)
  with assms show ?thesis by (simp add: ensured_def)
next
  case None
  obtain a x where s: "s = (a, x)" by force
  obtain r a' x' where run: "connect (a, x) = (r, (a', x'))" by (metis surj_pair)
  from None s have idle: "held a = None"
    using enter_held[of a] by (cases "held a") auto
  show ?thesis
  proof (cases r)
    case (Inl e)
    with connect_fails[of a x e a' x'] run assms None s idle show ?thesis
      by (simp add: ensured_def tracked_def)
  next
    case (Inr h)
    with connect_ok[of a x h a' x'] run assms None s idle show ?thesis
      by (auto simp: ensured_def tracked_def)
  qed
qed

lemma close_tracked:
  assumes "tracked held s"
  shows "tracked held (snd (close s))"
proof -
  obtain a x where s: "s = (a, x)" by force
  show ?thesis
  proof (cases "held a")
    case None
    with assms s show ?thesis by (simp add: close_idle)
  next
    case (Some h)
    show ?thesis
    proof (cases "dr_closes D h")
      case True
      from assms s Some have "map fst (cx_open x) = [h]" by (simp add: tracked_def)
      then have "filter (\<lambda>c. fst c \<noteq> h) (cx_open x) = []" by (auto simp: filter_empty_conv)
      with close_held[OF Some True, of x] s show ?thesis by (auto simp: tracked_def)
    next
      case False
      with close_fails[OF Some False, of x] assms s show ?thesis by auto
    qed
  qed
qed

lemma calls_tracked: "tracked held s \<Longrightarrow> tracked held (run_calls (ensured enter connect) close cs s)"
proof (induction cs arbitrary: s)
  case (Cons c cs)
  then show ?case by (cases c) (simp_all add: ensured_tracked close_tracked)
qed simp

text \<open>Whatever the interleaving, what the adapter holds is open.\<close>

lemma overlap_holds_open:
  assumes "(overlap enter connect close)\<^sup>*\<^sup>* st st'"
    and "\<And>h. held (fst (fst st)) = Some h \<Longrightarrow> h \<in> fst ` set (cx_open (snd (fst st)))"
    and "held (fst (fst st')) = Some h"
  shows "h \<in> fst ` set (cx_open (snd (fst st')))"
  using assms
proof (induction arbitrary: h rule: rtranclp_induct)
  case base
  then show ?case by blast
next
  case (step y z)
  note IH = step.IH[OF step.prems(1)]
  from step.hyps(2) show ?case
  proof (cases rule: overlap.cases)
    case (connected s r s' n)
    obtain a x a' x' where s: "s = (a, x)" "s' = (a', x')" by (metis surj_pair)
    show ?thesis
    proof (cases r)
      case (Inl e)
      from connect_fails[of a x e a' x'] connected s Inl IH step.prems(2) show ?thesis by simp
    next
      case (Inr k)
      from connect_ok[of a x k a' x'] connected s Inr step.prems(2) show ?thesis by auto
    qed
  next
    case (closed s r s' n)
    obtain a x where s: "s = (a, x)" by force
    show ?thesis
    proof (cases "held a")
      case None
      with closed s IH step.prems(2) show ?thesis by (simp add: close_idle)
    next
      case (Some k)
      show ?thesis
      proof (cases "dr_closes D k")
        case True
        with close_held[OF Some True, of x] closed s step.prems(2) show ?thesis by auto
      next
        case False
        with close_fails[OF Some False, of x] closed s IH step.prems(2) show ?thesis by auto
      qed
    qed
  qed (use IH step.prems(2) in auto)
qed

text \<open>\<open>k\<close> first calls that all find nothing open: each opens a connection of its own.\<close>

lemma overlapping_connects:
  assumes "\<And>a x. enter a = None \<or> held a \<noteq> None \<Longrightarrow> \<exists>h s'. connect (a, x) = (Inr h, s')"
    and "enter a = None \<or> held a \<noteq> None"
  shows "\<exists>a' x'. (overlap enter connect close)\<^sup>*\<^sup>* ((a, x), k) ((a', x'), 0) \<and>
    (\<exists>new. cx_open x' = new @ cx_open x \<and> map fst new = rev [cx_attempts x ..< cx_attempts x + k]) \<and>
    held a' = (if k = 0 then held a else Some (cx_attempts x + k - 1))"
  using assms(2)
proof (induction k arbitrary: a x)
  case 0
  show ?case by (intro exI[of _ a] exI[of _ x]) simp
next
  case (Suc k)
  from assms(1)[OF Suc.prems, of x] obtain h a1 x1 where run: "connect (a, x) = (Inr h, (a1, x1))"
    by (metis surj_pair)
  from connect_ok[OF run] obtain ep where 1: "held a1 = Some h" "h = cx_attempts x"
    "cx_attempts x1 = Suc (cx_attempts x)" "cx_open x1 = (h, ep) # cx_open x" by blast
  from 1(1) have "enter a1 = None \<or> held a1 \<noteq> None" by simp
  from Suc.IH[OF this, of x1] obtain a' x' new where
    2: "(overlap enter connect close)\<^sup>*\<^sup>* ((a1, x1), k) ((a', x'), 0)" "cx_open x' = new @ cx_open x1"
      "map fst new = rev [cx_attempts x1 ..< cx_attempts x1 + k]"
      "held a' = (if k = 0 then held a1 else Some (cx_attempts x1 + k - 1))" by blast
  from run have "overlap enter connect close ((a, x), Suc k) ((a1, x1), k)" by (rule overlap.connected)
  with 2(1) have "(overlap enter connect close)\<^sup>*\<^sup>* ((a, x), Suc k) ((a', x'), 0)"
    by (rule converse_rtranclp_into_rtranclp[rotated])
  moreover have "rev [cx_attempts x..<cx_attempts x + Suc k] =
      rev [Suc (cx_attempts x)..<Suc (cx_attempts x) + k] @ [cx_attempts x]"
    by (simp add: upt_conv_Cons del: upt_Suc)
  ultimately show ?case using 1 2 by (intro exI[of _ a'] exI[of _ x'] conjI exI[of _ "new @ [(h, ep)]"]) simp_all
qed

lemma callers_wait:
  "enter (fst s) = None \<Longrightarrow> (overlap enter connect close)\<^sup>*\<^sup>* (s, 0) (s, k)"
  by (induction k) (auto intro: rtranclp.rtrancl_into_rtrancl overlap.waits)

lemma overlapping_first_calls:
  assumes "\<And>a x. enter a = None \<or> held a \<noteq> None \<Longrightarrow> \<exists>h s'. connect (a, x) = (Inr h, s')"
    and first: "enter a = None" and closes: "\<And>h. dr_closes D h"
    and fresh: "\<And>c. c \<in> set (cx_open x) \<Longrightarrow> fst c < cx_attempts x"
  shows "\<exists>a' x'. (overlap enter connect close)\<^sup>*\<^sup>* ((a, x), 0) ((a', x'), 0) \<and> held a' = None \<and>
    length (cx_open x') = length (cx_open x) + k"
proof -
  have "enter a = None \<or> held a \<noteq> None" using first by blast
  from overlapping_connects[OF assms(1) this, of x "Suc k"] obtain a1 x1 new where
    1: "(overlap enter connect close)\<^sup>*\<^sup>* ((a, x), Suc k) ((a1, x1), 0)" "cx_open x1 = new @ cx_open x"
      "map fst new = rev [cx_attempts x ..< cx_attempts x + Suc k]" "held a1 = Some (cx_attempts x + k)"
    by auto
  from 1(3) have new: "map fst new = (cx_attempts x + k) # rev [cx_attempts x ..< cx_attempts x + k]" by simp
  then obtain c rest where c: "new = c # rest" "fst c = cx_attempts x + k"
    "map fst rest = rev [cx_attempts x ..< cx_attempts x + k]" by auto
  have "length rest = length (map fst rest)" by simp
  also have "\<dots> = k" unfolding c(3) by simp
  finally have len: "length rest = k" .
  have "fst d \<noteq> cx_attempts x + k" if "d \<in> set rest" for d
  proof -
    from that have "fst d \<in> set (map fst rest)" by simp
    then show ?thesis unfolding c(3) by simp
  qed
  moreover have "fst d \<noteq> cx_attempts x + k" if "d \<in> set (cx_open x)" for d using fresh[OF that] by simp
  ultimately have keep: "filter (\<lambda>d. fst d \<noteq> cx_attempts x + k) (cx_open x1) = rest @ cx_open x"
    using 1(2) c(1,2) by (simp add: filter_id_conv)
  from close_held[OF 1(4) closes, of x1] keep obtain a2 where
    2: "close (a1, x1) = (Inr (), (a2, x1\<lparr>cx_open := rest @ cx_open x\<rparr>))" "held a2 = None" by auto
  have "(overlap enter connect close)\<^sup>*\<^sup>* ((a, x), 0) ((a, x), Suc k)"
    using callers_wait[of "(a, x)"] first by simp
  also note 1(1)
  also have "overlap enter connect close ((a1, x1), 0) ((a2, x1\<lparr>cx_open := rest @ cx_open x\<rparr>), 0)"
    by (rule overlap.closed) (rule 2(1))
  finally have "(overlap enter connect close)\<^sup>*\<^sup>* ((a, x), 0) ((a2, x1\<lparr>cx_open := rest @ cx_open x\<rparr>), 0)" .
  then show ?thesis using 2(2) len by (intro exI conjI) (assumption, assumption, simp)
qed

end

section \<open>The three adapters\<close>

lemmas connection_defs =
  lazy_connect_def lazy_close_def open_connection_def close_connection_def eff_map_error_def eff_raise_def

interpretation store_pool: lazy_connection pg_store_enter "pg_store_connect D" "pg_store_close D" pst_pool D
    for D
  by unfold_locales
    (auto simp: pg_store_enter_def pg_store_connect_def pg_store_close_def connection_defs Let_def
      split: option.splits if_splits)

interpretation catalog_pool: lazy_connection "pg_catalog_enter D" "pg_catalog_connect D" "pg_catalog_close D"
    pcr_pool D for D
  by unfold_locales
    (auto simp: pg_catalog_enter_def pg_catalog_connect_def pg_catalog_close_def connection_defs Let_def
      split: option.splits if_splits)

interpretation kafka_connection: lazy_connection kafka_enter "kafka_connect D" "kafka_close D" kp_producer D
    for D
  by unfold_locales
    (auto simp: kafka_enter_def kafka_connect_def kafka_close_def connection_defs Let_def
      split: option.splits if_splits)

end
