(* ===== verification/Telemetry.thy ===== *)
theory Telemetry
  imports Py_Library Settings
begin

text \<open>
  \<open>telemetry.py\<close>: when spans are exported, the one-time set-up of the instrumentation, the loggers of
  the application and the JSON line a log record becomes. The calls on the OpenTelemetry packages
  are recorded as actions; the identifiers of the current span, which that package formats, and
  the text of a timestamp are arguments.
\<close>

section \<open>Set-up\<close>

definition export_enabled :: "environ \<Rightarrow> bool" where
  "export_enabled getenv \<longleftrightarrow>
     (if ascii_lower (env_text getenv ''OTEL_SDK_DISABLED'' []) \<in> {''1'', ''true'', ''yes'', ''on''}
      then False
      else env_text getenv ''OTEL_EXPORTER_OTLP_ENDPOINT'' [] \<noteq> [] \<or>
           env_text getenv ''OTEL_EXPORTER_OTLP_TRACES_ENDPOINT'' [] \<noteq> [])"

datatype telemetry_action =
    Set_Propagators
  | Set_Tracer_Provider string
  | Register_Shutdown
  | Instrument_Httpx
  | Instrument_Asyncpg
  | Instrument_Fastapi string "string list"

record telemetry =
  tm_configured :: bool
  tm_actions :: "telemetry_action list"

definition configure_telemetry :: "environ \<Rightarrow> string \<Rightarrow> telemetry \<Rightarrow> telemetry" where
  "configure_telemetry getenv default_service_name t =
     (if tm_configured t then t
      else \<lparr>tm_configured = True,
        tm_actions = tm_actions t @ [Set_Propagators] @
          (if export_enabled getenv
           then [Set_Tracer_Provider
                   (let name = env_text getenv ''OTEL_SERVICE_NAME'' [] in
                    if name = [] then default_service_name else name),
                 Register_Shutdown]
           else []) @
          [Instrument_Httpx, Instrument_Asyncpg]\<rparr>)"

definition instrument_fastapi :: "telemetry \<Rightarrow> telemetry" where
  "instrument_fastapi t = t\<lparr>tm_actions := tm_actions t @
     [Instrument_Fastapi ''.*/health,.*/ready'' [''receive'', ''send'']]\<rparr>"

section \<open>Loggers\<close>

record log_handler =
  lh_trace_json :: bool

record logger =
  lg_level :: int
  lg_propagate :: bool
  lg_handlers :: "log_handler list"

definition new_logger :: logger where
  "new_logger = \<lparr>lg_level = 0, lg_propagate = True, lg_handlers = []\<rparr>"

text \<open>\<open>application_logger\<close> on the loggers of the process; \<open>logging.INFO\<close> is 20.\<close>

definition application_logger :: "string \<Rightarrow> (string \<Rightarrow> logger) \<Rightarrow> string \<Rightarrow> logger" where
  "application_logger name loggers =
     (let l = (loggers name)\<lparr>lg_level := 20, lg_propagate := False\<rparr> in
      loggers(name :=
        (if \<not> (\<exists>h \<in> set (lg_handlers l). lh_trace_json h)
         then l\<lparr>lg_handlers := lg_handlers l @ [\<lparr>lh_trace_json = True\<rparr>]\<rparr> else l)))"

section \<open>Log lines\<close>

record log_record =
  lr_created :: instant
  lr_level :: string
  lr_message :: string
  lr_name :: string
  lr_extra :: "(string \<times> json) list"
  lr_exception :: "string option"

text \<open>The current span: whether its context is valid, and its formatted identifiers.\<close>

record span_context =
  sx_valid :: bool
  sx_trace_id :: string
  sx_span_id :: string

definition log_fields :: "string list" where
  "log_fields = [''request_id'', ''method'', ''path'', ''status'', ''duration_ms'', ''client_ip'']"

text \<open>\<open>value not in (None, "")\<close>.\<close>

definition log_field :: "log_record \<Rightarrow> string \<Rightarrow> (string \<times> json) list" where
  "log_field r field =
     (case map_of (lr_extra r) field of
        None \<Rightarrow> []
      | Some v \<Rightarrow> (if v = JNull \<or> v = JStr [] then [] else [(field, v)]))"

definition log_payload :: "(instant \<Rightarrow> string) \<Rightarrow> span_context \<Rightarrow> log_record \<Rightarrow> (string \<times> json) list" where
  "log_payload isoformat sx r =
     [(''time'', JStr (isoformat (lr_created r))), (''level'', JStr (ascii_lower (lr_level r))),
      (''message'', JStr (lr_message r)), (''logger'', JStr (lr_name r))] @
     (if sx_valid sx then [(''trace_id'', JStr (sx_trace_id sx)), (''span_id'', JStr (sx_span_id sx))]
      else []) @
     concat (map (log_field r) log_fields) @
     (case lr_exception r of None \<Rightarrow> [] | Some e \<Rightarrow> [(''exception'', JStr e)])"

text \<open>\<open>json.dumps(payload, ensure_ascii=False)\<close> with its default separators, in insertion order.\<close>

definition joined :: "string \<Rightarrow> string list \<Rightarrow> string" where
  "joined sep ws = (case ws of [] \<Rightarrow> [] | w # rest \<Rightarrow> w @ concat (map (\<lambda>v. sep @ v) rest))"

fun json_line :: "(rat \<Rightarrow> string) \<Rightarrow> json \<Rightarrow> string" where
  "json_line fr JNull = ''null''"
| "json_line fr (JBool b) = (if b then ''true'' else ''false'')"
| "json_line fr (JInt i) = show_int i"
| "json_line fr (JFloat r) = fr r"
| "json_line fr (JStr s) = json_string False s"
| "json_line fr (JArr xs) = ''['' @ joined '', '' (map (json_line fr) xs) @ '']''"
| "json_line fr (JObj kvs) =
     ''{'' @ joined '', '' (map (\<lambda>kv. json_string False (fst kv) @ '': '' @ json_line fr (snd kv)) kvs) @ ''}''"

definition trace_json_format ::
    "'g lib \<Rightarrow> (instant \<Rightarrow> string) \<Rightarrow> span_context \<Rightarrow> log_record \<Rightarrow> string" where
  "trace_json_format L isoformat sx r = json_line (lib_float_repr L) (JObj (log_payload isoformat sx r))"

section \<open>Facts\<close>

lemma configure_telemetry_once [simp]:
  "configure_telemetry e n (configure_telemetry e' n' t) = configure_telemetry e' n' t"
  by (simp add: configure_telemetry_def)

lemma application_logger_once [simp]:
  "application_logger n (application_logger n ls) = application_logger n ls"
  by (cases "ls n") (simp add: application_logger_def Let_def)

lemma application_logger_one_handler:
  assumes "length (filter lh_trace_json (lg_handlers (ls n))) \<le> 1"
  shows "length (filter lh_trace_json (lg_handlers (application_logger n ls n))) = 1"
proof (cases "\<exists>h \<in> set (lg_handlers (ls n)). lh_trace_json h")
  case True
  then have "filter lh_trace_json (lg_handlers (ls n)) \<noteq> []" by (auto simp: filter_empty_conv)
  with assms have "length (filter lh_trace_json (lg_handlers (ls n))) = 1"
    by (cases "filter lh_trace_json (lg_handlers (ls n))") auto
  with True show ?thesis by (simp add: application_logger_def Let_def)
next
  case False
  then have "filter lh_trace_json (lg_handlers (ls n)) = []" by (auto simp: filter_empty_conv)
  with False show ?thesis by (simp add: application_logger_def Let_def)
qed

lemma log_field_keys: "fst ` set (log_field r f) \<subseteq> {f}"
  by (auto simp: log_field_def split: option.splits if_splits)

lemma log_field_distinct: "distinct (map fst (log_field r f))"
  by (auto simp: log_field_def split: option.splits)

lemma log_field_values: "(k, v) \<in> set (log_field r f) \<Longrightarrow> k = f \<and> map_of (lr_extra r) k = Some v \<and> v \<noteq> JNull \<and> v \<noteq> JStr []"
  by (auto simp: log_field_def split: option.splits if_splits)

lemma log_extra_keys: "fst ` set (concat (map (log_field r) fs)) \<subseteq> set fs"
  using log_field_keys[of r] by fastforce

lemma log_extra_distinct: "distinct fs \<Longrightarrow> distinct (map fst (concat (map (log_field r) fs)))"
proof (induction fs)
  case (Cons f fs)
  let ?rest = "concat (map (log_field r) fs)"
  from Cons.prems log_field_keys[of r f] log_extra_keys[of r fs]
  have "fst ` set (log_field r f) \<inter> fst ` set ?rest = {}" by fastforce
  moreover from Cons have "distinct (map fst ?rest)" by simp
  moreover have "map fst (concat (map (log_field r) (f # fs))) = map fst (log_field r f) @ map fst ?rest" by simp
  ultimately show ?case using log_field_distinct[of r f] by (simp only: distinct_append set_map simp_thms)
qed simp

lemma log_field_present:
  "map_of (lr_extra r) f = Some v \<Longrightarrow> v \<noteq> JNull \<Longrightarrow> v \<noteq> JStr [] \<Longrightarrow> (f, v) \<in> set (log_field r f)"
  by (simp add: log_field_def)

end
