(* ===== verification/App_Lifecycle.thy ===== *)
theory App_Lifecycle
  imports Connections Http_Api Telemetry
begin

text \<open>
  The application around the handlers, from \<open>create_app\<close> and \<open>register_access_log\<close> of \<open>main.py\<close>:
  which adapters the application owns, what the lifespan starts and closes, and the middleware that
  gives every request its id and its log line. How a close call or the cancelled worker ends is
  given by the environment; FastAPI and uvicorn call the two hooks and are not modelled.
\<close>

section \<open>Adapters\<close>

datatype adapter = State_Store | Event_Publisher | Catalog_Provider | Asset_Client | Backpack_Receipt_Client

text \<open>\<open>injected\<close>: passed to \<open>create_app\<close>; \<open>closable\<close>: has a \<open>close\<close> method.\<close>

record app =
  ap_settings :: settings
  ap_injected :: "adapter \<Rightarrow> bool"
  ap_closable :: "adapter \<Rightarrow> bool"

definition owns :: "app \<Rightarrow> adapter \<Rightarrow> bool" where
  "owns A a \<longleftrightarrow> \<not> ap_injected A a"

text \<open>The adapters that \<open>create_app\<close> builds from the settings, before they connect.\<close>

definition state_store_of_settings :: "settings \<Rightarrow> pg_store" where
  "state_store_of_settings s =
     pg_store_init (st_gacha_state_database_url s) (st_gacha_state_pool_size s)
       (st_gacha_state_query_timeout_seconds s)"

definition event_publisher_of_settings :: "settings \<Rightarrow> kafka_publisher" where
  "event_publisher_of_settings s =
     kafka_publisher_init (st_kafka_bootstrap_servers s) (st_kafka_topic s) (st_kafka_client_id s)"

section \<open>The lifespan\<close>

datatype lifecycle_event =
    Worker_Started int int int
  | Worker_Cancelled
  | Adapter_Closed adapter

text \<open>\<open>le_worker\<close>: what awaiting the cancelled worker raises other than \<open>CancelledError\<close>.\<close>

record lifecycle_env =
  le_worker :: "exn option"
  le_close :: "adapter \<Rightarrow> exn option"

type_synonym 'a lifecycle = "(lifecycle_event list, 'a) eff"

definition note_event :: "lifecycle_event \<Rightarrow> unit lifecycle" where
  "note_event ev events = (Inr (), events @ [ev])"

definition raise_or_return :: "exn option \<Rightarrow> unit lifecycle" where
  "raise_or_return e = (case e of None \<Rightarrow> eff_return () | Some x \<Rightarrow> eff_raise x)"

definition close_adapter :: "lifecycle_env \<Rightarrow> adapter \<Rightarrow> unit lifecycle" where
  "close_adapter F a = eff_then (raise_or_return (le_close F a)) (note_event (Adapter_Closed a))"

definition close_owned :: "app \<Rightarrow> lifecycle_env \<Rightarrow> adapter \<Rightarrow> unit lifecycle" where
  "close_owned A F a = (if owns A a \<and> ap_closable A a then close_adapter F a else eff_return ())"

definition lifespan_startup :: "app \<Rightarrow> bool lifecycle" where
  "lifespan_startup A =
     (let s = ap_settings A in
      if st_pending_event_recovery_enabled s
      then eff_then (note_event (Worker_Started (st_pending_event_recovery_interval_seconds s)
             (st_pending_event_recovery_batch_size s) (st_pending_event_recovery_lock_ttl_seconds s)))
           (eff_return True)
      else eff_return False)"

definition lifespan_shutdown :: "app \<Rightarrow> lifecycle_env \<Rightarrow> bool \<Rightarrow> unit lifecycle" where
  "lifespan_shutdown A F recovery_task =
     eff_then (if recovery_task
               then eff_then (note_event Worker_Cancelled) (raise_or_return (le_worker F))
               else eff_return ())
    (eff_then (close_adapter F Catalog_Provider)
    (eff_then (close_owned A F Backpack_Receipt_Client)
    (eff_then (close_owned A F Asset_Client)
    (eff_then (close_owned A F Event_Publisher)
              (close_owned A F State_Store)))))"

definition lifespan :: "app \<Rightarrow> lifecycle_env \<Rightarrow> unit lifecycle \<Rightarrow> unit lifecycle" where
  "lifespan A F serve =
     eff_bind (lifespan_startup A) (\<lambda>recovery_task. eff_finally serve (lifespan_shutdown A F recovery_task))"

section \<open>The access log\<close>

record http_call =
  hc_method :: string
  hc_path :: string
  hc_request_id :: "string option"
  hc_client_host :: "string option"

definition probe_paths :: "string set" where
  "probe_paths = {''/health'', ''/ready''}"

definition access_extra :: "string \<Rightarrow> http_call \<Rightarrow> (string \<times> json) list \<Rightarrow> int \<Rightarrow> (string \<times> json) list" where
  "access_extra request_id c status duration_ms =
     [(''request_id'', JStr request_id), (''method'', JStr (hc_method c)), (''path'', JStr (hc_path c))] @
     status @
     [(''duration_ms'', JInt duration_ms),
      (''client_ip'', JStr (case hc_client_host c of None \<Rightarrow> [] | Some h \<Rightarrow> h))]"

definition access_record ::
    "instant \<Rightarrow> string \<Rightarrow> string \<Rightarrow> (string \<times> json) list \<Rightarrow> string option \<Rightarrow> log_record" where
  "access_record created level message extra exc =
     \<lparr>lr_created = created, lr_level = level, lr_message = message,
      lr_name = ''gacha_engine_service.main'', lr_extra = extra, lr_exception = exc\<rparr>"

text \<open>
  The middleware around the rest of the application, which gets the request id. \<open>fresh\<close> is the
  \<open>uuid4()\<close> of \<open>request_id_from_header\<close>, \<open>created\<close> and \<open>duration_ms\<close> are read from the clocks and
  \<open>trace_text\<close> is the traceback of an exception.
\<close>

definition access_log_middleware ::
    "uuid \<Rightarrow> instant \<Rightarrow> int \<Rightarrow> (exn \<Rightarrow> string) \<Rightarrow> http_call \<Rightarrow> (string \<Rightarrow> ('s, http_response) eff)
     \<Rightarrow> ('s \<times> log_record list, http_response) eff" where
  "access_log_middleware fresh created duration_ms trace_text c call_next s =
     (case s of (st, logs) \<Rightarrow>
        let is_probe_request = hc_path c \<in> probe_paths;
            request_id = request_id_from_header fresh (hc_request_id c) in
        case call_next request_id st of
          (Inl e, st') \<Rightarrow>
            (Inl e, (st', if is_probe_request then logs
               else logs @ [access_record created ''ERROR'' ''http request failed''
                      (access_extra request_id c [] duration_ms) (Some (trace_text e))]))
        | (Inr response, st') \<Rightarrow>
            (Inr (with_request_id request_id response),
             (st', if is_probe_request then logs
               else logs @ [access_record created ''INFO'' ''http request''
                      (access_extra request_id c [(''status'', JInt (hr_status response))] duration_ms) None])))"

text \<open>The application below the middleware: a route, and the registered exception handler.\<close>

definition handled :: "('s, http_response) eff \<Rightarrow> ('s, http_response) eff" where
  "handled route =
     eff_catch route (\<lambda>e. case http_exception_handler e of None \<Rightarrow> eff_raise e | Some r \<Rightarrow> eff_return r)"

definition health_check :: json where
  "health_check = JObj [(''status'', JStr ''ok'')]"

definition health_route :: "('s, http_response) eff" where
  "health_route = eff_return \<lparr>hr_status = 200, hr_headers = [], hr_body = health_check\<rparr>"

text \<open>The routes get the id from the state of the request.\<close>

definition request_id_from_state :: "string option \<Rightarrow> string" where
  "request_id_from_state v = (case v of None \<Rightarrow> [] | Some s \<Rightarrow> s)"

definition serve_request ::
    "uuid \<Rightarrow> instant \<Rightarrow> int \<Rightarrow> (exn \<Rightarrow> string) \<Rightarrow> http_call \<Rightarrow> (string \<Rightarrow> ('s, http_response) eff)
     \<Rightarrow> ('s \<times> log_record list, http_response) eff" where
  "serve_request fresh created duration_ms trace_text c route =
     access_log_middleware fresh created duration_ms trace_text c
       (\<lambda>request_id. handled (route (request_id_from_state (Some request_id))))"

end
