(* ===== verification/Lifecycle_Guarantees.thy ===== *)
theory Lifecycle_Guarantees
  imports App_Lifecycle
begin

text \<open>
  What holds around the handlers: every request gets an id and one log line, every adapter holds at
  most one connection while its calls do not overlap, overlapping first calls open one each, and
  the lifespan closes what the application owns.
\<close>

section \<open>Requests\<close>

lemma handled_raises: "handled m s = (Inl e, s') \<Longrightarrow> http_exception_handler e = None"
  by (auto simp: handled_def eff_catch_def eff_raise_def eff_return_def split: prod.splits sum.splits option.splits)

lemma request_id_is_uuid: "\<exists>u. request_id_from_header fresh h = uuid_str u"
  by (auto simp: request_id_from_header_def split: option.splits)

lemma uuid_str_nonempty: "uuid_str u \<noteq> []"
proof
  assume "uuid_str u = []"
  moreover have "uuid_parse [] = None" by simp
  ultimately show False using uuid_parse_str[of u] by simp
qed

lemma with_request_id_header [simp]: "map_of (hr_headers (with_request_id i r)) ''X-Request-Id'' = Some i"
  by (simp add: with_request_id_def update_conv)

lemma log_fields_distinct: "distinct log_fields"
  by (simp add: log_fields_def)

lemma access_extra_id [simp]: "map_of (access_extra i c st d) ''request_id'' = Some (JStr i)"
  by (simp add: access_extra_def)

text \<open>The keys of a log line are the fixed ones; the request id is among them when the record has it.\<close>

definition log_keys :: "string set" where
  "log_keys = {''time'', ''level'', ''message'', ''logger'', ''trace_id'', ''span_id'', ''exception''} \<union> set log_fields"

lemma log_payload_keys: "fst ` set (log_payload fmt sx r) \<subseteq> log_keys"
  using log_extra_keys[of r log_fields] unfolding log_payload_def log_keys_def
  by (auto split: option.splits)

lemma log_payload_distinct: "distinct (map fst (log_payload fmt sx r))"
proof -
  define ks where "ks = map fst (concat (map (log_field r) log_fields))"
  have ks: "distinct ks" unfolding ks_def by (rule log_extra_distinct) (rule log_fields_distinct)
  have "k \<notin> set ks" if "k \<notin> set log_fields" for k
    using that log_extra_keys[of r log_fields] unfolding ks_def by auto
  then have "''time'' \<notin> set ks" "''level'' \<notin> set ks" "''message'' \<notin> set ks" "''logger'' \<notin> set ks"
    "''trace_id'' \<notin> set ks" "''span_id'' \<notin> set ks" "''exception'' \<notin> set ks"
    by (simp_all add: log_fields_def)
  moreover have "map fst (log_payload fmt sx r) =
      [''time'', ''level'', ''message'', ''logger''] @
      (if sx_valid sx then [''trace_id'', ''span_id''] else []) @ ks @
      (case lr_exception r of None \<Rightarrow> [] | Some e \<Rightarrow> [''exception''])"
    by (simp add: log_payload_def ks_def split: option.splits)
  ultimately show ?thesis using ks by (cases "sx_valid sx"; cases "lr_exception r") auto
qed

lemma log_payload_extra:
  assumes "f \<in> set log_fields" "map_of (lr_extra r) f = Some v" "v \<noteq> JNull" "v \<noteq> JStr []"
  shows "map_of (log_payload fmt sx r) f = Some v"
proof (rule map_of_is_SomeI)
  show "distinct (map fst (log_payload fmt sx r))" by (rule log_payload_distinct)
  show "(f, v) \<in> set (log_payload fmt sx r)"
    using assms(1) log_field_present[OF assms(2-4)] by (auto simp: log_payload_def)
qed

text \<open>C28: Whatever a route does, the request has one id, a UUID: it is on the response that leaves the
  middleware and, unless the path is a probe, in the one line the access log gains, whose keys are
  those of the formatter. An exception that leaves the application is not one that has an error response.\<close>

theorem every_request_is_traced:
  assumes "serve_request fresh created duration_ms trace_text c route (st, logs) = (r, (st', logs'))"
  shows "\<exists>u. (\<forall>response. r = Inr response \<longrightarrow> map_of (hr_headers response) ''X-Request-Id'' = Some (uuid_str u)) \<and>
    (\<forall>e. r = Inl e \<longrightarrow> http_exception_handler e = None) \<and>
    (if hc_path c \<in> {''/health'', ''/ready''} then logs' = logs
     else \<exists>entry. logs' = logs @ [entry] \<and>
       map_of (log_payload fmt sx entry) ''request_id'' = Some (JStr (uuid_str u)) \<and>
       distinct (map fst (log_payload fmt sx entry)) \<and> fst ` set (log_payload fmt sx entry) \<subseteq> log_keys)"
proof -
  from request_id_is_uuid obtain u where u: "request_id_from_header fresh (hc_request_id c) = uuid_str u" by blast
  have traced: "map_of (log_payload fmt sx entry) ''request_id'' = Some (JStr (uuid_str u))"
    if "lr_extra entry = access_extra (uuid_str u) c x d" for entry x d
    by (rule log_payload_extra) (simp_all add: that log_fields_def uuid_str_nonempty)
  let ?run = "handled (route (request_id_from_state (Some (uuid_str u)))) st"
  obtain q s1 where run: "?run = (q, s1)" by force
  show ?thesis
  proof (cases q)
    case (Inl e)
    with run have "http_exception_handler e = None" by (simp add: handled_raises)
    with assms u run Inl show ?thesis
      by (intro exI[of _ u])
         (auto simp: serve_request_def access_log_middleware_def Let_def probe_paths_def access_record_def
           intro!: traced log_payload_distinct log_payload_keys[THEN subsetD])
  next
    case (Inr response)
    with assms u run show ?thesis
      by (intro exI[of _ u])
         (auto simp: serve_request_def access_log_middleware_def Let_def probe_paths_def access_record_def
           intro!: traced log_payload_distinct log_payload_keys[THEN subsetD])
  qed
qed

definition banners_call :: http_call where
  "banners_call = \<lparr>hc_method = ''GET'', hc_path = ''/v1/banners'', hc_request_id = None, hc_client_host = None\<rparr>"

theorem every_request_is_traced_witness:
  "\<exists>u entry. snd (snd (serve_request 7 0 3 (\<lambda>_. []) banners_call (\<lambda>_. health_route) ((), []))) = [entry] \<and>
    map_of (log_payload (\<lambda>_. []) \<lparr>sx_valid = False, sx_trace_id = [], sx_span_id = []\<rparr> entry) ''request_id'' =
      Some (JStr (uuid_str u))"
proof -
  obtain r st' logs' where run:
    "serve_request 7 0 3 (\<lambda>_. []) banners_call (\<lambda>_. health_route) ((), []) = (r, (st', logs'))" by (metis surj_pair)
  from every_request_is_traced[OF run, of "\<lambda>_. []" "\<lparr>sx_valid = False, sx_trace_id = [], sx_span_id = []\<rparr>"] run
  show ?thesis by (auto simp: banners_call_def)
qed

section \<open>Connections\<close>

definition no_connections :: connections where
  "no_connections = \<lparr>cx_attempts = 0, cx_open = []\<rparr>"

text \<open>C39: as long as the calls of an adapter follow each other, in any order and whichever attempts to
  connect or to close fail, the connections that are open are exactly the one the adapter holds, and
  none when it holds none: nothing is opened twice and nothing is left behind by \<open>close\<close>. A failed
  attempt is one that leaves nothing open (\<open>open_connection\<close>).\<close>

theorem adapters_hold_one_connection:
  "tracked kp_producer
     (run_calls (kafka_ensure_started D) (kafka_close D) cs (kafka_publisher_init servers topic client, no_connections)) \<and>
   tracked pst_pool
     (run_calls (pg_store_ensure_pool D) (pg_store_close D) cs (pg_store_init url pool timeout, no_connections)) \<and>
   tracked pcr_pool
     (run_calls (pg_catalog_ensure_pool D) (pg_catalog_close D) cs
       (pg_catalog_init url project environment pool timeout, no_connections))"
  unfolding kafka_ensure_started_def pg_store_ensure_pool_def pg_catalog_ensure_pool_def
  by (intro conjI kafka_connection.calls_tracked store_pool.calls_tracked catalog_pool.calls_tracked)
     (simp_all add: tracked_def no_connections_def kafka_publisher_init_def pg_store_init_def pg_catalog_init_def)

text \<open>First calls that overlap are not serialised: when \<open>k + 1\<close> calls of the store start before the first
  of them has its pool, each opens a pool of its own, and after all have returned and the store is
  closed, the \<open>k\<close> pools that were overwritten are still open and nothing holds them.\<close>

theorem concurrent_first_calls_leak:
  assumes "pst_pool s = None" "pst_database_url s \<noteq> []"
    and "dr_installed D" "\<And>n. dr_connects D n" "\<And>h. dr_closes D h"
    and "\<And>c. c \<in> set (cx_open x) \<Longrightarrow> fst c < cx_attempts x"
  shows "\<exists>s' x'. (overlap pg_store_enter (pg_store_connect D) (pg_store_close D))\<^sup>*\<^sup>* ((s, x), 0) ((s', x'), 0) \<and>
    pst_pool s' = None \<and> length (cx_open x') = length (cx_open x) + k"
proof (rule store_pool.overlapping_first_calls[where a = s and x = x and k = k])
  show "\<exists>h t. pg_store_connect D (a, y) = (Inr h, t)" if "pg_store_enter a = None \<or> pst_pool a \<noteq> None" for a y
    using assms(3,4) by (simp add: pg_store_connect_def connection_defs Let_def)
  show "pg_store_enter s = None" using assms(1,2) by (simp add: pg_store_enter_def)
qed (use assms in auto)

theorem concurrent_first_calls_leak_witness:
  "\<exists>s' x'. (overlap pg_store_enter (pg_store_connect \<lparr>dr_installed = True, dr_connects = (\<lambda>_. True), dr_closes = (\<lambda>_. True)\<rparr>)
      (pg_store_close \<lparr>dr_installed = True, dr_connects = (\<lambda>_. True), dr_closes = (\<lambda>_. True)\<rparr>))\<^sup>*\<^sup>*
      ((\<lparr>pst_database_url = ''db'', pst_pool_size = 8, pst_query_timeout_seconds = 5, pst_pool = None\<rparr>, no_connections), 0)
      ((s', x'), 0) \<and> pst_pool s' = None \<and> length (cx_open x') = 1"
  using concurrent_first_calls_leak[of
      "\<lparr>pst_database_url = ''db'', pst_pool_size = 8, pst_query_timeout_seconds = 5, pst_pool = None\<rparr>"
      "\<lparr>dr_installed = True, dr_connects = (\<lambda>_. True), dr_closes = (\<lambda>_. True)\<rparr>" no_connections 1]
  by (simp add: no_connections_def)

section \<open>The lifespan\<close>

definition close_order :: "app \<Rightarrow> adapter list" where
  "close_order A = Catalog_Provider #
     filter (\<lambda>a. owns A a \<and> ap_closable A a)
       [Backpack_Receipt_Client, Asset_Client, Event_Publisher, State_Store]"

lemma eff_then_unit: "eff_then (eff_return ()) n = n" "eff_then m (eff_return ()) = m"
  by (simp_all add: fun_eq_iff eff_defs split: prod.splits sum.splits)

lemma eff_for_filter: "eff_for (filter P xs) f = eff_for xs (\<lambda>x. if P x then f x else eff_return ())"
  by (induction xs) (simp_all add: eff_then_unit)

lemma shutdown_is_loop:
  "lifespan_shutdown A F False = eff_for (close_order A) (close_adapter F)"
  by (simp add: lifespan_shutdown_def close_order_def close_owned_def eff_then_unit eff_for_filter
      del: filter.simps)

lemma close_loop:
  "eff_for xs (close_adapter F) events =
     (case dropWhile (\<lambda>a. le_close F a = None) xs of [] \<Rightarrow> Inr () | a # _ \<Rightarrow> Inl (the (le_close F a)),
      events @ map Adapter_Closed (takeWhile (\<lambda>a. le_close F a = None) xs))"
proof (induction xs arbitrary: events)
  case (Cons a xs)
  then show ?case
    by (cases "le_close F a") (simp_all add: close_adapter_def raise_or_return_def note_event_def eff_defs)
qed (simp add: eff_defs)

lemma shutdown_of_worker:
  "lifespan_shutdown A F True events =
     (case le_worker F of Some e \<Rightarrow> (Inl e, events @ [Worker_Cancelled])
      | None \<Rightarrow> lifespan_shutdown A F False (events @ [Worker_Cancelled]))"
  by (cases "le_worker F")
     (simp_all add: lifespan_shutdown_def raise_or_return_def note_event_def eff_defs)

text \<open>When the closes succeed, the end of the lifespan cancels the recovery worker it started and closes,
  in reverse order of their use and once each, the catalog provider and exactly the adapters the
  application built itself; when one fails, those before it are closed, the others are not, and
  the failure is raised. An injected adapter is never closed.\<close>

theorem lifespan_closes_owned:
  assumes worker: "le_worker F = None"
    and run: "lifespan A F (\<lambda>events. (q, events)) [] = (r, events)"
  shows "\<exists>started. events = started @ map Adapter_Closed (takeWhile (\<lambda>a. le_close F a = None) (close_order A)) \<and>
      (started \<noteq> [] \<longleftrightarrow> st_pending_event_recovery_enabled (ap_settings A)) \<and>
      (started \<noteq> [] \<longrightarrow> last started = Worker_Cancelled)"
    and "(\<forall>a \<in> set (close_order A). le_close F a = None) \<longrightarrow> r = q"
    and "Adapter_Closed a \<in> set events \<Longrightarrow> a = Catalog_Provider \<or> owns A a"
proof -
  let ?s = "ap_settings A"
  define started where "started =
    (if st_pending_event_recovery_enabled ?s
     then [Worker_Started (st_pending_event_recovery_interval_seconds ?s)
             (st_pending_event_recovery_batch_size ?s) (st_pending_event_recovery_lock_ttl_seconds ?s),
           Worker_Cancelled] else [])"
  have final: "(r, events) =
    (case eff_for (close_order A) (close_adapter F) started of (Inl e, l) \<Rightarrow> (Inl e, l) | (Inr _, l) \<Rightarrow> (q, l))"
    using run worker
    by (auto simp: lifespan_def lifespan_startup_def Let_def note_event_def started_def shutdown_of_worker
        shutdown_is_loop eff_bind_def eff_then_def eff_return_def eff_finally_def split: if_splits prod.splits sum.splits)
  then have events: "events = started @ map Adapter_Closed (takeWhile (\<lambda>a. le_close F a = None) (close_order A))"
    unfolding close_loop by (auto split: list.splits)
  then show "\<exists>started. events = started @ map Adapter_Closed (takeWhile (\<lambda>a. le_close F a = None) (close_order A)) \<and>
      (started \<noteq> [] \<longleftrightarrow> st_pending_event_recovery_enabled ?s) \<and>
      (started \<noteq> [] \<longrightarrow> last started = Worker_Cancelled)"
    by (intro exI[of _ started]) (auto simp: started_def)
  show "(\<forall>a \<in> set (close_order A). le_close F a = None) \<longrightarrow> r = q"
  proof
    assume "\<forall>a \<in> set (close_order A). le_close F a = None"
    then have "dropWhile (\<lambda>a. le_close F a = None) (close_order A) = []" by (simp add: dropWhile_eq_Nil_conv)
    with final show "r = q" unfolding close_loop by simp
  qed
  show "a = Catalog_Provider \<or> owns A a" if "Adapter_Closed a \<in> set events"
    using that unfolding events by (auto simp: started_def close_order_def dest!: set_takeWhileD split: if_splits)
qed

definition plain_app :: app where
  "plain_app = \<lparr>ap_settings = default_settings, ap_injected = (\<lambda>a. a = State_Store), ap_closable = (\<lambda>_. True)\<rparr>"

theorem lifespan_closes_owned_witness:
  "\<exists>started. snd (lifespan plain_app \<lparr>le_worker = None, le_close = (\<lambda>_. None)\<rparr> (\<lambda>events. (Inr (), events)) []) =
     started @ map Adapter_Closed [Catalog_Provider, Backpack_Receipt_Client, Asset_Client, Event_Publisher]"
proof -
  let ?F = "\<lparr>le_worker = None, le_close = (\<lambda>_. None)\<rparr>"
  obtain r events where run: "lifespan plain_app ?F (\<lambda>events. (Inr (), events)) [] = (r, events)" by force
  from lifespan_closes_owned(1)[OF _ run] run show ?thesis
    by (auto simp: close_order_def plain_app_def owns_def)
qed

end
