(* ===== verification/Legacy_Migration.thy ===== *)
theory Legacy_Migration
  imports Postgres_Props
begin

text \<open>
  \<open>scripts/migrate_redis_state.py\<close>: the one-time import of the state that earlier releases kept in
  Redis. Keys are parsed as the script parses them, and every entry becomes one of its two upserts
  on the tables of \<open>Postgres_State\<close>. The Redis database is the list of the keys a scan yields with
  their values; decoding a value into a model (pydantic) is a parameter.
\<close>

section \<open>Keys\<close>

datatype legacy_key = Pity_Key uuid string | Operation_Key uuid string

definition operation_marker :: string where
  "operation_marker = ''pull-operation:''"

definition parse_legacy_key :: "string \<Rightarrow> string \<Rightarrow> legacy_key option" where
  "parse_legacy_key key_prefix key =
     (let marker = py_strip_chars '':'' key_prefix @ '':'' in
      if \<not> starts_with marker key then None
      else let suffix = drop (length marker) key in
        if starts_with operation_marker suffix then
          (case py_split (CHR '':'') (drop (length operation_marker) suffix) of
             [u, digest] \<Rightarrow>
               (if \<not> sha256_text digest then None
                else map_option (\<lambda>i. Operation_Key i digest) (uuid_parse u))
           | _ \<Rightarrow> None)
        else
          (case py_split1 (CHR '':'') suffix of
             [u, banner_id] \<Rightarrow>
               (if banner_id = [] \<or> py_len banner_id > 100 then None
                else map_option (\<lambda>i. Pity_Key i banner_id) (uuid_parse u))
           | _ \<Rightarrow> None))"

section \<open>Imports\<close>

text \<open>
  \<open>insert ... on conflict (user_id, banner_id) do update ... where version < excluded.version\<close>; the
  trigger \<open>fill_pity_group_id\<close> sets the group of a new row to its banner.
\<close>

definition import_pity_sql :: "instant \<Rightarrow> uuid \<Rightarrow> string \<Rightarrow> pity_snapshot \<Rightarrow> unit db_op" where
  "import_pity_sql now user banner_id s db =
     (let row = \<lparr>pt_user_id = user, pt_banner_id = banner_id, pt_pity_group_id = banner_id,
           pt_since_five = since_five s, pt_since_four = since_four s,
           pt_guaranteed_featured_five = guaranteed_featured_five s, pt_version = version s,
           pt_created_at = now, pt_updated_at = now\<rparr>;
          sel = (\<lambda>r. pt_user_id r = user \<and> pt_banner_id r = banner_id \<and> pt_version r < version s);
          upd = (\<lambda>r. r\<lparr>pt_since_five := since_five s, pt_since_four := since_four s,
            pt_guaranteed_featured_five := guaranteed_featured_five s, pt_version := version s,
            pt_updated_at := now\<rparr>) in
      if \<not> pity_checks row then (Inl constraint_violation, db)
      else if \<exists>r \<in> set (db_pity db). pt_user_id r = user \<and> pt_banner_id r = banner_id
      then (Inr (), db\<lparr>db_pity := map (\<lambda>r. if sel r then upd r else r) (db_pity db)\<rparr>)
      else if \<exists>r \<in> set (db_pity db). at_pity user banner_id r then (Inl constraint_violation, db)
      else (Inr (), db\<lparr>db_pity := db_pity db @ [row]\<rparr>))"

text \<open>
  \<open>_import_pity_snapshot\<close>: the driver encodes the counters as \<open>integer\<close> and the version as \<open>bigint\<close> before
  it sends anything; a number outside its type is a \<open>DataError\<close>, which asyncpg derives from
  \<open>ValueError\<close>.
\<close>

definition bindable :: "pity_snapshot \<Rightarrow> bool" where
  "bindable s \<longleftrightarrow>
     - (2 ^ 31) \<le> since_five s \<and> since_five s < 2 ^ 31 \<and>
     - (2 ^ 31) \<le> since_four s \<and> since_four s < 2 ^ 31 \<and>
     - (2 ^ 63) \<le> version s \<and> version s < 2 ^ 63"

definition import_pity_snapshot :: "instant \<Rightarrow> uuid \<Rightarrow> string \<Rightarrow> pity_snapshot \<Rightarrow> unit db_op" where
  "import_pity_snapshot now user banner_id s =
     (if bindable s then import_pity_sql now user banner_id s
      else eff_raise (ValueError ''invalid input for query argument''))"

definition imported_op_row :: "instant \<Rightarrow> uuid \<Rightarrow> uuid \<Rightarrow> string \<Rightarrow> pull_operation \<Rightarrow> op_row" where
  "imported_op_row now oid user key_hash po =
     \<lparr>op_id = oid, op_user_id = user, op_key_hash = key_hash, op_request_hash = po_request_hash po,
      op_status = po_status po, op_response = po_response po, op_event = po_event po,
      op_error_code = po_error_code po, op_error_message = po_error_message po,
      op_recovery_locked_until = None, op_created_at = now, op_updated_at = now,
      op_processing_token = None, op_processing_lease_until = None, op_recovery_context = None,
      op_request_id = None\<rparr>"

text \<open>\<open>insert ... on conflict (user_id, idempotency_key_hash) do nothing\<close>.\<close>

definition import_operation_sql :: "instant \<Rightarrow> uuid \<Rightarrow> uuid \<Rightarrow> string \<Rightarrow> pull_operation \<Rightarrow> unit db_op" where
  "import_operation_sql now oid user key_hash po db =
     (let row = imported_op_row now oid user key_hash po in
      if \<not> op_checks row then (Inl constraint_violation, db)
      else if \<exists>r \<in> set (db_ops db). op_user_id r = user \<and> op_key_hash r = key_hash then (Inr (), db)
      else if (\<exists>r \<in> set (db_ops db). op_id r = oid) \<or> \<not> distinct (event_ids (db_ops db @ [row]))
      then (Inl constraint_violation, db)
      else (Inr (), db\<lparr>db_ops := db_ops db @ [row]\<rparr>))"

section \<open>The script\<close>

record migration_stats =
  ms_pity_snapshots :: nat
  ms_pull_operations :: nat
  ms_skipped :: nat

record legacy_models =
  lm_pity :: "string \<Rightarrow> pity_snapshot option"
  lm_operation :: "string \<Rightarrow> pull_operation option"

definition skip_entry :: "migration_stats \<Rightarrow> migration_stats" where
  "skip_entry st = st\<lparr>ms_skipped := ms_skipped st + 1\<rparr>"

text \<open>\<open>except ValueError: stats.skipped += 1\<close>.\<close>

definition or_skip :: "migration_stats \<Rightarrow> migration_stats db_op \<Rightarrow> migration_stats db_op" where
  "or_skip st body = eff_catch body (\<lambda>e.
     case e of ValueError _ \<Rightarrow> eff_return (skip_entry st) | _ \<Rightarrow> eff_raise e)"

text \<open>One key of the scan: \<open>raw\<close> is what \<open>redis.get\<close> returned, \<open>oid\<close> the fresh \<open>uuid4()\<close>.\<close>

definition migrate_entry ::
    "legacy_models \<Rightarrow> string \<Rightarrow> instant \<Rightarrow> uuid \<Rightarrow> string \<Rightarrow> string option \<Rightarrow> migration_stats
     \<Rightarrow> migration_stats db_op" where
  "migrate_entry M key_prefix now oid key raw st =
     (case (parse_legacy_key key_prefix key, raw) of
        (Some (Pity_Key user banner_id), Some value) \<Rightarrow>
          (case lm_pity M value of
             None \<Rightarrow> eff_return (skip_entry st)
           | Some s \<Rightarrow>
               or_skip st (eff_then (import_pity_snapshot now user banner_id s)
                 (eff_return (st\<lparr>ms_pity_snapshots := ms_pity_snapshots st + 1\<rparr>))))
      | (Some (Operation_Key user key_hash), Some value) \<Rightarrow>
          (case lm_operation M value of
             None \<Rightarrow> eff_return (skip_entry st)
           | Some po \<Rightarrow>
               or_skip st (eff_then (import_operation_sql now oid user key_hash po)
                 (eff_return (st\<lparr>ms_pull_operations := ms_pull_operations st + 1\<rparr>))))
      | _ \<Rightarrow> eff_return (skip_entry st))"

fun migrate_entries ::
    "legacy_models \<Rightarrow> string \<Rightarrow> (nat \<Rightarrow> instant) \<Rightarrow> (nat \<Rightarrow> uuid) \<Rightarrow> nat \<Rightarrow> (string \<times> string option) list
     \<Rightarrow> migration_stats \<Rightarrow> migration_stats db_op" where
  "migrate_entries M key_prefix now fresh n [] st = eff_return st"
| "migrate_entries M key_prefix now fresh n ((key, raw) # entries) st =
     eff_bind (migrate_entry M key_prefix (now n) (fresh n) key raw st)
       (migrate_entries M key_prefix now fresh (n + 1) entries)"

definition migrate_legacy_state ::
    "legacy_models \<Rightarrow> string \<Rightarrow> string \<Rightarrow> string \<Rightarrow> (nat \<Rightarrow> instant) \<Rightarrow> (nat \<Rightarrow> uuid)
     \<Rightarrow> (string \<times> string option) list \<Rightarrow> migration_stats db_op" where
  "migrate_legacy_state M redis_url database_url key_prefix now fresh entries =
     (if py_strip redis_url = [] then eff_raise (ValueError ''REDIS_URL is required'')
      else if py_strip database_url = [] then eff_raise (ValueError ''GACHA_STATE_DATABASE_URL is required'')
      else migrate_entries M key_prefix now fresh 0 entries
        \<lparr>ms_pity_snapshots = 0, ms_pull_operations = 0, ms_skipped = 0\<rparr>)"

end
