(* ===== verification/Migration_Guarantees.thy ===== *)
theory Migration_Guarantees
  imports Legacy_Migration Store_Guarantees
begin

text \<open>
  The import of the legacy state is safe to run on a live database and safe to repeat: it keeps the
  invariant of the tables, moves every row only forward, and a second run changes nothing.
\<close>

section \<open>One upsert\<close>

definition same_pity_place :: "uuid \<Rightarrow> string \<Rightarrow> pity_row \<Rightarrow> bool" where
  "same_pity_place user banner_id r \<longleftrightarrow> pt_user_id r = user \<and> pt_banner_id r = banner_id"

definition imported_pity_row :: "instant \<Rightarrow> uuid \<Rightarrow> string \<Rightarrow> pity_snapshot \<Rightarrow> pity_row" where
  "imported_pity_row now user banner_id s = \<lparr>pt_user_id = user, pt_banner_id = banner_id,
     pt_pity_group_id = banner_id, pt_since_five = since_five s, pt_since_four = since_four s,
     pt_guaranteed_featured_five = guaranteed_featured_five s, pt_version = version s,
     pt_created_at = now, pt_updated_at = now\<rparr>"

definition raised_pity_row :: "instant \<Rightarrow> uuid \<Rightarrow> string \<Rightarrow> pity_snapshot \<Rightarrow> pity_row \<Rightarrow> pity_row" where
  "raised_pity_row now user banner_id s r =
     (if same_pity_place user banner_id r \<and> pt_version r < version s
      then r\<lparr>pt_since_five := since_five s, pt_since_four := since_four s,
        pt_guaranteed_featured_five := guaranteed_featured_five s, pt_version := version s, pt_updated_at := now\<rparr>
      else r)"

text \<open>The upsert in terms of the two rows it can leave.\<close>

lemma import_pity_alt:
  "import_pity_sql now user b s db =
     (if \<not> pity_checks (imported_pity_row now user b s) then (Inl constraint_violation, db)
      else if \<exists>r \<in> set (db_pity db). same_pity_place user b r
      then (Inr (), db\<lparr>db_pity := map (raised_pity_row now user b s) (db_pity db)\<rparr>)
      else if \<exists>r \<in> set (db_pity db). at_pity user b r then (Inl constraint_violation, db)
      else (Inr (), db\<lparr>db_pity := db_pity db @ [imported_pity_row now user b s]\<rparr>))"
  unfolding import_pity_sql_def Let_def same_pity_place_def imported_pity_row_def raised_pity_row_def[abs_def]
    conj_assoc ..

lemma import_pity_cases:
  assumes "import_pity_sql now user banner_id s db = (Inr (), db')"
  obtains (raised) r where "r \<in> set (db_pity db)" "same_pity_place user banner_id r"
      "db' = db\<lparr>db_pity := map (raised_pity_row now user banner_id s) (db_pity db)\<rparr>"
      "pity_checks (imported_pity_row now user banner_id s)"
  | (created) "\<forall>r \<in> set (db_pity db). \<not> at_pity user banner_id r"
      "db' = db\<lparr>db_pity := db_pity db @ [imported_pity_row now user banner_id s]\<rparr>"
      "pity_checks (imported_pity_row now user banner_id s)"
  using assms that by (auto simp: import_pity_alt split: if_splits)

lemma raised_row:
  "pity_key (raised_pity_row now user b s r) = pity_key r"
  "pt_banner_id (raised_pity_row now user b s r) = pt_banner_id r"
  "pt_pity_group_id (raised_pity_row now user b s r) = pt_pity_group_id r"
  "pity_row_le r (raised_pity_row now user b s r)"
  "pity_checks r \<Longrightarrow> pity_checks (imported_pity_row now user b s) \<Longrightarrow> pity_checks (raised_pity_row now user b s r)"
  "same_pity_place user b r \<Longrightarrow> version s \<le> pt_version (raised_pity_row now user b s r)"
  by (auto simp: raised_pity_row_def pity_key_def pity_row_le_def pity_checks_def imported_pity_row_def
      same_pity_place_def)

definition pity_covered :: "uuid \<Rightarrow> string \<Rightarrow> pity_snapshot \<Rightarrow> database \<Rightarrow> bool" where
  "pity_covered user b s db \<longleftrightarrow> pity_checks (imported_pity_row 0 user b s) \<and>
     (\<exists>r \<in> set (db_pity db). same_pity_place user b r \<and> version s \<le> pt_version r)"

lemma checks_any_time: "pity_checks (imported_pity_row now user b s) = pity_checks (imported_pity_row 0 user b s)"
  by (simp add: pity_checks_def imported_pity_row_def)

lemma import_pity_ok:
  assumes wf: "wf_db db" and i: "import_pity_sql now user b s db = (Inr (), db')"
  shows "wf_db db' \<and> db_le db db' \<and> pity_covered user b s db'"
  using i
proof (cases rule: import_pity_cases)
  case (raised r)
  let ?rows = "map (raised_pity_row now user b s) (db_pity db)"
  have "map pity_key ?rows = map pity_key (db_pity db)" by (simp add: raised_row)
  moreover have "\<forall>r \<in> set ?rows. pity_checks r \<and> pt_banner_id r = pt_pity_group_id r"
    using wf raised(4) by (auto simp: wf_db_def raised_row)
  ultimately have "wf_db db'" using wf by (simp add: raised(3) wf_db_def del: map_map)
  moreover have "db_le db db'"
    by (auto simp: raised(3) db_le_def rows_le_refl raised_row intro: rows_le_map)
  moreover have "pity_covered user b s db'"
    using raised(1,2,4) raised_row(2)[of now user b s r] raised_row(1)[of now user b s r]
    unfolding pity_covered_def checks_any_time[of now, symmetric]
    by (auto simp: raised(3) same_pity_place_def pity_key_def raised_row(6) intro!: bexI[of _ r])
  ultimately show ?thesis by blast
next
  case created
  let ?row = "imported_pity_row now user b s"
  have "pity_key ?row \<notin> pity_key ` set (db_pity db)"
    using created(1) by (auto simp: at_pity_key[symmetric] imported_pity_row_def pity_key_def at_pity_def)
  then have "wf_db db'"
    using wf created(3) by (auto simp: created(2) wf_db_def imported_pity_row_def)
  moreover have "db_le db db'" by (simp add: created(2) db_le_def rows_le_refl rows_le_append)
  moreover have "pity_covered user b s db'"
    using created(3) unfolding pity_covered_def checks_any_time[of now, symmetric]
    by (auto simp: created(2) same_pity_place_def imported_pity_row_def)
  ultimately show ?thesis by blast
qed

lemma import_pity_again:
  assumes wf: "wf_db db" and c: "pity_covered user b s db"
  shows "import_pity_sql now user b s db = (Inr (), db)"
proof -
  from c obtain r where r: "r \<in> set (db_pity db)" "same_pity_place user b r" "version s \<le> pt_version r"
    and checks: "pity_checks (imported_pity_row now user b s)"
    unfolding pity_covered_def checks_any_time[of now] by blast
  have "raised_pity_row now user b s q = q" if q: "q \<in> set (db_pity db)" for q
  proof (cases "same_pity_place user b q")
    case True
    have "pity_key q = pity_key r"
      using True r(1,2) wf q by (simp add: wf_db_def pity_key_def same_pity_place_def)
    moreover have "inj_on pity_key (set (db_pity db))" using wf by (simp add: wf_db_def distinct_map)
    ultimately have "q = r" using q r(1) by (blast dest: inj_onD)
    with r(3) show ?thesis by (simp add: raised_pity_row_def)
  qed (simp add: raised_pity_row_def)
  then have "map (raised_pity_row now user b s) (db_pity db) = db_pity db" by (simp add: map_idI)
  moreover have "\<exists>r \<in> set (db_pity db). same_pity_place user b r" using r(1,2) by blast
  ultimately show ?thesis using checks by (simp add: import_pity_alt)
qed

definition operation_covered :: "uuid \<Rightarrow> string \<Rightarrow> pull_operation \<Rightarrow> database \<Rightarrow> bool" where
  "operation_covered user kh po db \<longleftrightarrow> op_checks (imported_op_row 0 0 user kh po) \<and>
     (\<exists>r \<in> set (db_ops db). op_user_id r = user \<and> op_key_hash r = kh)"

lemma op_checks_any: "op_checks (imported_op_row now oid user kh po) = op_checks (imported_op_row 0 0 user kh po)"
  by (simp add: op_checks_def imported_op_row_def)

lemma import_operation_ok:
  assumes wf: "wf_db db" and i: "import_operation_sql now oid user kh po db = (Inr (), db')"
  shows "wf_db db' \<and> db_le db db' \<and> operation_covered user kh po db'"
proof -
  let ?row = "imported_op_row now oid user kh po"
  have checks: "op_checks ?row" using i by (auto simp: import_operation_sql_def Let_def split: if_splits)
  from i consider "db' = db" "\<exists>r \<in> set (db_ops db). op_user_id r = user \<and> op_key_hash r = kh"
    | "db' = db\<lparr>db_ops := db_ops db @ [?row]\<rparr>" "op_id ?row \<notin> op_id ` set (db_ops db)"
      "op_key ?row \<notin> op_key ` set (db_ops db)" "distinct (event_ids (db_ops db @ [?row]))"
    by (auto simp: import_operation_sql_def Let_def imported_op_row_def op_key_def split: if_splits)
  then show ?thesis
  proof cases
    case 1
    with wf checks show ?thesis by (auto simp: operation_covered_def op_checks_any[of now oid])
  next
    case 2
    then have "wf_db db'" using wf checks by (auto simp: wf_db_def)
    moreover have "db_le db db'" by (simp add: 2(1) db_le_def rows_le_refl rows_le_append)
    moreover have "operation_covered user kh po db'"
      using checks unfolding operation_covered_def op_checks_any[of now oid, symmetric]
      by (simp add: 2(1)) (simp add: imported_op_row_def)
    ultimately show ?thesis by blast
  qed
qed

lemma import_operation_again:
  "operation_covered user kh po db \<Longrightarrow> import_operation_sql now oid user kh po db = (Inr (), db)"
  by (auto simp: operation_covered_def import_operation_sql_def Let_def op_checks_any[of now oid])

section \<open>The whole import\<close>

text \<open>What an entry leaves behind, and how it is counted.\<close>

definition entry_covered :: "legacy_models \<Rightarrow> string \<Rightarrow> string \<times> string option \<Rightarrow> database \<Rightarrow> bool" where
  "entry_covered M key_prefix entry db =
     (case (parse_legacy_key key_prefix (fst entry), snd entry) of
        (Some (Pity_Key user b), Some value) \<Rightarrow>
          (case lm_pity M value of None \<Rightarrow> True | Some s \<Rightarrow> bindable s \<longrightarrow> pity_covered user b s db)
      | (Some (Operation_Key user kh), Some value) \<Rightarrow>
          (case lm_operation M value of None \<Rightarrow> True | Some po \<Rightarrow> operation_covered user kh po db)
      | _ \<Rightarrow> True)"

definition counted :: "legacy_models \<Rightarrow> string \<Rightarrow> string \<times> string option \<Rightarrow> migration_stats \<Rightarrow> migration_stats" where
  "counted M key_prefix entry st =
     (case (parse_legacy_key key_prefix (fst entry), snd entry) of
        (Some (Pity_Key user b), Some value) \<Rightarrow>
          (case lm_pity M value of None \<Rightarrow> skip_entry st
           | Some s \<Rightarrow> (if bindable s then st\<lparr>ms_pity_snapshots := ms_pity_snapshots st + 1\<rparr> else skip_entry st))
      | (Some (Operation_Key user kh), Some value) \<Rightarrow>
          (case lm_operation M value of None \<Rightarrow> skip_entry st
           | Some po \<Rightarrow> st\<lparr>ms_pull_operations := ms_pull_operations st + 1\<rparr>)
      | _ \<Rightarrow> skip_entry st)"

lemma or_skip_statement:
  assumes "\<And>db. fst (m db) \<in> {Inl constraint_violation, Inr ()}"
  shows "or_skip st (eff_then m (eff_return st')) = eff_then m (eff_return st')"
proof
  fix db show "or_skip st (eff_then m (eff_return st')) db = eff_then m (eff_return st') db"
    using assms[of db]
    by (cases "m db") (auto simp: or_skip_def eff_defs constraint_violation_def)
qed

lemma imports_raise:
  "fst (import_pity_sql now u b s db) \<in> {Inl constraint_violation, Inr ()}"
  "fst (import_operation_sql now oid u kh po db) \<in> {Inl constraint_violation, Inr ()}"
  by (simp_all add: import_pity_sql_def import_operation_sql_def Let_def)

lemma entry_cases:
  obtains (pity) u b s where
      "\<And>now oid st. migrate_entry M kp now oid key raw st =
         eff_then (import_pity_sql now u b s) (eff_return (counted M kp (key, raw) st))"
      "\<And>db. entry_covered M kp (key, raw) db = pity_covered u b s db"
  | (operation) u kh po where
      "\<And>now oid st. migrate_entry M kp now oid key raw st =
         eff_then (import_operation_sql now oid u kh po) (eff_return (counted M kp (key, raw) st))"
      "\<And>db. entry_covered M kp (key, raw) db = operation_covered u kh po db"
  | (skipped) "\<And>now oid st. migrate_entry M kp now oid key raw st = eff_return (counted M kp (key, raw) st)"
      "\<And>db. entry_covered M kp (key, raw) db"
proof (cases "parse_legacy_key kp key")
  case None
  then show ?thesis using skipped by (simp add: migrate_entry_def counted_def entry_covered_def)
next
  case k: (Some k)
  show ?thesis
  proof (cases raw)
    case None
    with k show ?thesis
      using skipped by (cases k) (simp_all add: migrate_entry_def counted_def entry_covered_def)
  next
    case (Some v)
    show ?thesis
    proof (cases k)
      case (Pity_Key u b)
      show ?thesis
      proof (cases "\<exists>s. lm_pity M v = Some s \<and> bindable s")
        case True
        then obtain s where "lm_pity M v = Some s" "bindable s" by blast
        with k Some Pity_Key show ?thesis
          by (intro pity[of u b s])
            (simp_all add: migrate_entry_def counted_def entry_covered_def import_pity_snapshot_def
              or_skip_statement[OF imports_raise(1)])
      next
        case False
        with k Some Pity_Key show ?thesis
          by (intro skipped) (auto simp: migrate_entry_def counted_def entry_covered_def import_pity_snapshot_def
              or_skip_def eff_defs split: option.splits)
      qed
    next
      case (Operation_Key u kh)
      with k Some show ?thesis
        using skipped operation[of u kh]
        by (cases "lm_operation M v") (simp_all add: migrate_entry_def counted_def entry_covered_def
            or_skip_statement[OF imports_raise(2)])
    qed
  qed
qed

lemma pity_covered_later:
  assumes "wf_db db" "wf_db db'" "db_le db db'" "pity_covered u b s db"
  shows "pity_covered u b s db'"
proof -
  from assms(4) obtain r where r: "r \<in> set (db_pity db)" "same_pity_place u b r" "version s \<le> pt_version r"
    by (auto simp: pity_covered_def)
  from assms(3) have "rows_le pity_row_le (db_pity db) (db_pity db')" by (simp add: db_le_def)
  from rows_le_member[OF this r(1)] obtain q where q: "q \<in> set (db_pity db')" "pity_row_le r q" by blast
  with r assms(1,2) have "same_pity_place u b q" "version s \<le> pt_version q"
    by (auto simp: same_pity_place_def pity_row_le_def wf_db_def)
  with q assms(4) show ?thesis by (auto simp: pity_covered_def)
qed

lemma operation_covered_later:
  assumes "db_le db db'" "operation_covered u kh po db"
  shows "operation_covered u kh po db'"
proof -
  from assms(2) obtain r where r: "r \<in> set (db_ops db)" "op_user_id r = u" "op_key_hash r = kh"
    by (auto simp: operation_covered_def)
  from assms(1) have "rows_le row_le (db_ops db) (db_ops db')" by (simp add: db_le_def)
  from rows_le_member[OF this r(1)] obtain q where "q \<in> set (db_ops db')" "row_le r q" by blast
  with r assms(2) show ?thesis by (auto simp: operation_covered_def row_le_def)
qed

lemma covered_later:
  assumes "wf_db db" "wf_db db'" "db_le db db'" "entry_covered M kp (key, raw) db"
  shows "entry_covered M kp (key, raw) db'"
  using assms(4)
  by (cases rule: entry_cases[of M kp key raw])
     (simp_all add: pity_covered_later[OF assms(1-3)] operation_covered_later[OF assms(3)])

lemma then_return_InrD: "eff_then m (eff_return x) db = (Inr y, db') \<Longrightarrow> \<exists>u. m db = (Inr u, db') \<and> y = x"
  by (auto simp: eff_defs split: prod.splits sum.splits)

lemma entry_ok:
  assumes wf: "wf_db db" and m: "migrate_entry M kp now oid key raw st db = (Inr st', db')"
  shows "wf_db db' \<and> db_le db db' \<and> entry_covered M kp (key, raw) db' \<and> st' = counted M kp (key, raw) st"
proof (cases rule: entry_cases[of M kp key raw])
  case (pity u b s)
  from then_return_InrD[OF m[unfolded pity(1)]] import_pity_ok[OF wf, of now u b s db'] show ?thesis
    by (simp add: pity(2))
next
  case (operation u kh po)
  from then_return_InrD[OF m[unfolded operation(1)]] import_operation_ok[OF wf, of now oid u kh po db'] show ?thesis
    by (simp add: operation(2))
next
  case skipped
  with m wf show ?thesis by (simp add: eff_return_def)
qed

lemma entry_again:
  assumes wf: "wf_db db" and c: "entry_covered M kp (key, raw) db"
  shows "migrate_entry M kp now oid key raw st db = (Inr (counted M kp (key, raw) st), db)"
proof (cases rule: entry_cases[of M kp key raw])
  case (pity u b s)
  with import_pity_again[OF wf, of u b s now] c show ?thesis by (simp add: eff_defs)
next
  case (operation u kh po)
  with import_operation_again[of u kh po db now oid] c show ?thesis by (simp add: eff_defs)
qed (simp add: eff_return_def)

lemma entries_ok:
  assumes "wf_db db" "migrate_entries M kp now fresh n entries st db = (Inr st', db')"
  shows "wf_db db' \<and> db_le db db' \<and> list_all (\<lambda>entry. entry_covered M kp entry db') entries \<and>
    st' = fold (counted M kp) entries st"
  using assms
proof (induction entries arbitrary: n st db)
  case Nil
  then show ?case by (simp add: eff_return_def)
next
  case (Cons entry entries)
  obtain key raw where e: "entry = (key, raw)" by force
  from Cons.prems(2) obtain s1 d1 where
    1: "migrate_entry M kp (now n) (fresh n) key raw st db = (Inr s1, d1)" and
    2: "migrate_entries M kp now fresh (n + 1) entries s1 d1 = (Inr st', db')"
    unfolding e migrate_entries.simps by (rule eff_bind_InrE)
  have h: "wf_db d1" "db_le db d1" "entry_covered M kp entry d1" "s1 = counted M kp entry st"
    using entry_ok[OF Cons.prems(1) 1] by (simp_all add: e)
  note t = Cons.IH[OF h(1) 2]
  have "entry_covered M kp entry db'"
    using covered_later[of d1 db' M kp key raw] h t by (simp add: e)
  with h t show ?case by (auto intro: db_le_trans)
qed

lemma entries_again:
  "wf_db db \<Longrightarrow> list_all (\<lambda>entry. entry_covered M kp entry db) entries \<Longrightarrow>
   migrate_entries M kp now fresh n entries st db = (Inr (fold (counted M kp) entries st), db)"
  by (induction entries arbitrary: n st) (auto simp: eff_return_def eff_bind_def entry_again)

text \<open>C40: the import of the legacy state is safe and repeatable. A run that returns keeps the invariant
  of the tables and moves every stored row only forward: no pity version falls and no operation that
  was there changes. A second run over the same keys, at other times and with other fresh ids, returns
  the same counts and changes nothing.\<close>

theorem legacy_import_is_repeatable:
  assumes "wf_db db"
    and "migrate_legacy_state M redis_url database_url key_prefix now fresh entries db = (Inr stats, db')"
  shows "wf_db db' \<and> db_le db db' \<and>
    migrate_legacy_state M redis_url database_url key_prefix now' fresh' entries db' = (Inr stats, db')"
proof -
  let ?zero = "\<lparr>ms_pity_snapshots = 0, ms_pull_operations = 0, ms_skipped = 0\<rparr>"
  have urls: "py_strip redis_url \<noteq> []" "py_strip database_url \<noteq> []"
    and run: "migrate_entries M key_prefix now fresh 0 entries ?zero db = (Inr stats, db')"
    using assms(2) by (auto simp: migrate_legacy_state_def eff_raise_def split: if_splits)
  from entries_ok[OF assms(1) run] entries_again[of db' M key_prefix entries now' fresh' 0 ?zero]
  show ?thesis by (simp add: migrate_legacy_state_def urls)
qed

text \<open>The import of one snapshot into an empty database, and again.\<close>

definition sample_models :: legacy_models where
  "sample_models = \<lparr>lm_pity = (\<lambda>_. Some (with_version create_initial_pity 3)), lm_operation = (\<lambda>_. None)\<rparr>"

definition sample_entries :: "(string \<times> string option) list" where
  "sample_entries = [(''gacha:pity:00000000-0000-0000-0000-000000000002:b'', Some ''x''), (''other'', None)]"

lemma sample_key:
  "parse_legacy_key ''gacha:pity'' ''gacha:pity:00000000-0000-0000-0000-000000000002:b'' = Some (Pity_Key 2 ''b'')"
  using uuid_parse_str[of 2]
  by (simp add: uuid_str_two parse_legacy_key_def py_strip_chars_def starts_with_def operation_marker_def
      py_split1_def py_len_def)

lemma sample_urls: "py_strip ''cafe'' = ''cafe''" "py_strip ''db'' = ''db''"
  by (rule hex_text_strip, simp add: hex_text_def)+

lemma sample_other_key: "parse_legacy_key ''gacha:pity'' ''other'' = None"
  by (simp add: parse_legacy_key_def py_strip_chars_def starts_with_def)

lemma sample_bindable: "bindable (with_version create_initial_pity 3)"
  by (simp add: bindable_def with_version_def create_initial_pity_def)

lemma sample_import:
  "migrate_legacy_state sample_models ''cafe'' ''db'' ''gacha:pity'' (\<lambda>_. 5) (\<lambda>_. 9) sample_entries empty_db =
     (Inr \<lparr>ms_pity_snapshots = 1, ms_pull_operations = 0, ms_skipped = 1\<rparr>,
      empty_db\<lparr>db_pity := [imported_pity_row 5 2 ''b'' (with_version create_initial_pity 3)]\<rparr>)"
proof -
  let ?row = "imported_pity_row 5 2 ''b'' (with_version create_initial_pity 3)"
  have "pity_checks ?row"
    by (simp add: pity_checks_def imported_pity_row_def py_len_def with_version_def create_initial_pity_def)
  then have "import_pity_sql 5 2 ''b'' (with_version create_initial_pity 3) empty_db =
      (Inr (), empty_db\<lparr>db_pity := [?row]\<rparr>)"
    by (simp add: import_pity_alt empty_db_def)
  then show ?thesis
    by (simp add: migrate_legacy_state_def sample_entries_def migrate_entry_def sample_key sample_other_key sample_urls
        sample_models_def import_pity_snapshot_def or_skip_def eff_defs skip_entry_def sample_bindable)
qed

lemma legacy_import_is_repeatable_witness:
  "migrate_legacy_state sample_models ''cafe'' ''db'' ''gacha:pity'' (\<lambda>_. 6) (\<lambda>_. 10) sample_entries
     (empty_db\<lparr>db_pity := [imported_pity_row 5 2 ''b'' (with_version create_initial_pity 3)]\<rparr>) =
   (Inr \<lparr>ms_pity_snapshots = 1, ms_pull_operations = 0, ms_skipped = 1\<rparr>,
    empty_db\<lparr>db_pity := [imported_pity_row 5 2 ''b'' (with_version create_initial_pity 3)]\<rparr>)"
  using legacy_import_is_repeatable[OF empty_db_wf sample_import] by blast

end
