(* ===== verification/Entry_Points.thy ===== *)
theory Entry_Points
  imports Legacy_Migration Settings
begin

text \<open>
  The two command lines: \<open>server.py\<close>, which starts uvicorn on the settings, and the command line of
  \<open>scripts/migrate_redis_state.py\<close>. The options are the values argparse has parsed; uvicorn and the
  Redis scan are what the functions return the arguments for.
\<close>

section \<open>The server\<close>

record server_options =
  so_host :: "string option"
  so_port :: "int option"

record uvicorn_call =
  uv_app :: string
  uv_host :: string
  uv_port :: int
  uv_access_log :: bool

text \<open>\<open>x or y\<close> for a string and for a number.\<close>

definition host_or :: "string option \<Rightarrow> string \<Rightarrow> string" where
  "host_or h fallback = (case h of None \<Rightarrow> fallback | Some v \<Rightarrow> if v = [] then fallback else v)"

definition port_or :: "int option \<Rightarrow> int \<Rightarrow> int" where
  "port_or p fallback = (case p of None \<Rightarrow> fallback | Some v \<Rightarrow> if v = 0 then fallback else v)"

definition startup_line :: "string \<Rightarrow> int \<Rightarrow> string" where
  "startup_line host port =
     utf8 [230, 156, 141, 229, 138, 161, 229, 144, 175, 229, 138, 168, 228, 184, 173, 239, 188, 154] @
     ''http://'' @ host @ '':'' @ show_int port @ ''/docs''"

definition server_run :: "environ \<Rightarrow> string option \<Rightarrow> int option \<Rightarrow> (string \<times> uvicorn_call) result" where
  "server_run getenv host port =
     res_bind (settings_from_env getenv) (\<lambda>s.
       let bind_host = host_or host (st_host s); bind_port = port_or port (st_port s) in
       Inr (startup_line bind_host bind_port,
         \<lparr>uv_app = ''gacha_engine_service.main:app'', uv_host = bind_host, uv_port = bind_port,
          uv_access_log = False\<rparr>))"

definition server_main :: "environ \<Rightarrow> server_options \<Rightarrow> (string \<times> uvicorn_call) result" where
  "server_main getenv args = server_run getenv (so_host args) (so_port args)"

section \<open>The migration script\<close>

record migration_args =
  ma_redis_url :: string
  ma_database_url :: string
  ma_key_prefix :: string

record migration_options =
  mo_redis_url :: "string option"
  mo_database_url :: "string option"
  mo_key_prefix :: "string option"

definition getenv_or :: "environ \<Rightarrow> string \<Rightarrow> string \<Rightarrow> string" where
  "getenv_or getenv name fallback = (case getenv name of None \<Rightarrow> fallback | Some v \<Rightarrow> v)"

text \<open>The defaults of the parser, overridden by the options that are given.\<close>

definition migration_parser :: "environ \<Rightarrow> migration_options \<Rightarrow> migration_args" where
  "migration_parser getenv args =
     \<lparr>ma_redis_url = (case mo_redis_url args of None \<Rightarrow> getenv_or getenv ''REDIS_URL'' [] | Some v \<Rightarrow> v),
      ma_database_url = (case mo_database_url args of
          None \<Rightarrow> (let u = getenv_or getenv ''GACHA_STATE_DATABASE_URL'' [] in
            if u = [] then getenv_or getenv ''GACHA_CONFIG_DATABASE_URL'' [] else u)
        | Some v \<Rightarrow> v),
      ma_key_prefix = (case mo_key_prefix args of
          None \<Rightarrow> getenv_or getenv ''REDIS_KEY_PREFIX'' ''gacha:pity'' | Some v \<Rightarrow> v)\<rparr>"

definition migration_summary :: "migration_stats \<Rightarrow> string" where
  "migration_summary st =
     ''migration complete: pity_snapshots='' @ show_int (int (ms_pity_snapshots st)) @
     '' pull_operations='' @ show_int (int (ms_pull_operations st)) @
     '' skipped='' @ show_int (int (ms_skipped st))"

text \<open>The keys of the scan carry the prefix; \<open>scanned\<close> is what Redis answers for the pattern.\<close>

definition scan_pattern :: "string \<Rightarrow> string" where
  "scan_pattern key_prefix = py_strip_chars '':'' key_prefix @ '':*''"

definition migration_main ::
    "legacy_models \<Rightarrow> environ \<Rightarrow> migration_options \<Rightarrow> (nat \<Rightarrow> instant) \<Rightarrow> (nat \<Rightarrow> uuid)
     \<Rightarrow> (string \<Rightarrow> (string \<times> string option) list) \<Rightarrow> string db_op" where
  "migration_main M getenv args now fresh scanned =
     (let a = migration_parser getenv args in
      eff_bind (migrate_legacy_state M (ma_redis_url a) (ma_database_url a) (ma_key_prefix a) now fresh
          (scanned (scan_pattern (ma_key_prefix a))))
        (\<lambda>stats. eff_return (migration_summary stats)))"

section \<open>Facts\<close>

text \<open>The server is only started on checked settings.\<close>

lemma server_binds:
  assumes "server_main getenv \<lparr>so_host = h, so_port = p\<rparr> = Inr (line, uv)"
  shows "uv_host uv \<noteq> []" "p = None \<or> p = Some 0 \<Longrightarrow> 1 \<le> uv_port uv"
proof -
  from assms obtain s where s: "settings_from_env getenv = Inr s" "uv_host uv = host_or h (st_host s)"
    "uv_port uv = port_or p (st_port s)"
    by (auto simp: server_main_def server_run_def Let_def res_bind_def split: sum.splits)
  from settings_checked[OF s(1)] have "st_host s \<noteq> []" "1 \<le> st_port s" by (simp_all add: settings_valid_def)
  then show "uv_host uv \<noteq> []" "p = None \<or> p = Some 0 \<Longrightarrow> 1 \<le> uv_port uv"
    by (auto simp: s(2,3) host_or_def port_or_def split: option.splits)
qed

text \<open>Every key the script can parse is one the scan asks for.\<close>

lemma scan_covers_keys:
  "parse_legacy_key key_prefix key = Some k \<Longrightarrow> starts_with (butlast (scan_pattern key_prefix)) key"
  by (simp add: parse_legacy_key_def scan_pattern_def Let_def butlast_append split: if_splits)

end
