(* ===== verification/Spec2Isabelle.thy ===== *)
theory Spec2Isabelle
  imports Pull_Guarantees Audit_Guarantees Store_Guarantees Flow_Guarantees Catalog_Publication Release_Audit
    Api_Guarantees Recovery_Guarantees Delivery_Guarantees Answer_Guarantees
    Completion_Guarantees Spend_Guarantees Type_Guarantees Lifecycle_Guarantees Migration_Guarantees Entry_Points
begin

text \<open>
  The gacha engine service: a verification development.

  \<^bold>\<open>The program.\<close> The service sells pulls of gacha banners. A request for a pull names a banner, a count
  and an idempotency key. The service claims an operation for the key, freezes the rules of the banner
  and a random seed in a recovery context, charges the user at the asset service, computes the pull with
  the engine from the stored pity counters, commits counters, response, event and audit evidence in one
  transaction, publishes the event on Kafka and answers. A background worker takes over what a request
  left unfinished: expired claims are executed again, pending events are published and confirmed with
  the backpack service, pending refunds are paid. Everything is stored in two Postgres tables; the
  banners come from a published release in a second database, or from a catalog in the source.

  \<^bold>\<open>The ground.\<close> \<open>Gacha_Prelude\<close>: exceptions, results, dicts. \<open>Py_Text\<close>, \<open>Py_Float\<close>, \<open>Py_Library\<close>: the
  part of the Python library the program uses (strings as UTF-8 bytes, UUIDs, binary64 rounding, JSON);
  what is outside it (random generator, SHA-256, uuid5, parsing of dates) is the parameter record
  \<open>lib\<close>, with its documented behaviour as the hypotheses \<open>rng_lawful\<close> and \<open>sha_lawful\<close> of the theorems
  that need it. \<open>Gacha_Effects\<close>: code with a state that may raise, its control structures, the two
  program logics \<open>guarantees\<close> (a relation of the states before and after) and \<open>wp\<close> (weakest
  precondition with a postcondition for exceptions).

  \<^bold>\<open>The model\<close>, by source file under \<open>src/gacha_engine_service\<close>.
  \<^item> \<open>schemas.py\<close>: \<open>Gacha_Schemas\<close>, one record per model. \<open>catalog_config.py\<close>: \<open>Catalog_Config\<close>, with
    \<open>_static_banner_config\<close> in \<open>Static_Catalog\<close>; \<open>catalog.py\<close>: \<open>Static_Catalog\<close>.
  \<^item> \<open>engine.py\<close>: \<open>Engine\<close>; \<open>pull_step\<close> is the body of the loop of \<open>perform_pulls\<close>.
  \<^item> \<open>pull_operations.py\<close>: \<open>Pull_Operations\<close>; \<open>pull_audit.py\<close>: \<open>Pull_Audit\<close>.
  \<^item> \<open>postgres_state.py\<close>, \<open>state_store.py\<close> and \<open>migrations/\<close>: \<open>Postgres_State\<close>, one definition per
    statement and per method, with the keys, CHECK constraints and the evidence trigger of the tables.
  \<^item> \<open>catalog_repository.py\<close>: \<open>Catalog_Repository\<close>; \<open>config.py\<close>: \<open>Settings\<close>.
  \<^item> \<open>asset_client.py\<close>, \<open>backpack_client.py\<close>, \<open>kafka_events.py\<close>: \<open>Clients\<close>. Their connections, and the
    pools of the two repositories, which the first call opens: \<open>Connections\<close>.
  \<^item> \<open>main.py\<close> and \<open>auth.py\<close>: \<open>Pull_Service\<close> (the pull flow, handler by handler), \<open>Recovery\<close> (the
    worker), \<open>Http_Api\<close> (endpoints, authentication, error responses), \<open>App_Lifecycle\<close> (\<open>create_app\<close>,
    the lifespan, the access log). The handlers run in the \<open>world\<close> of \<open>Service_World\<close>: database, topic,
    requests sent, and a clock of awaits. At each await an \<open>env\<close> decides what the outside does.
  \<^item> \<open>telemetry.py\<close>: \<open>Telemetry\<close>; \<open>server.py\<close> and the command line of the migration: \<open>Entry_Points\<close>.
  \<^item> \<open>scripts/migrate_redis_state.py\<close>: \<open>Legacy_Migration\<close>.

  \<^bold>\<open>The guarantees.\<close>
  \<^item> \<open>Engine_Props\<close>, \<open>Pull_Guarantees\<close>: on every well-formed config a batch returns; hard pity, the
    featured guarantee, the sound records and the probability bounds; the counters as a function of the
    history; how far the rates computed in binary64 are from the rule over the rationals, by the
    rounding-error lemmas of \<open>Py_Float\<close>. \<open>Type_Guarantees\<close>: a computed pull fits the schemas and the columns.
  \<^item> \<open>Audit_Guarantees\<close>, \<open>Release_Audit\<close>: the recovery context loses nothing; "verified" is a faithful
    replay; a pull of a released banner verifies against its release.
  \<^item> \<open>Postgres_Props\<close>, \<open>Store_Guarantees\<close>: \<open>store_step\<close> is the step relation of the tables under any
    session; commits are atomic and serial, evidence is immutable, claims are exclusive. \<open>Store_Relations\<close>: what every statement keeps, every method keeps.
  \<^item> \<open>Service_Props\<close> and \<open>Service_Guarantees\<close> (one rule per call and per handler), \<open>Service_Errors\<close>
    (which exceptions leave), \<open>Service_Costs\<close> (how much a request uses), \<open>Service_Relations\<close> (what no
    handler breaks) carry \<open>Flow_Guarantees\<close>, the properties of a request, and \<open>Recovery_Guarantees\<close>, those
    of every run of requests and passes of the worker (\<open>service_step\<close>).
  \<^item> \<open>Answer_Guarantees\<close>, \<open>Delivery_Guarantees\<close>, \<open>Completion_Guarantees\<close>: what a request or a pass brings
    about when nothing fails; \<open>Charge_Guarantees\<close>: the charge of a pull that cannot be computed.
  \<^item> \<open>Spend_Guarantees\<close>: over every run of requests and passes, with retries, takeovers and interruptions,
    all spends of one operation are one request at the asset service. It rests on \<open>steady\<close>: a processing
    operation keeps its recovery context, and no operation returns to "processing".
  \<^item> \<open>Catalog_Guarantees\<close>: checked configs. \<open>Catalog_Publication\<close>: \<open>published\<close> relates a release text to a
    snapshot field by field, the loader refines it, and what the provider serves is authentic and fresh. \<open>Api_Guarantees\<close>: admission,
    settings, read-back. \<open>Lifecycle_Guarantees\<close>: request ids, connections, shutdown.
    \<open>Migration_Guarantees\<close>: the import is repeatable.

  \<^bold>\<open>The interfaces\<close> are locales, interpreted on the model's own definitions.
  \<^item> \<open>versioned_store\<close> (conditional writes): the two commits of the state store.
  \<^item> \<open>release_repository\<close> (a source of snapshots): the static and the Postgres repository.
  \<^item> \<open>at_least_once_sender\<close> (a publisher that may fail after it sent): the Kafka client.
  \<^item> \<open>lazy_connection\<close> (open on first use, keep until closed): the two pools and the Kafka producer.
  \<^item> \<open>service_cost\<close> (the prices of the primitive calls): awaits, spends, credits, messages.
  \<^item> \<open>store_relation\<close> (a preorder of databases every statement keeps): \<open>successes\<close>, \<open>operations\<close>.
  \<^item> \<open>service_calls\<close> (a preorder of worlds every primitive call but the spend keeps, with the handlers
    that do not charge): \<open>unbilled\<close>. \<open>service_flow\<close> adds the two handlers that charge, \<open>claim_or_resume\<close>
    and the takeover of an expired claim, and carries the relation through every request, pass and run:
    \<open>billing\<close>. \<open>service_relation\<close> adds the primitive spend instead and is a \<open>sublocale\<close> of
    \<open>service_flow\<close>: \<open>advancing\<close>, \<open>confirming\<close>, \<open>growing\<close>, \<open>steadying\<close>.

  \<^bold>\<open>Bounds and hypotheses.\<close> Loops have the bounds of the source: five attempts to commit, three to
  publish, one pass per record of a scan; no other fuel is used. The worker, which never ends, is any
  number of iterations. \<open>lawful_env\<close>: other sessions issue only the program's own statements.
  \<open>disciplined_env\<close>: other instances besides keep the recovery context of a processing operation, as
  every run of the program does (\<open>runs_are_steady\<close>). \<open>calm\<close>: no
  call fails and no other session is at work; it is assumed only where a liveness statement says so.
  Theorems without either hold for every timing and every failure, a call that fails after it took
  effect included. A handler is one sequence of steps with other sessions between any two of its awaits;
  handlers of one process share no state but the world and the connections, whose overlap is
  \<open>overlap\<close> in \<open>Connections\<close>.

  \<^bold>\<open>Not modelled.\<close> The routing, validation messages and JSON rendering of FastAPI; the packages asyncpg,
  aiokafka, httpx, uvicorn, argparse and OpenTelemetry, which appear as arguments or recorded actions;
  tracing spans, trace headers and log lines other than the access log; cancellation in the middle of a
  pass; the Redis scan of the migration; the down-migrations, back-fills and indexes of \<open>migrations/\<close> and
  the DELETE branch of the evidence trigger, since the program deletes nothing;
  tests and deployment files. None of them holds state or logic of the program.
\<close>

end
